(* ===== verification/Prelude.thy ===== *)
theory Prelude
  imports Main "HOL-Library.Word" "HOL-Library.Sublist" "HOL-Library.Monad_Syntax"
begin

text \<open>
  Shared vocabulary of the development: machine integers at their Rust widths, the pieces of the
  Rust standard library the crate relies on (integer formatting and parsing, \<open>strip_prefix\<close>,
  \<open>splitn\<close>, \<open>contains\<close>, \<open>to_be_bytes\<close>), results as sums, and the generic lemmas about them.
  A Rust \<open>String\<close> is its list of UTF-8 bytes, so a \<open>char\<close> here is one byte.
\<close>

section \<open>Machine integers\<close>

type_synonym u8 = "8 word"
type_synonym u16 = "16 word"
type_synonym u32 = "32 word"
type_synonym u64 = "64 word"
type_synonym i32 = "32 word"  \<comment> \<open>two's complement, read with \<open>sint\<close>\<close>
type_synonym i64 = "64 word"  \<comment> \<open>two's complement, read with \<open>sint\<close>\<close>

text \<open>A \<open>Duration\<close> (and an \<open>Instant\<close>, measured from an arbitrary origin) counts nanoseconds.\<close>

type_synonym duration = nat

named_theorems payload_simps \<open>the request payloads and what they are built from\<close>
named_theorems ns_simps \<open>distinctness and values of the protocol constants\<close>

section \<open>Results\<close>

text \<open>The \<open>?\<close> operator on a \<open>Result\<close>, whose error is the left summand.\<close>

definition and_then :: "'e + 'a \<Rightarrow> ('a \<Rightarrow> 'e + 'b) \<Rightarrow> 'e + 'b" where
  "and_then r f = (case r of Inl e \<Rightarrow> Inl e | Inr a \<Rightarrow> f a)"

lemma and_then_simps [simp]:
  "and_then (Inl e) f = Inl e"
  "and_then (Inr a) f = f a"
  by (simp_all add: and_then_def)

lemma and_then_eq_Inr:
  "and_then r f = Inr b \<longleftrightarrow> (\<exists>a. r = Inr a \<and> f a = Inr b)"
  by (cases r) simp_all

text \<open>\<open>Option::ok_or\<close> and \<open>unwrap_or\<close>.\<close>

definition ok_or :: "'e \<Rightarrow> 'a option \<Rightarrow> 'e + 'a" where
  "ok_or e x = (case x of None \<Rightarrow> Inl e | Some a \<Rightarrow> Inr a)"

lemma ok_or_simps [simp]: "ok_or e None = Inl e" "ok_or e (Some a) = Inr a"
  by (simp_all add: ok_or_def)

definition unwrap_or :: "'a \<Rightarrow> 'a option \<Rightarrow> 'a" where
  "unwrap_or d x = (case x of None \<Rightarrow> d | Some a \<Rightarrow> a)"

lemma unwrap_or_simps [simp]: "unwrap_or d None = d" "unwrap_or d (Some a) = a"
  by (simp_all add: unwrap_or_def)

text \<open>\<open>Option::filter\<close> and \<open>Option::or_else\<close>.\<close>

definition opt_filter :: "('a \<Rightarrow> bool) \<Rightarrow> 'a option \<Rightarrow> 'a option" where
  "opt_filter P x = (case x of None \<Rightarrow> None | Some a \<Rightarrow> if P a then Some a else None)"

lemma opt_filter_simps [simp]:
  "opt_filter P None = None"
  "opt_filter P (Some a) = (if P a then Some a else None)"
  by (simp_all add: opt_filter_def)

definition or_else :: "'a option \<Rightarrow> 'a option \<Rightarrow> 'a option" where
  "or_else x y = (case x of None \<Rightarrow> y | Some a \<Rightarrow> Some a)"

lemma or_else_simps [simp]: "or_else None y = y" "or_else (Some a) y = Some a"
  by (simp_all add: or_else_def)

lemma or_else_None [simp]: "or_else x None = x"
  by (cases x) simp_all

lemma bind_map_option [simp]: "Option.bind (map_option f x) g = Option.bind x (\<lambda>a. g (f a))"
  by (cases x) simp_all

lemma bind_Some_fun [simp]: "Option.bind x (\<lambda>a. Some (f a)) = map_option f x"
  by (cases x) simp_all

lemma map_option_id [simp]: "map_option (\<lambda>a. a) x = x"
  by (cases x) simp_all

section \<open>Integers as text\<close>

definition digit :: "nat \<Rightarrow> char" where
  "digit d = (if d < 10 then char_of (48 + d) else char_of (87 + d))"

definition undigit :: "char \<Rightarrow> nat" where
  "undigit c = (let n = of_char c in if n < 58 then n - 48 else n - 87)"

lemma undigit_digit [simp]: "d < 36 \<Longrightarrow> undigit (digit d) = d"
  by (simp add: digit_def undigit_def Let_def)

text \<open>The digits of \<open>n\<close> in base \<open>b\<close>, most significant first: what \<open>{}\<close> (base 10) and \<open>{:x}\<close>
  (base 16) print for an unsigned integer.\<close>

fun radix :: "nat \<Rightarrow> nat \<Rightarrow> string" where
  "radix b n = (if n < b \<or> b < 2 then [digit n] else radix b (n div b) @ [digit (n mod b)])"

declare radix.simps [simp del]

definition decimal :: "nat \<Rightarrow> string" where "decimal n = radix 10 n"

definition hex :: "nat \<Rightarrow> string" where "hex n = radix 16 n"

definition radix_val :: "nat \<Rightarrow> string \<Rightarrow> nat" where
  "radix_val b s = foldl (\<lambda>acc c. acc * b + undigit c) 0 s"

lemma radix_val_snoc: "radix_val b (s @ [c]) = radix_val b s * b + undigit c"
  by (simp add: radix_val_def)

lemma radix_not_Nil [simp]: "radix b n \<noteq> []"
  by (subst radix.simps) simp

lemma radix_val_radix:
  assumes "2 \<le> b" and "b \<le> 36"
  shows "radix_val b (radix b n) = n"
proof (induction n rule: less_induct)
  case (less n)
  show ?case
  proof (cases "n < b")
    case True
    with assms show ?thesis
      by (subst radix.simps) (simp add: radix_val_def)
  next
    case False
    with assms have "n div b < n" by (intro div_less_dividend) auto
    then have "radix_val b (radix b (n div b)) = n div b" by (rule less)
    moreover have "n mod b < 36"
      using mod_less_divisor [of b n] assms by linarith
    ultimately show ?thesis
      using False assms by (subst radix.simps) (simp add: radix_val_snoc)
  qed
qed

lemma hex_inject [simp]: "hex m = hex n \<longleftrightarrow> m = n"
proof
  assume "hex m = hex n"
  then have "radix_val 16 (radix 16 m) = radix_val 16 (radix 16 n)" by (simp add: hex_def)
  then show "m = n" by (simp add: radix_val_radix)
qed simp

definition is_digit :: "char \<Rightarrow> bool" where
  "is_digit c \<longleftrightarrow> 48 \<le> (of_char c :: nat) \<and> (of_char c :: nat) \<le> 57"

lemma is_digit_digit [simp]: "d < 10 \<Longrightarrow> is_digit (digit d)"
  by (simp add: is_digit_def digit_def)

lemma decimal_digits: "list_all is_digit (decimal n)"
proof (induction n rule: less_induct)
  case (less n)
  show ?case
  proof (cases "n < 10")
    case True
    then show ?thesis by (simp add: decimal_def radix.simps [of 10 n])
  next
    case False
    then have "list_all is_digit (decimal (n div 10))" by (intro less) auto
    then show ?thesis using False by (simp add: decimal_def radix.simps [of 10 n])
  qed
qed

text \<open>\<open>u64::from_str\<close>: an optional leading \<open>+\<close>, then at least one decimal digit and nothing
  else; a value of \<open>2 ^ 64\<close> or more is an error.\<close>

definition parse_u64 :: "string \<Rightarrow> u64 option" where
  "parse_u64 s =
     (let ds = (case s of c # t \<Rightarrow> if c = CHR ''+'' then t else s | [] \<Rightarrow> [])
      in if ds = [] \<or> \<not> list_all is_digit ds then None
         else if radix_val 10 ds < 2 ^ 64 then Some (of_nat (radix_val 10 ds)) else None)"

lemma parse_u64_decimal:
  assumes "n < 2 ^ 64"
  shows "parse_u64 (decimal n) = Some (of_nat n)"
proof -
  obtain c t where s: "decimal n = c # t"
    using radix_not_Nil [of 10 n] unfolding decimal_def by (meson list.exhaust)
  have "is_digit c" using decimal_digits [of n] s by simp
  then have "c \<noteq> CHR ''+''" by (auto simp: is_digit_def)
  moreover have "radix_val 10 (decimal n) = n"
    unfolding decimal_def by (rule radix_val_radix) simp_all
  ultimately show ?thesis
    using assms s decimal_digits [of n] by (simp add: parse_u64_def)
qed

section \<open>String operations\<close>

definition strip_prefix :: "string \<Rightarrow> string \<Rightarrow> string option" where
  "strip_prefix p s = (if prefix p s then Some (drop (length p) s) else None)"

lemma strip_prefix_append [simp]: "strip_prefix p (p @ s) = Some s"
  by (simp add: strip_prefix_def)

lemma strip_prefix_Some: "strip_prefix p s = Some t \<longleftrightarrow> s = p @ t"
  by (auto simp: strip_prefix_def prefix_def)

text \<open>\<open>s.splitn(2, c).collect()\<close>: one piece when \<open>c\<close> does not occur, else the two pieces around
  its first occurrence.\<close>

definition splitn2 :: "char \<Rightarrow> string \<Rightarrow> string list" where
  "splitn2 c s =
     (let p = takeWhile (\<lambda>x. x \<noteq> c) s
      in if length p = length s then [s] else [p, drop (Suc (length p)) s])"

lemma splitn2_absent: "c \<notin> set s \<Longrightarrow> splitn2 c s = [s]"
proof -
  assume "c \<notin> set s"
  then have "takeWhile (\<lambda>x. x \<noteq> c) s = s" by (simp add: takeWhile_eq_all_conv) blast
  then show ?thesis unfolding splitn2_def Let_def by (simp only: simp_thms if_True)
qed

lemma splitn2_present: "c \<notin> set p \<Longrightarrow> splitn2 c (p @ c # q) = [p, q]"
proof -
  assume "c \<notin> set p"
  then have "takeWhile (\<lambda>x. x \<noteq> c) (p @ c # q) = p" by (induction p) auto
  then show ?thesis unfolding splitn2_def Let_def by (simp only:) simp
qed

text \<open>\<open>str::contains\<close>.\<close>

abbreviation quoted :: "string \<Rightarrow> string" where
  "quoted s \<equiv> CHR 0x22 # s @ [CHR 0x22]"

fun str_contains :: "string \<Rightarrow> string \<Rightarrow> bool" where
  "str_contains n [] \<longleftrightarrow> n = []"
| "str_contains n (c # cs) \<longleftrightarrow> prefix n (c # cs) \<or> str_contains n cs"

lemma str_contains_sublist: "str_contains n s \<longleftrightarrow> sublist n s"
  by (induction s) (auto simp: sublist_Cons_right)

section \<open>Big-endian bytes\<close>

definition u32_to_be_bytes :: "u32 \<Rightarrow> u8 list" where
  "u32_to_be_bytes w = [ucast (drop_bit 24 w), ucast (drop_bit 16 w), ucast (drop_bit 8 w), ucast w]"

definition u32_from_be_bytes :: "u8 list \<Rightarrow> u32" where
  "u32_from_be_bytes bs = foldl (\<lambda>acc b. push_bit 8 acc + ucast b) 0 bs"

lemma length_u32_to_be_bytes [simp]: "length (u32_to_be_bytes w) = 4"
  by (simp add: u32_to_be_bytes_def)

lemma unat_ucast_drop_bit:
  "unat (ucast (drop_bit k (w :: u32)) :: u8) = unat w div 2 ^ k mod 256"
proof -
  have "unat (drop_bit k w) = unat w div 2 ^ k"
    unfolding unsigned_drop_bit_eq
    by (subst drop_bit_eq_div, subst take_bit_nat_eq_self) (use unsigned_less [of w] in simp_all)
  then show ?thesis by (simp only: unsigned_ucast_eq take_bit_eq_mod) simp
qed

text \<open>The two parts of a number written as a high part and a low one.\<close>

lemma high_low: "(l :: nat) < b \<Longrightarrow> (h * b + l) div b = h" "l < b \<Longrightarrow> (h * b + l) mod b = l"
  by simp_all

lemma base256_digits:
  "(n :: nat) div 16777216 mod 256 * 16777216 + n div 65536 mod 256 * 65536 +
     n div 256 mod 256 * 256 + n mod 256 = n mod 4294967296"
proof -
  have "n mod (256 * (256 * (256 * 256))) =
      256 * (256 * (256 * (n div 256 div 256 div 256 mod 256) + n div 256 div 256 mod 256) +
        n div 256 mod 256) + n mod 256"
    by (simp only: mod_mult2_eq)
  then show ?thesis by (simp add: div_mult2_eq [symmetric] algebra_simps)
qed

lemma u32_from_to_be_bytes [simp]: "u32_from_be_bytes (u32_to_be_bytes w) = w"
proof -
  let ?n = "unat w"
  have u: "(ucast (ucast (drop_bit k w) :: u8) :: u32) = of_nat (?n div 2 ^ k mod 256)" for k
    by (metis unat_ucast_drop_bit ucast_eq of_nat_unat)
  have u0: "(ucast (ucast w :: u8) :: u32) = of_nat (?n mod 256)"
    using u [of 0] by simp
  have "u32_from_be_bytes (u32_to_be_bytes w) =
      of_nat (?n div 16777216 mod 256 * 16777216 + ?n div 65536 mod 256 * 65536 +
        ?n div 256 mod 256 * 256 + ?n mod 256)"
    by (simp add: u32_from_be_bytes_def u32_to_be_bytes_def u u0 push_bit_eq_mult algebra_simps)
  also have "\<dots> = of_nat (?n mod 4294967296)" by (simp only: base256_digits)
  also have "\<dots> = w"
  proof -
    have "?n < 4294967296" using unsigned_less [of w] by simp
    then show ?thesis by simp
  qed
  finally show ?thesis .
qed

section \<open>Widening and narrowing\<close>

lemma ucast_ucast_u32 [simp]: "(ucast (ucast (n :: u32) :: u64) :: u32) = n"
  by (rule bit_word_eqI) (simp add: bit_ucast_iff)

lemma map_option_ucast_u32 [simp]:
  "map_option ucast (map_option ucast (x :: u32 option) :: u64 option) = x"
  by (cases x) simp_all

lemma ucast_scast_i32 [simp]: "(ucast (scast (n :: i32) :: i64) :: i32) = n"
  by (rule bit_word_eqI) (auto simp add: bit_ucast_iff bit_signed_iff bit_simps)

lemma scast_i32_nonneg: "0 \<le> sint (n :: i32) \<Longrightarrow> unat (scast n :: u64) < 2 ^ 63"
proof -
  assume n: "0 \<le> sint n"
  have l: "sint n < 2 ^ 31" using sint_lt [of n] by simp
  have "uint (scast n :: u64) = sint n"
    unfolding scast_eq unsigned_of_int using n l by (simp add: take_bit_int_eq_self)
  then show ?thesis using n l by (simp add: unat_eq_nat_uint)
qed

section \<open>Lists and options\<close>

text \<open>\<open>iter().filter_map(f)\<close> over elements each of which \<open>f\<close> maps back.\<close>

lemma map_filter_map_Some:
  "(\<And>x. x \<in> set xs \<Longrightarrow> f (g x) = Some x) \<Longrightarrow> List.map_filter f (map g xs) = xs"
  by (induction xs) simp_all

lemma set_map_filter: "set (List.map_filter f xs) = {y. \<exists>x \<in> set xs. f x = Some y}"
  by (induction xs) (auto split: option.splits)

end
