(* ===== verification/Floats.thy ===== *)
theory Floats
  imports Prelude
begin

text \<open>
  Rust's \<open>f32\<close> and \<open>f64\<close> as IEEE-754 bit patterns, with the operations the crate uses: the tests
  for zero and order, the casts \<open>as f32\<close> and \<open>f64::from\<close>, the conversion of an integer, and
  \<open>clamp\<close>. A magnitude is the pattern without its sign bit; magnitudes of one width are ordered
  like the numbers they stand for. Rounding is to nearest, ties to even, as the language fixes it.
  The payload of a NaN after a cast is not fixed by the language: the model picks the quiet NaN.
\<close>

type_synonym f64 = "64 word"
type_synonym f32 = "32 word"

section \<open>Fields of a pattern\<close>

definition f64_mag :: "f64 \<Rightarrow> nat" where "f64_mag x = unat x mod 2 ^ 63"

definition f64_neg :: "f64 \<Rightarrow> bool" where "f64_neg x \<longleftrightarrow> 2 ^ 63 \<le> unat x"

definition f32_mag :: "f32 \<Rightarrow> nat" where "f32_mag x = unat x mod 2 ^ 31"

definition f32_neg :: "f32 \<Rightarrow> bool" where "f32_neg x \<longleftrightarrow> 2 ^ 31 \<le> unat x"

definition f64_make :: "bool \<Rightarrow> nat \<Rightarrow> f64" where
  "f64_make s m = of_nat ((if s then 2 ^ 63 else 0) + m)"

definition f32_make :: "bool \<Rightarrow> nat \<Rightarrow> f32" where
  "f32_make s m = of_nat ((if s then 2 ^ 31 else 0) + m)"

text \<open>The magnitude of infinity; larger ones are NaNs.\<close>

abbreviation F64_INF :: nat where "F64_INF \<equiv> 2047 * 2 ^ 52"
abbreviation F32_INF :: nat where "F32_INF \<equiv> 255 * 2 ^ 23"

definition f64_is_finite :: "f64 \<Rightarrow> bool" where "f64_is_finite x \<longleftrightarrow> f64_mag x < F64_INF"
definition f64_is_nan :: "f64 \<Rightarrow> bool" where "f64_is_nan x \<longleftrightarrow> F64_INF < f64_mag x"
definition f32_is_finite :: "f32 \<Rightarrow> bool" where "f32_is_finite x \<longleftrightarrow> f32_mag x < F32_INF"
definition f32_is_nan :: "f32 \<Rightarrow> bool" where "f32_is_nan x \<longleftrightarrow> F32_INF < f32_mag x"

definition F64_ZERO :: f64 where "F64_ZERO = 0"
definition F64_ONE :: f64 where "F64_ONE = 0x3FF0000000000000"
definition F32_ZERO :: f32 where "F32_ZERO = 0"
definition F32_ONE :: f32 where "F32_ONE = 0x3F800000"

lemma f32_mag_less: "f32_mag x < 2 ^ 31"
  by (simp add: f32_mag_def)

lemma f64_mag_less: "f64_mag x < 2 ^ 63"
  by (simp add: f64_mag_def)

lemma f32_make_sign_mag [simp]: "f32_make (f32_neg x) (f32_mag x) = x"
proof -
  have "unat x < 2 ^ 32" using unsigned_less [of x] by simp
  then have "(if f32_neg x then 2 ^ 31 else 0) + f32_mag x = unat x"
    unfolding f32_neg_def f32_mag_def by (cases "unat x < 2 ^ 31") (auto simp: mod_if)
  then show ?thesis unfolding f32_make_def by simp
qed

lemma unat_f32_make: "m < 2 ^ 31 \<Longrightarrow> unat (f32_make s m) = (if s then 2 ^ 31 else 0) + m"
  unfolding f32_make_def unsigned_of_nat by (subst take_bit_nat_eq_self) simp_all

lemma unat_f64_make: "m < 2 ^ 63 \<Longrightarrow> unat (f64_make s m) = (if s then 2 ^ 63 else 0) + m"
  unfolding f64_make_def unsigned_of_nat by (subst take_bit_nat_eq_self) simp_all

lemma f32_mag_make: "m < 2 ^ 31 \<Longrightarrow> f32_mag (f32_make s m) = m"
  by (simp add: f32_mag_def unat_f32_make)

lemma f32_neg_make: "m < 2 ^ 31 \<Longrightarrow> f32_neg (f32_make s m) = s"
  by (simp add: f32_neg_def unat_f32_make)

lemma f64_mag_make: "m < 2 ^ 63 \<Longrightarrow> f64_mag (f64_make s m) = m"
  by (simp add: f64_mag_def unat_f64_make)

lemma f64_neg_make: "m < 2 ^ 63 \<Longrightarrow> f64_neg (f64_make s m) = s"
  by (simp add: f64_neg_def unat_f64_make)

section \<open>Order\<close>

definition f64_gt_zero :: "f64 \<Rightarrow> bool" where
  "f64_gt_zero x \<longleftrightarrow> \<not> f64_neg x \<and> 0 < f64_mag x \<and> f64_mag x \<le> F64_INF"

definition f32_key :: "f32 \<Rightarrow> int" where
  "f32_key x = (if f32_neg x then - int (f32_mag x) else int (f32_mag x))"

definition f32_lt :: "f32 \<Rightarrow> f32 \<Rightarrow> bool" where
  "f32_lt x y \<longleftrightarrow> \<not> f32_is_nan x \<and> \<not> f32_is_nan y \<and> f32_key x < f32_key y"

text \<open>\<open>f32::clamp\<close>; a NaN is returned as it is.\<close>

definition f32_clamp :: "f32 \<Rightarrow> f32 \<Rightarrow> f32 \<Rightarrow> f32" where
  "f32_clamp x lo hi =
     (let y = (if f32_lt x lo then lo else x) in if f32_lt hi y then hi else y)"

lemma f32_keys [simp]: "f32_key F32_ZERO = 0" "f32_key F32_ONE = 1065353216"
  "\<not> f32_is_nan F32_ZERO" "\<not> f32_is_nan F32_ONE"
  by (simp_all add: f32_key_def f32_mag_def f32_neg_def f32_is_nan_def F32_ZERO_def F32_ONE_def)

lemma f32_clamp_unit:
  assumes "\<not> f32_is_nan x"
  shows "0 \<le> f32_key (f32_clamp x F32_ZERO F32_ONE)"
    and "f32_key (f32_clamp x F32_ZERO F32_ONE) \<le> f32_key F32_ONE"
    and "\<not> f32_is_nan (f32_clamp x F32_ZERO F32_ONE)"
  using assms by (auto simp: f32_clamp_def f32_lt_def Let_def)

lemma f32_clamp_inside:
  "\<not> f32_lt x lo \<Longrightarrow> \<not> f32_lt hi x \<Longrightarrow> f32_clamp x lo hi = x"
  by (simp add: f32_clamp_def)

section \<open>Rounding and casts\<close>

text \<open>\<open>m / 2 ^ s\<close> rounded to the nearest integer, a tie to the even one.\<close>

definition rne :: "nat \<Rightarrow> nat \<Rightarrow> nat" where
  "rne m s =
     (let q = m div 2 ^ s; r = m mod 2 ^ s
      in if 2 ^ s < 2 * r \<or> (2 ^ s = 2 * r \<and> odd q) then Suc q else q)"

lemma rne_exact [simp]: "rne (q * 2 ^ s) s = q"
  by (simp add: rne_def)

lemma rne_exact' [simp]: "rne (2 ^ s * q) s = q"
  by (simp add: rne_def)

text \<open>The position of the leading one bit.\<close>

fun msb_pos :: "nat \<Rightarrow> nat" where
  "msb_pos n = (if n < 2 then 0 else Suc (msb_pos (n div 2)))"

declare msb_pos.simps [simp del]

lemma msb_pos_bounds: "0 < n \<Longrightarrow> 2 ^ msb_pos n \<le> n \<and> n < 2 ^ Suc (msb_pos n)"
proof (induction n rule: less_induct)
  case (less n)
  show ?case
  proof (cases "n < 2")
    case True
    with less.prems show ?thesis by (simp add: msb_pos.simps [of n])
  next
    case False
    then have "2 ^ msb_pos (n div 2) \<le> n div 2 \<and> n div 2 < 2 ^ Suc (msb_pos (n div 2))"
      by (intro less.IH) auto
    with False show ?thesis by (simp add: msb_pos.simps [of n]) linarith
  qed
qed

lemma msb_pos_less: "0 < n \<Longrightarrow> n < 2 ^ k \<Longrightarrow> msb_pos n < k"
  by (metis le_less_trans msb_pos_bounds one_less_numeral_iff power_less_imp_less_exp
      semiring_norm(76))

text \<open>
  \<open>x as f32\<close>. A 64-bit magnitude with exponent field \<open>e\<close> and significand \<open>m\<close> is
  \<open>m * 2 ^ (e - 1075)\<close>. Its 24-bit rounding drops 29 bits of the significand, and more when the
  result is subnormal; a carry out of the significand steps the exponent, and past the largest
  finite value the result is infinite.
\<close>

definition mag_64_to_32 :: "nat \<Rightarrow> nat" where
  "mag_64_to_32 g =
     (let e = g div 2 ^ 52; f = g mod 2 ^ 52;
          m = (if e = 0 then f else 2 ^ 52 + f);
          e1 = max e 1
      in if 897 \<le> e1 then min F32_INF ((e1 - 897) * 2 ^ 23 + rne m 29)
         else rne m (29 + (897 - e1)))"

definition f64_to_f32 :: "f64 \<Rightarrow> f32" where
  "f64_to_f32 x = f32_make (f64_neg x)
     (if f64_is_nan x then F32_INF + 2 ^ 22 else mag_64_to_32 (f64_mag x))"

text \<open>\<open>f64::from\<close> an \<open>f32\<close>: exact; a subnormal is normalised.\<close>

definition mag_32_to_64 :: "nat \<Rightarrow> nat" where
  "mag_32_to_64 g =
     (let e = g div 2 ^ 23; f = g mod 2 ^ 23
      in if e = 255 then 2047 * 2 ^ 52 + f * 2 ^ 29
         else if e = 0 then
           (if f = 0 then 0
            else let k = msb_pos f in (k + 874) * 2 ^ 52 + (f - 2 ^ k) * 2 ^ (52 - k))
         else (e + 896) * 2 ^ 52 + f * 2 ^ 29)"

definition f32_to_f64 :: "f32 \<Rightarrow> f64" where
  "f32_to_f64 x = f64_make (f32_neg x)
     (if f32_is_nan x then F64_INF + 2 ^ 51 else mag_32_to_64 (f32_mag x))"

text \<open>\<open>n as f64\<close> for a natural number below \<open>2 ^ 64\<close>.\<close>

definition nat_to_f64_mag :: "nat \<Rightarrow> nat" where
  "nat_to_f64_mag n =
     (if n = 0 then 0
      else let k = msb_pos n
           in if k \<le> 52 then (k + 1023) * 2 ^ 52 + (n - 2 ^ k) * 2 ^ (52 - k)
              else (k + 1022) * 2 ^ 52 + rne n (k - 52))"

definition u64_to_f64 :: "u64 \<Rightarrow> f64" where
  "u64_to_f64 n = f64_make False (nat_to_f64_mag (unat n))"

definition i64_to_f64 :: "i64 \<Rightarrow> f64" where
  "i64_to_f64 n = f64_make (sint n < 0) (nat_to_f64_mag (nat \<bar>sint n\<bar>))"

section \<open>A cast to \<open>f64\<close> and back is the identity\<close>

lemma mag_64_to_32_inv:
  assumes "g < F32_INF"
  shows "mag_64_to_32 (mag_32_to_64 g) = g" and "mag_32_to_64 g < F64_INF"
proof -
  define e f where "e = g div 2 ^ 23" and "f = g mod 2 ^ 23"
  have g: "g = e * 2 ^ 23 + f" and f: "f < 2 ^ 23"
    by (simp_all add: e_def f_def)
  have e: "e < 255" using assms g by simp
  have "mag_64_to_32 (mag_32_to_64 g) = g \<and> mag_32_to_64 g < F64_INF"
  proof (cases "e = 0")
    case False
    let ?G = "(e + 896) * 2 ^ 52 + f * 2 ^ 29"
    have G: "mag_32_to_64 g = ?G"
      unfolding mag_32_to_64_def Let_def e_def [symmetric] f_def [symmetric] using False e by simp
    have fl: "f * 2 ^ 29 < 2 ^ 52" using f by simp
    have d: "?G div 2 ^ 52 = e + 896" and m: "?G mod 2 ^ 52 = f * 2 ^ 29"
      using fl by (simp_all only: high_low)
    have "2 ^ 52 + f * 2 ^ 29 = (2 ^ 23 + f) * 2 ^ 29" by simp
    then have r: "rne (2 ^ 52 + f * 2 ^ 29) 29 = 2 ^ 23 + f" by (metis rne_exact)
    have "mag_64_to_32 ?G = min F32_INF ((e - 1) * 2 ^ 23 + (2 ^ 23 + f))"
      unfolding mag_64_to_32_def Let_def d m using False r by simp
    moreover have "(e - 1) * 2 ^ 23 + (2 ^ 23 + f) = g"
      using False g by (cases e) simp_all
    ultimately show ?thesis using assms G e fl by simp
  next
    case True
    show ?thesis
    proof (cases "f = 0")
      case True
      with \<open>e = 0\<close> g show ?thesis by (simp add: mag_32_to_64_def mag_64_to_32_def rne_def)
    next
      case False
      define k where "k = msb_pos f"
      have k: "2 ^ k \<le> f" "f < 2 * 2 ^ k" and k23: "k < 23"
        using msb_pos_bounds [of f] msb_pos_less [of f 23] False f by (auto simp: k_def)
      let ?h = "(f - 2 ^ k) * 2 ^ (52 - k)"
      let ?G = "(k + 874) * 2 ^ 52 + ?h"
      have G: "mag_32_to_64 g = ?G"
        unfolding mag_32_to_64_def Let_def e_def [symmetric] f_def [symmetric] k_def [symmetric]
        using False \<open>e = 0\<close> by simp
      have p: "2 ^ k * 2 ^ (52 - k) = (2 ^ 52 :: nat)"
        using k23 by (simp flip: power_add)
      have "f - 2 ^ k < 2 ^ k" using k by simp
      then have hl: "?h < 2 ^ 52" unfolding p [symmetric] by (rule mult_strict_right_mono) simp
      have d: "?G div 2 ^ 52 = k + 874" and m: "?G mod 2 ^ 52 = ?h"
        using hl by (simp_all only: high_low)
      have "2 ^ 52 + ?h = f * 2 ^ (52 - k)"
        unfolding p [symmetric] using k(1) by (metis add_mult_distrib le_add_diff_inverse)
      moreover have "29 + (897 - max (k + 874) 1) = 52 - k" using k23 by simp
      ultimately have "mag_64_to_32 ?G = f"
        unfolding mag_64_to_32_def Let_def d m using k23 by simp
      moreover have "?G < F64_INF" using hl k23 by simp
      ultimately show ?thesis using G g \<open>e = 0\<close> by simp
    qed
  qed
  then show "mag_64_to_32 (mag_32_to_64 g) = g" and "mag_32_to_64 g < F64_INF" by simp_all
qed

lemma f32_to_f64_finite: "f32_is_finite x \<Longrightarrow> f64_is_finite (f32_to_f64 x)"
  using mag_64_to_32_inv(2) [of "f32_mag x"]
  by (simp add: f32_is_finite_def f64_is_finite_def f32_to_f64_def f32_is_nan_def f64_mag_make)

lemma f64_to_f32_to_f64: "f32_is_finite x \<Longrightarrow> f64_to_f32 (f32_to_f64 x) = x"
  using mag_64_to_32_inv [of "f32_mag x"]
  by (simp add: f32_is_finite_def f64_to_f32_def f64_is_nan_def f32_to_f64_def f32_is_nan_def
      f64_mag_make f64_neg_make)

end
