(* ===== verification/Json.thy ===== *)
theory Json
  imports Floats "HOL-Library.Finite_Map"
begin

text \<open>
  The JSON values the crate builds and inspects. \<open>json\<close> is the public enum
  \<open>serde_json::Value\<close>, whose variants the source names itself (\<open>send_raw\<close> matches on
  \<open>Value::Object\<close>); its map is keyed by strings, so two objects with the same entries are equal.
  A number is an unsigned integer, a negative one or a finite float, as the accessors
  \<open>as_u64\<close>, \<open>as_i64\<close> and \<open>as_f64\<close> tell them apart. Only the value is modelled here: the text
  syntax (\<open>to_string\<close>, \<open>from_str\<close>) is a parameter of the definitions that use it.
\<close>

datatype number = PosInt u64 | NegInt i64 | Float f64

datatype json =
    Null
  | Bool bool
  | Number number
  | String string
  | Array "json list"
  | Object "(string, json) fmap"

section \<open>Reading a value\<close>

definition jget :: "string \<Rightarrow> json \<Rightarrow> json option" where
  "jget k v = (case v of Object m \<Rightarrow> fmlookup m k | _ \<Rightarrow> None)"

definition as_str :: "json \<Rightarrow> string option" where
  "as_str v = (case v of String s \<Rightarrow> Some s | _ \<Rightarrow> None)"

definition as_bool :: "json \<Rightarrow> bool option" where
  "as_bool v = (case v of Bool b \<Rightarrow> Some b | _ \<Rightarrow> None)"

definition as_array :: "json \<Rightarrow> json list option" where
  "as_array v = (case v of Array vs \<Rightarrow> Some vs | _ \<Rightarrow> None)"

definition as_u64 :: "json \<Rightarrow> u64 option" where
  "as_u64 v = (case v of Number (PosInt n) \<Rightarrow> Some n | _ \<Rightarrow> None)"

definition as_i64 :: "json \<Rightarrow> i64 option" where
  "as_i64 v = (case v of
     Number (PosInt n) \<Rightarrow> if unat n < 2 ^ 63 then Some n else None
   | Number (NegInt n) \<Rightarrow> Some n
   | _ \<Rightarrow> None)"

definition as_f64 :: "json \<Rightarrow> f64 option" where
  "as_f64 v = (case v of
     Number (PosInt n) \<Rightarrow> Some (u64_to_f64 n)
   | Number (NegInt n) \<Rightarrow> Some (i64_to_f64 n)
   | Number (Float d) \<Rightarrow> Some d
   | _ \<Rightarrow> None)"

text \<open>The chains \<open>v.get(k).and_then(|x| x.as_...())\<close> the source is full of.\<close>

abbreviation get_str :: "string \<Rightarrow> json \<Rightarrow> string option" where
  "get_str k v \<equiv> Option.bind (jget k v) as_str"

abbreviation get_u64 :: "string \<Rightarrow> json \<Rightarrow> u64 option" where
  "get_u64 k v \<equiv> Option.bind (jget k v) as_u64"

abbreviation get_i64 :: "string \<Rightarrow> json \<Rightarrow> i64 option" where
  "get_i64 k v \<equiv> Option.bind (jget k v) as_i64"

abbreviation get_f64 :: "string \<Rightarrow> json \<Rightarrow> f64 option" where
  "get_f64 k v \<equiv> Option.bind (jget k v) as_f64"

abbreviation get_bool :: "string \<Rightarrow> json \<Rightarrow> bool option" where
  "get_bool k v \<equiv> Option.bind (jget k v) as_bool"

abbreviation get_array :: "string \<Rightarrow> json \<Rightarrow> json list option" where
  "get_array k v \<equiv> Option.bind (jget k v) as_array"

section \<open>Building a value\<close>

text \<open>\<open>map.insert(k, v)\<close>, and \<open>v[k] = x\<close> on a value that is an object.\<close>

definition jput :: "string \<Rightarrow> json \<Rightarrow> json \<Rightarrow> json" where
  "jput k x v = (case v of Object m \<Rightarrow> Object (fmupd k x m) | _ \<Rightarrow> v)"

text \<open>\<open>json!({k1: v1, ...})\<close>: the entries inserted in order.\<close>

fun jobj_from :: "json \<Rightarrow> (string \<times> json) list \<Rightarrow> json" where
  "jobj_from v [] = v"
| "jobj_from v ((k, x) # kvs) = jobj_from (jput k x v) kvs"

definition jempty :: json where "jempty = Object fmempty"

definition jobj :: "(string \<times> json) list \<Rightarrow> json" where
  "jobj kvs = jobj_from jempty kvs"

definition of_u32 :: "u32 \<Rightarrow> json" where "of_u32 n = Number (PosInt (ucast n))"

definition of_i32 :: "i32 \<Rightarrow> json" where
  "of_i32 n = Number (if sint n < 0 then NegInt (scast n) else PosInt (scast n))"

text \<open>A float that is not finite becomes \<open>null\<close>.\<close>

definition of_f64 :: "f64 \<Rightarrow> json" where
  "of_f64 d = (if f64_is_finite d then Number (Float d) else Null)"

definition of_f32 :: "f32 \<Rightarrow> json" where
  "of_f32 x = (if f32_is_finite x then Number (Float (f32_to_f64 x)) else Null)"

section \<open>What is read back\<close>

definition is_obj :: "json \<Rightarrow> bool" where
  "is_obj v \<longleftrightarrow> (case v of Object _ \<Rightarrow> True | _ \<Rightarrow> False)"

lemma is_obj_simps [simp]:
  "is_obj jempty" "is_obj (Object m)" "is_obj v \<Longrightarrow> is_obj (jput k x v)"
  by (simp_all add: is_obj_def jempty_def jput_def split: json.splits)

lemma is_obj_jobj_from [simp]: "is_obj v \<Longrightarrow> is_obj (jobj_from v kvs)"
  by (induction v kvs rule: jobj_from.induct) auto

lemma is_obj_jobj [simp]: "is_obj (jobj kvs)"
  by (simp add: jobj_def)

lemma jget_jempty [simp]: "jget k jempty = None"
  by (simp add: jget_def jempty_def)

lemma jget_jput [simp]:
  "is_obj v \<Longrightarrow> jget k' (jput k x v) = (if k = k' then Some x else jget k' v)"
  by (simp add: jput_def jget_def is_obj_def split: json.splits)

lemma jget_jobj_from:
  "is_obj v \<Longrightarrow> jget k (jobj_from v kvs) =
     (case map_of (rev kvs) k of Some x \<Rightarrow> Some x | None \<Rightarrow> jget k v)"
  by (induction v kvs rule: jobj_from.induct)
    (auto simp: map_add_def split: option.splits)

lemma jget_jobj [simp]: "jget k (jobj kvs) = map_of (rev kvs) k"
  by (simp add: jobj_def jget_jobj_from split: option.splits)

lemma as_simps [simp]:
  "as_str (String s) = Some s" "as_bool (Bool b) = Some b" "as_array (Array vs) = Some vs"
  "as_u64 (of_u32 n) = Some (ucast n)"
  "as_str (Object m) = None" "as_array (Object m) = None" "as_array (String s) = None"
  "as_str (Array vs) = None" "as_str (of_u32 n) = None"
  by (simp_all add: as_str_def as_bool_def as_array_def as_u64_def of_u32_def)

lemma as_f64_of_f64 [simp]: "f64_is_finite d \<Longrightarrow> as_f64 (of_f64 d) = Some d"
  by (simp add: as_f64_def of_f64_def)

lemma as_f64_of_f64_infinite [simp]: "\<not> f64_is_finite d \<Longrightarrow> as_f64 (of_f64 d) = None"
  by (simp add: as_f64_def of_f64_def)

lemma as_f64_of_f32 [simp]: "f32_is_finite x \<Longrightarrow> as_f64 (of_f32 x) = Some (f32_to_f64 x)"
  by (simp add: as_f64_def of_f32_def)

lemma as_i64_of_i32 [simp]: "as_i64 (of_i32 n) = Some (scast n)"
  using scast_i32_nonneg [of n] by (simp add: as_i64_def of_i32_def)

end
