(* ===== verification/Ns.thy ===== *)
theory Ns
  imports Prelude
begin

text \<open>
  \<open>channel/ns.rs\<close>: the namespaces, endpoint identifiers, message types, application identifiers
  and metadata type numbers of the Cast protocol, under the source's names.
\<close>

definition NS_CONNECTION :: string where "NS_CONNECTION = ''urn:x-cast:com.google.cast.tp.connection''"
definition NS_HEARTBEAT :: string where "NS_HEARTBEAT = ''urn:x-cast:com.google.cast.tp.heartbeat''"
definition NS_RECEIVER :: string where "NS_RECEIVER = ''urn:x-cast:com.google.cast.receiver''"
definition NS_MEDIA :: string where "NS_MEDIA = ''urn:x-cast:com.google.cast.media''"
definition NS_DEVICE_AUTH :: string where "NS_DEVICE_AUTH = ''urn:x-cast:com.google.cast.tp.deviceauth''"

definition SENDER_ID :: string where "SENDER_ID = ''sender-0''"
definition RECEIVER_ID :: string where "RECEIVER_ID = ''receiver-0''"

definition MSG_CONNECT :: string where "MSG_CONNECT = ''CONNECT''"
definition MSG_CLOSE :: string where "MSG_CLOSE = ''CLOSE''"
definition MSG_PING :: string where "MSG_PING = ''PING''"
definition MSG_PONG :: string where "MSG_PONG = ''PONG''"
definition MSG_LAUNCH :: string where "MSG_LAUNCH = ''LAUNCH''"
definition MSG_STOP :: string where "MSG_STOP = ''STOP''"
definition MSG_GET_STATUS :: string where "MSG_GET_STATUS = ''GET_STATUS''"
definition MSG_SET_VOLUME :: string where "MSG_SET_VOLUME = ''SET_VOLUME''"
definition MSG_RECEIVER_STATUS :: string where "MSG_RECEIVER_STATUS = ''RECEIVER_STATUS''"
definition MSG_LOAD :: string where "MSG_LOAD = ''LOAD''"
definition MSG_PLAY :: string where "MSG_PLAY = ''PLAY''"
definition MSG_PAUSE :: string where "MSG_PAUSE = ''PAUSE''"
definition MSG_SEEK :: string where "MSG_SEEK = ''SEEK''"
definition MSG_MEDIA_STOP :: string where "MSG_MEDIA_STOP = ''STOP''"
definition MSG_MEDIA_STATUS :: string where "MSG_MEDIA_STATUS = ''MEDIA_STATUS''"
definition MSG_LOAD_FAILED :: string where "MSG_LOAD_FAILED = ''LOAD_FAILED''"
definition MSG_LOAD_CANCELLED :: string where "MSG_LOAD_CANCELLED = ''LOAD_CANCELLED''"
definition MSG_INVALID_REQUEST :: string where "MSG_INVALID_REQUEST = ''INVALID_REQUEST''"
definition MSG_QUEUE_LOAD :: string where "MSG_QUEUE_LOAD = ''QUEUE_LOAD''"
definition MSG_QUEUE_INSERT :: string where "MSG_QUEUE_INSERT = ''QUEUE_INSERT''"

definition APP_DEFAULT_MEDIA_RECEIVER :: string where "APP_DEFAULT_MEDIA_RECEIVER = ''CC1AD845''"
definition APP_BACKDROP :: string where "APP_BACKDROP = ''E8C28D3C''"
definition APP_YOUTUBE :: string where "APP_YOUTUBE = ''233637DE''"

definition METADATA_GENERIC :: u64 where "METADATA_GENERIC = 0"
definition METADATA_MOVIE :: u64 where "METADATA_MOVIE = 1"
definition METADATA_TV_SHOW :: u64 where "METADATA_TV_SHOW = 2"
definition METADATA_MUSIC_TRACK :: u64 where "METADATA_MUSIC_TRACK = 3"
definition METADATA_PHOTO :: u64 where "METADATA_PHOTO = 4"
definition METADATA_AUDIOBOOK_CHAPTER :: u64 where "METADATA_AUDIOBOOK_CHAPTER = 5"

definition USER_AGENT :: string where "USER_AGENT = ''oxicast''"

section \<open>The constants are told apart\<close>

lemmas namespace_defs = NS_CONNECTION_def NS_HEARTBEAT_def NS_RECEIVER_def NS_MEDIA_def

lemma namespaces_distinct [simp, ns_simps]:
  "NS_CONNECTION \<noteq> NS_HEARTBEAT" "NS_HEARTBEAT \<noteq> NS_CONNECTION"
  "NS_RECEIVER \<noteq> NS_HEARTBEAT" "NS_HEARTBEAT \<noteq> NS_RECEIVER"
  "NS_RECEIVER \<noteq> NS_CONNECTION" "NS_CONNECTION \<noteq> NS_RECEIVER"
  "NS_MEDIA \<noteq> NS_HEARTBEAT" "NS_HEARTBEAT \<noteq> NS_MEDIA"
  "NS_MEDIA \<noteq> NS_CONNECTION" "NS_CONNECTION \<noteq> NS_MEDIA"
  "NS_MEDIA \<noteq> NS_RECEIVER" "NS_RECEIVER \<noteq> NS_MEDIA"
  by (simp_all add: namespace_defs)

lemma ids_distinct [simp, ns_simps]: "SENDER_ID \<noteq> RECEIVER_ID" "RECEIVER_ID \<noteq> SENDER_ID"
  by (simp_all add: SENDER_ID_def RECEIVER_ID_def)

lemmas media_type_defs [ns_simps] = MSG_MEDIA_STATUS_def MSG_LOAD_FAILED_def
  MSG_LOAD_CANCELLED_def MSG_INVALID_REQUEST_def

lemmas metadata_type_defs [ns_simps] = METADATA_GENERIC_def METADATA_MOVIE_def METADATA_TV_SHOW_def
  METADATA_MUSIC_TRACK_def METADATA_PHOTO_def METADATA_AUDIOBOOK_CHAPTER_def

end
