(* ===== verification/Types.thy ===== *)
theory Types
  imports Floats Ns
begin

text \<open>
  \<open>types.rs\<close>: the data the client exchanges with its user. A field whose name another struct uses
  too carries a short prefix (\<open>vol_level\<close> is \<open>Volume::level\<close>), and a variant whose name HOL has
  already is spelt out (\<open>StreamNone\<close> is \<open>StreamType::None\<close>).
\<close>

section \<open>Data\<close>

datatype ip_addr = V4 u32 | V6 "128 word"

record device_info =
  dev_name :: string
  dev_ip :: ip_addr
  dev_port :: u16
  dev_model :: "string option"
  dev_uuid :: "string option"

record volume =
  vol_level :: f32
  vol_muted :: bool

datatype stream_type = StreamNone | Buffered | Live

datatype player_state = Idle | Playing | Paused | Buffering

datatype idle_reason = Cancelled | Interrupted | Finished | IdleError

record image =
  img_url :: string
  img_width :: "u32 option"
  img_height :: "u32 option"

text \<open>The fields of each variant of \<open>MediaMetadata\<close>, in the source's order.\<close>

datatype media_metadata =
    Generic "string option" "string option" "image list"
      \<comment> \<open>title, subtitle, images\<close>
  | Movie "string option" "string option" "string option" "image list"
      \<comment> \<open>title, subtitle, studio, images\<close>
  | TvShow "string option" "string option" "u32 option" "u32 option" "image list"
      \<comment> \<open>series title, episode title, season, episode, images\<close>
  | MusicTrack "string option" "string option" "string option" "string option" "u32 option"
      "u32 option" "image list"
      \<comment> \<open>title, artist, album name, composer, track number, disc number, images\<close>
  | Photo "string option" "string option" "string option" "f64 option" "f64 option" "u32 option"
      "u32 option" "image list"
      \<comment> \<open>title, artist, location, latitude, longitude, width, height, images\<close>
  | AudiobookChapter "string option" "string option" "u32 option" "string option" "image list"
      \<comment> \<open>book title, chapter title, chapter number, subtitle, images\<close>

record media_info =
  content_id :: string
  content_type :: string
  stream_type :: stream_type
  mi_duration :: "f64 option"
  mi_metadata :: "media_metadata option"

record media_status =
  media_session_id :: i32
  player_state :: player_state
  idle_reason :: "idle_reason option"
  current_time :: f64
  ms_duration :: "f64 option"
  ms_volume :: volume
  ms_media :: "media_info option"

record application =
  app_id :: string
  display_name :: string
  app_session_id :: string
  app_transport_id :: string
  app_namespaces :: "string list"
  status_text :: string

record receiver_status =
  rs_volume :: volume
  rs_applications :: "application list"
  is_active_input :: bool
  is_stand_by :: bool

datatype cast_app = DefaultMediaReceiver | Backdrop | YouTube | Custom string

datatype repeat_mode = RepeatOff | RepeatAll | RepeatSingle | RepeatAllAndShuffle

record queue_item =
  qi_media :: media_info
  qi_autoplay :: bool
  qi_start_time :: f64

section \<open>Operations\<close>

definition cast_app_id :: "cast_app \<Rightarrow> string" where
  "cast_app_id a = (case a of
     DefaultMediaReceiver \<Rightarrow> APP_DEFAULT_MEDIA_RECEIVER
   | Backdrop \<Rightarrow> APP_BACKDROP
   | YouTube \<Rightarrow> APP_YOUTUBE
   | Custom i \<Rightarrow> i)"

definition media_info_new :: "string \<Rightarrow> string \<Rightarrow> media_info" where
  "media_info_new cid ct =
     \<lparr>content_id = cid, content_type = ct, stream_type = Buffered, mi_duration = None,
      mi_metadata = None\<rparr>"

definition media_info_stream_type :: "media_info \<Rightarrow> stream_type \<Rightarrow> media_info" where
  "media_info_stream_type m st = m\<lparr>stream_type := st\<rparr>"

definition media_info_duration :: "media_info \<Rightarrow> f64 \<Rightarrow> media_info" where
  "media_info_duration m d = m\<lparr>mi_duration := Some d\<rparr>"

definition media_info_maybe_duration :: "media_info \<Rightarrow> f64 option \<Rightarrow> media_info" where
  "media_info_maybe_duration m d = (case d of Some x \<Rightarrow> media_info_duration m x | None \<Rightarrow> m)"

definition media_info_metadata :: "media_info \<Rightarrow> media_metadata \<Rightarrow> media_info" where
  "media_info_metadata m md = m\<lparr>mi_metadata := Some md\<rparr>"

definition media_info_maybe_metadata :: "media_info \<Rightarrow> media_metadata option \<Rightarrow> media_info" where
  "media_info_maybe_metadata m md =
     (case md of Some x \<Rightarrow> media_info_metadata m x | None \<Rightarrow> m)"

definition media_info_movie :: "string \<Rightarrow> string \<Rightarrow> string \<Rightarrow> media_info" where
  "media_info_movie cid ct title =
     \<lparr>content_id = cid, content_type = ct, stream_type = Buffered, mi_duration = None,
      mi_metadata = Some (Movie (Some title) None None [])\<rparr>"

definition media_info_live :: "string \<Rightarrow> string \<Rightarrow> media_info" where
  "media_info_live cid ct =
     \<lparr>content_id = cid, content_type = ct, stream_type = Live, mi_duration = None,
      mi_metadata = None\<rparr>"

definition volume_new :: "f32 \<Rightarrow> volume" where
  "volume_new l = \<lparr>vol_level = f32_clamp l F32_ZERO F32_ONE, vol_muted = False\<rparr>"

definition volume_muted :: volume where
  "volume_muted = \<lparr>vol_level = F32_ZERO, vol_muted = True\<rparr>"

subsection \<open>\<open>Display\<close>\<close>

fun player_state_display :: "player_state \<Rightarrow> string" where
  "player_state_display Idle = ''idle''"
| "player_state_display Playing = ''playing''"
| "player_state_display Paused = ''paused''"
| "player_state_display Buffering = ''buffering''"

fun idle_reason_display :: "idle_reason \<Rightarrow> string" where
  "idle_reason_display Cancelled = ''cancelled''"
| "idle_reason_display Interrupted = ''interrupted''"
| "idle_reason_display Finished = ''finished''"
| "idle_reason_display IdleError = ''error''"

fun stream_type_display :: "stream_type \<Rightarrow> string" where
  "stream_type_display StreamNone = ''none''"
| "stream_type_display Buffered = ''buffered''"
| "stream_type_display Live = ''live''"

fun cast_app_display :: "cast_app \<Rightarrow> string" where
  "cast_app_display DefaultMediaReceiver = ''Default Media Receiver''"
| "cast_app_display Backdrop = ''Backdrop''"
| "cast_app_display YouTube = ''YouTube''"
| "cast_app_display (Custom i) = ''Custom('' @ i @ '')''"

end
