(* ===== verification/Errors.thy ===== *)
theory Errors
  imports Types
begin

text \<open>
  \<open>error.rs\<close> and \<open>event.rs\<close>: the crate's error type with its messages, and the events a
  connection emits. An error of a third-party library (TLS, protobuf, JSON) is carried as the
  text it prints; an I/O error as its kind and its text.
\<close>

section \<open>Errors\<close>

datatype io_error_kind = UnexpectedEof | BrokenPipe | InvalidInput | OtherKind

datatype io_error = IoError (io_kind: io_error_kind) (io_message: string)

datatype error =
    ErrConnect io_error
  | ErrTls string
  | ErrDisconnected
  | ErrFraming string
  | ErrProtobuf string
  | ErrJson string
  | ErrTimeout duration
  | ErrLaunchFailed string              \<comment> \<open>reason\<close>
  | ErrLoadFailed string "string option" \<comment> \<open>reason, detailed error\<close>
  | ErrInvalidRequest u32 string        \<comment> \<open>request id, reason\<close>
  | ErrInvalidPayload
  | ErrDiscovery string
  | ErrFileNotFound string
  | ErrNoMediaSession
  | ErrNoApplication
  | ErrInternal string

text \<open>\<open>Debug\<close> of a \<open>Duration\<close>: the largest unit with a non-zero count, then its fraction without
  trailing zeros.\<close>

fun frac_digits :: "nat \<Rightarrow> nat \<Rightarrow> string" where
  "frac_digits f d =
     (if f = 0 \<or> d = 0 then [] else digit (f div d) # frac_digits (f mod d) (d div 10))"

declare frac_digits.simps [simp del]

definition fmt_decimal :: "nat \<Rightarrow> nat \<Rightarrow> nat \<Rightarrow> string" where
  "fmt_decimal i f d = decimal i @ (if f = 0 then [] else ''.'' @ frac_digits f d)"

definition duration_debug :: "duration \<Rightarrow> string" where
  "duration_debug t =
     (let secs = t div 1000000000; nanos = t mod 1000000000
      in if 0 < secs then fmt_decimal secs nanos 100000000 @ ''s''
         else if 1000000 \<le> nanos then fmt_decimal (nanos div 1000000) (nanos mod 1000000) 100000 @ ''ms''
         else if 1000 \<le> nanos then fmt_decimal (nanos div 1000) (nanos mod 1000) 100 @ [CHR 0xC2, CHR 0xB5, CHR ''s'']
         else decimal nanos @ ''ns'')"

text \<open>\<open>Display\<close> of an error: the \<open>#[error(...)]\<close> attributes.\<close>

fun error_display :: "error \<Rightarrow> string" where
  "error_display (ErrConnect e) = ''connection failed: '' @ io_message e"
| "error_display (ErrTls s) = ''TLS handshake failed: '' @ s"
| "error_display ErrDisconnected = ''connection closed by device''"
| "error_display (ErrFraming s) = ''message framing error: '' @ s"
| "error_display (ErrProtobuf s) = ''protobuf decode error: '' @ s"
| "error_display (ErrJson s) = ''JSON error: '' @ s"
| "error_display (ErrTimeout d) = ''request timed out after '' @ duration_debug d"
| "error_display (ErrLaunchFailed r) = ''application launch failed: '' @ r"
| "error_display (ErrLoadFailed r d) = ''media load failed: '' @ r"
| "error_display (ErrInvalidRequest i r) =
     ''invalid request (id='' @ decimal (unat i) @ ''): '' @ r"
| "error_display ErrInvalidPayload = ''payload must be a JSON object''"
| "error_display (ErrDiscovery s) = ''discovery failed: '' @ s"
| "error_display (ErrFileNotFound s) = ''file not found: '' @ s"
| "error_display ErrNoMediaSession = ''no active media session''"
| "error_display ErrNoApplication = ''no running application''"
| "error_display (ErrInternal s) = s"

section \<open>Events\<close>

datatype cast_event =
    EvConnected
  | EvDisconnected "string option"
  | EvReconnecting u32                      \<comment> \<open>attempt\<close>
  | EvReconnected
  | EvHeartbeatTimeout
  | EvReceiverStatusChanged receiver_status
  | EvMediaStatusChanged media_status
  | EvMediaSessionEnded i32 idle_reason     \<comment> \<open>media session id, idle reason\<close>
  | EvRawMessage string string string string \<comment> \<open>namespace, source, destination, payload\<close>

definition as_media_status :: "cast_event \<Rightarrow> media_status option" where
  "as_media_status e = (case e of EvMediaStatusChanged s \<Rightarrow> Some s | _ \<Rightarrow> None)"

definition as_receiver_status :: "cast_event \<Rightarrow> receiver_status option" where
  "as_receiver_status e = (case e of EvReceiverStatusChanged s \<Rightarrow> Some s | _ \<Rightarrow> None)"

definition is_disconnected :: "cast_event \<Rightarrow> bool" where
  "is_disconnected e = (case e of EvDisconnected _ \<Rightarrow> True | _ \<Rightarrow> False)"

definition is_media_status :: "cast_event \<Rightarrow> bool" where
  "is_media_status e = (case e of EvMediaStatusChanged _ \<Rightarrow> True | _ \<Rightarrow> False)"

lemmas event_tests = as_media_status_def as_receiver_status_def is_disconnected_def
  is_media_status_def

end
