(* ===== verification/Tracker.thy ===== *)
theory Tracker
  imports Json Errors
begin

text \<open>
  \<open>client/request_tracker.rs\<close>: the pending requests. \<open>counter\<close>, \<open>pending\<close> and \<open>timeout\<close> are the
  struct's fields. A oneshot channel is known by a number, drawn from \<open>next_chan\<close> when it is made,
  and \<open>senders\<close> records what has become of its sending half: still held, used to send a value, or
  dropped unused (as the language drops it when the map gives it up).
\<close>

section \<open>State and operations\<close>

datatype sender = Held | Sent json | Dropped

record tracker =
  counter :: u32
  pending :: "u32 \<rightharpoonup> nat"
  timeout :: duration
  next_chan :: nat
  senders :: "nat \<rightharpoonup> sender"

definition tracker_new :: "duration \<Rightarrow> tracker" where
  "tracker_new t =
     \<lparr>counter = 0, pending = Map.empty, timeout = t, next_chan = 0, senders = Map.empty\<rparr>"

definition drop_sender :: "nat option \<Rightarrow> tracker \<Rightarrow> tracker" where
  "drop_sender h t = (case h of None \<Rightarrow> t | Some c \<Rightarrow> t\<lparr>senders := (senders t)(c \<mapsto> Dropped)\<rparr>)"

definition oneshot_channel :: "tracker \<Rightarrow> nat \<times> tracker" where
  "oneshot_channel t =
     (next_chan t, t\<lparr>next_chan := Suc (next_chan t), senders := (senders t)(next_chan t \<mapsto> Held)\<rparr>)"

text \<open>\<open>counter.fetch_add(1)\<close>: the value before the addition.\<close>

definition fetch_add :: "tracker \<Rightarrow> u32 \<times> tracker" where
  "fetch_add t = (counter t, t\<lparr>counter := counter t + 1\<rparr>)"

text \<open>\<open>register\<close>: the request identifier and the channel whose receiver the caller awaits. An entry
  the insertion overwrites is dropped.\<close>

definition register :: "tracker \<Rightarrow> (u32 \<times> nat) \<times> tracker" where
  "register t =
     (let (prev, t1) = fetch_add t;
          i = prev + 1;
          (i, t2) = (if i = 0 then (let (prev', t') = fetch_add t1 in (prev' + 1, t')) else (i, t1));
          (tx, t3) = oneshot_channel t2;
          t4 = drop_sender (pending t3 i) t3
      in ((i, tx), t4\<lparr>pending := (pending t4)(i \<mapsto> tx)\<rparr>))"

definition resolve :: "u32 \<Rightarrow> json \<Rightarrow> tracker \<Rightarrow> bool \<times> tracker" where
  "resolve i payload t =
     (case pending t i of
        Some tx \<Rightarrow> (True, t\<lparr>pending := (pending t)(i := None),
                        senders := (senders t)(tx \<mapsto> Sent payload)\<rparr>)
      | None \<Rightarrow> (False, t))"

text \<open>What awaiting the receiver under the timeout gives.\<close>

datatype wait_outcome = Received json | SenderGone | TimedOut

definition remove_pending :: "u32 \<Rightarrow> tracker \<Rightarrow> tracker" where
  "remove_pending i t = (let t' = drop_sender (pending t i) t in t'\<lparr>pending := (pending t')(i := None)\<rparr>)"

definition wait_for :: "u32 \<Rightarrow> wait_outcome \<Rightarrow> tracker \<Rightarrow> (error + json) \<times> tracker" where
  "wait_for i out t =
     (case out of
        Received v \<Rightarrow> (Inr v, t)
      | SenderGone \<Rightarrow> (Inl ErrDisconnected, remove_pending i t)
      | TimedOut \<Rightarrow> (Inl (ErrTimeout (timeout t)), remove_pending i t))"

definition tracker_clear :: "tracker \<Rightarrow> tracker" where
  "tracker_clear t =
     t\<lparr>pending := Map.empty,
       senders := (\<lambda>c. if c \<in> ran (pending t) then Some Dropped else senders t c)\<rparr>"

text \<open>What the oneshot channel promises its receiver: a value only when it was sent, a closed
  channel only when the sender was dropped, and a timeout only while neither happened.\<close>

definition oneshot_promise :: "tracker \<Rightarrow> nat \<Rightarrow> wait_outcome \<Rightarrow> bool" where
  "oneshot_promise t c out =
     (case out of
        Received v \<Rightarrow> senders t c = Some (Sent v)
      | SenderGone \<Rightarrow> senders t c = Some Dropped
      | TimedOut \<Rightarrow> senders t c = Some Held)"

section \<open>Invariant\<close>

text \<open>Every entry holds a sender of its own, no held sender is outside the map, and no request has
  identifier 0, which the router takes for a broadcast.\<close>

definition pending_inv :: "(u32 \<rightharpoonup> nat) \<Rightarrow> (nat \<rightharpoonup> sender) \<Rightarrow> nat \<Rightarrow> bool" where
  "pending_inv p s n \<longleftrightarrow>
     (\<forall>c. s c = Some Held \<longleftrightarrow> (\<exists>i. p i = Some c)) \<and>
     (\<forall>i j c. p i = Some c \<longrightarrow> p j = Some c \<longrightarrow> i = j) \<and>
     (\<forall>c. s c \<noteq> None \<longleftrightarrow> c < n) \<and>
     p 0 = None"

definition tracker_inv :: "tracker \<Rightarrow> bool" where
  "tracker_inv t \<longleftrightarrow> pending_inv (pending t) (senders t) (next_chan t)"

lemma pending_inv_held: "pending_inv p s n \<Longrightarrow> p i = Some c \<Longrightarrow> s c = Some Held \<and> c < n"
  unfolding pending_inv_def by (metis option.distinct(1))

lemma pending_inv_add:
  assumes inv: "pending_inv p s n" and "p i = None" and "i \<noteq> 0"
  shows "pending_inv (p(i \<mapsto> n)) (s(n \<mapsto> Held)) (Suc n)"
proof -
  have new: "p j \<noteq> Some n" for j
    using pending_inv_held [OF inv] by blast
  show ?thesis
    unfolding pending_inv_def
  proof (intro conjI allI)
    fix c
    show "(s(n \<mapsto> Held)) c = Some Held \<longleftrightarrow> (\<exists>j. (p(i \<mapsto> n)) j = Some c)"
      using inv assms(2) unfolding pending_inv_def by (cases "c = n") (auto, metis option.distinct(1))
    show "(s(n \<mapsto> Held)) c \<noteq> None \<longleftrightarrow> c < Suc n"
      using inv unfolding pending_inv_def by (auto simp: less_Suc_eq)
  next
    fix j k c
    show "(p(i \<mapsto> n)) j = Some c \<longrightarrow> (p(i \<mapsto> n)) k = Some c \<longrightarrow> j = k"
      using inv new unfolding pending_inv_def by auto
  next
    show "(p(i \<mapsto> n)) 0 = None"
      using inv assms(3) unfolding pending_inv_def by simp
  qed
qed

lemma pending_inv_remove:
  assumes inv: "pending_inv p s n" and c: "p i = Some c" and "x \<noteq> Held"
  shows "pending_inv (p(i := None)) (s(c \<mapsto> x)) n"
  unfolding pending_inv_def
proof (intro conjI allI)
  fix d
  have only: "p j = Some c \<longleftrightarrow> j = i" for j
    using inv c unfolding pending_inv_def by blast
  show "(s(c \<mapsto> x)) d = Some Held \<longleftrightarrow> (\<exists>j. (p(i := None)) j = Some d)"
  proof (cases "d = c")
    case True
    with only assms(3) show ?thesis by auto
  next
    case False
    with c have "(\<exists>j. p j = Some d) \<longleftrightarrow> (\<exists>j. (p(i := None)) j = Some d)"
      by (metis fun_upd_apply option.distinct(1) option.inject)
    with False inv show ?thesis unfolding pending_inv_def by simp
  qed
  have "c < n" using pending_inv_held [OF inv c] by simp
  with inv show "(s(c \<mapsto> x)) d \<noteq> None \<longleftrightarrow> d < n"
    unfolding pending_inv_def by (cases "d = c") auto
next
  fix j k d
  show "(p(i := None)) j = Some d \<longrightarrow> (p(i := None)) k = Some d \<longrightarrow> j = k"
    using inv unfolding pending_inv_def by auto
next
  show "(p(i := None)) 0 = None"
    using inv unfolding pending_inv_def by simp
qed

lemma pending_inv_clear:
  assumes inv: "pending_inv p s n"
  shows "pending_inv Map.empty (\<lambda>c. if c \<in> ran p then Some Dropped else s c) n"
  unfolding pending_inv_def
proof (intro conjI allI)
  fix c
  have r: "c \<in> ran p \<longleftrightarrow> s c = Some Held"
    using inv unfolding pending_inv_def ran_def by auto
  then show "(if c \<in> ran p then Some Dropped else s c) = Some Held \<longleftrightarrow> (\<exists>i. Map.empty i = Some c)"
    by simp
  show "(if c \<in> ran p then Some Dropped else s c) \<noteq> None \<longleftrightarrow> c < n"
    using r inv unfolding pending_inv_def by (metis option.distinct(1))
qed simp_all

lemma tracker_inv_new: "tracker_inv (tracker_new d)"
  by (simp add: tracker_inv_def tracker_new_def pending_inv_def)

text \<open>The identifier the next registration hands out.\<close>

definition next_id :: "u32 \<Rightarrow> u32" where
  "next_id c = (if c + 1 = 0 then 1 else c + 1)"

lemma next_id_not_0 [simp]: "next_id c \<noteq> 0"
  by (simp add: next_id_def)

lemma register_eq:
  "register t =
     ((next_id (counter t), next_chan t),
      t\<lparr>counter := next_id (counter t),
        next_chan := Suc (next_chan t),
        senders := (case pending t (next_id (counter t)) of
            None \<Rightarrow> (senders t)(next_chan t \<mapsto> Held)
          | Some c \<Rightarrow> (senders t)(next_chan t \<mapsto> Held, c \<mapsto> Dropped)),
        pending := (pending t)(next_id (counter t) \<mapsto> next_chan t)\<rparr>)"
  by (cases t) (auto simp: register_def fetch_add_def oneshot_channel_def drop_sender_def next_id_def
      Let_def split: option.splits)

lemma tracker_inv_register: "tracker_inv t \<Longrightarrow> tracker_inv (snd (register t))"
proof -
  assume inv: "tracker_inv t"
  let ?i = "next_id (counter t)"
  show ?thesis
  proof (cases "pending t ?i")
    case None
    with inv show ?thesis
      unfolding tracker_inv_def register_eq by (simp add: pending_inv_add)
  next
    case (Some c)
    with inv have "pending_inv ((pending t)(?i := None)) ((senders t)(c \<mapsto> Dropped)) (next_chan t)"
      unfolding tracker_inv_def by (rule pending_inv_remove) simp
    then have "pending_inv ((pending t)(?i := None, ?i \<mapsto> next_chan t))
        ((senders t)(c \<mapsto> Dropped, next_chan t \<mapsto> Held)) (Suc (next_chan t))"
      by (rule pending_inv_add) simp_all
    moreover have "c \<noteq> next_chan t"
      using pending_inv_held [of "pending t" "senders t" "next_chan t"] inv Some
      unfolding tracker_inv_def by blast
    ultimately show ?thesis
      unfolding tracker_inv_def register_eq by (simp add: Some fun_upd_twist)
  qed
qed

lemma tracker_inv_resolve: "tracker_inv t \<Longrightarrow> tracker_inv (snd (resolve i v t))"
  by (simp add: tracker_inv_def resolve_def pending_inv_remove split: option.splits)

lemma remove_pending_eq:
  "remove_pending i t =
     (case pending t i of
        None \<Rightarrow> t
      | Some c \<Rightarrow> t\<lparr>pending := (pending t)(i := None), senders := (senders t)(c \<mapsto> Dropped)\<rparr>)"
  by (cases t) (auto simp: remove_pending_def drop_sender_def Let_def fun_upd_idem split: option.splits)

lemma tracker_inv_remove: "tracker_inv t \<Longrightarrow> tracker_inv (remove_pending i t)"
  by (simp add: tracker_inv_def remove_pending_eq pending_inv_remove split: option.splits)

lemma tracker_inv_wait_for: "tracker_inv t \<Longrightarrow> tracker_inv (snd (wait_for i out t))"
  by (simp add: wait_for_def tracker_inv_remove split: wait_outcome.splits)

lemma tracker_inv_clear: "tracker_inv t \<Longrightarrow> tracker_inv (tracker_clear t)"
  by (simp add: tracker_inv_def tracker_clear_def pending_inv_clear)


section \<open>The registry interface\<close>

text \<open>
  What the router relies on. An answer finds the request that waits under its identifier, uses up
  that request's sender and no other, and takes the request out; an answer nobody waits for changes
  nothing.
\<close>

locale request_registry =
  fixes inv :: "'s \<Rightarrow> bool"
    and waiting :: "'s \<Rightarrow> u32 \<rightharpoonup> nat"
    and fate :: "'s \<Rightarrow> nat \<rightharpoonup> sender"
    and answer :: "u32 \<Rightarrow> json \<Rightarrow> 's \<Rightarrow> bool \<times> 's"
  assumes inv_answer: "inv s \<Longrightarrow> inv (snd (answer i v s))"
    and answer_found: "fst (answer i v s) \<longleftrightarrow> waiting s i \<noteq> None"
    and waiting_answer: "waiting (snd (answer i v s)) = (waiting s)(i := None)"
    and fate_answer: "fate (snd (answer i v s)) =
          (case waiting s i of None \<Rightarrow> fate s | Some c \<Rightarrow> (fate s)(c \<mapsto> Sent v))"
    and waiting_inj: "inv s \<Longrightarrow> waiting s i = Some c \<Longrightarrow> waiting s j = Some c \<Longrightarrow> i = j"
    and waiting_held: "inv s \<Longrightarrow> waiting s i = Some c \<Longrightarrow> fate s c = Some Held"
begin

definition answers :: "(u32 \<times> json) list \<Rightarrow> 's \<Rightarrow> 's" where
  "answers xs s = fold (\<lambda>(i, v) s. snd (answer i v s)) xs s"

lemma answers_simps [simp]:
  "answers [] s = s"
  "answers ((i, v) # xs) s = answers xs (snd (answer i v s))"
  by (simp_all add: answers_def)

lemma second_answer_unmatched: "\<not> fst (answer i w (snd (answer i v s)))"
  by (simp add: answer_found waiting_answer)

lemma answer_other:
  assumes "inv s" and "waiting s i = Some c" and "i \<noteq> j"
  shows "fate (snd (answer j v s)) c = fate s c" and "waiting (snd (answer j v s)) i = Some c"
  using assms waiting_inj [of s i c j]
  by (auto simp: fate_answer waiting_answer split: option.splits)

lemma settled_stays:
  assumes "inv s" and "\<And>i. waiting s i \<noteq> Some c"
  shows "fate (answers xs s) c = fate s c"
  using assms
proof (induction xs arbitrary: s)
  case (Cons x xs)
  obtain i v where x: "x = (i, v)" by (cases x)
  have "fate (answers xs (snd (answer i v s))) c = fate (snd (answer i v s)) c"
    using Cons.prems by (intro Cons.IH) (auto simp: inv_answer waiting_answer)
  also have "\<dots> = fate s c"
    using Cons.prems(2) by (auto simp: fate_answer split: option.splits)
  finally show ?case by (simp add: x)
qed simp

lemma first_answer_wins:
  assumes "inv s" and "waiting s i = Some c"
  shows "fate (answers xs s) c = Some (case map_of xs i of Some v \<Rightarrow> Sent v | None \<Rightarrow> Held)"
  using assms
proof (induction xs arbitrary: s)
  case Nil
  then show ?case by (simp add: waiting_held)
next
  case (Cons x xs)
  obtain j v where x: "x = (j, v)" by (cases x)
  let ?s = "snd (answer j v s)"
  have inv: "inv ?s" using Cons.prems(1) by (rule inv_answer)
  show ?case
  proof (cases "i = j")
    case True
    have "waiting ?s k \<noteq> Some c" for k
      using Cons.prems True waiting_inj [of s i c k] by (auto simp: waiting_answer)
    then have "fate (answers xs ?s) c = fate ?s c" by (intro settled_stays inv)
    also have "\<dots> = Some (Sent v)" using Cons.prems(2) True by (simp add: fate_answer)
    finally show ?thesis by (simp add: x True)
  next
    case False
    have "waiting ?s i = Some c" by (rule answer_other(2) [OF Cons.prems False])
    with inv Cons.IH False show ?thesis by (simp add: x)
  qed
qed

end

interpretation registry: request_registry tracker_inv pending senders resolve
proof unfold_locales
  fix s i j v c
  show "tracker_inv s \<Longrightarrow> tracker_inv (snd (resolve i v s))" by (rule tracker_inv_resolve)
  show "fst (resolve i v s) \<longleftrightarrow> pending s i \<noteq> None"
    by (simp add: resolve_def split: option.splits)
  show "pending (snd (resolve i v s)) = (pending s)(i := None)"
    by (auto simp: resolve_def fun_upd_idem split: option.splits)
  show "senders (snd (resolve i v s)) =
      (case pending s i of None \<Rightarrow> senders s | Some c \<Rightarrow> (senders s)(c \<mapsto> Sent v))"
    by (simp add: resolve_def split: option.splits)
  show "tracker_inv s \<Longrightarrow> pending s i = Some c \<Longrightarrow> pending s j = Some c \<Longrightarrow> i = j"
    unfolding tracker_inv_def pending_inv_def by blast
  show "tracker_inv s \<Longrightarrow> pending s i = Some c \<Longrightarrow> senders s c = Some Held"
    unfolding tracker_inv_def using pending_inv_held by blast
qed

section \<open>Runs of the tracker\<close>

datatype tracker_op = Register | Resolve u32 json | Wait u32 wait_outcome | Clear

fun tracker_step :: "tracker_op \<Rightarrow> tracker \<Rightarrow> tracker" where
  "tracker_step Register t = snd (register t)"
| "tracker_step (Resolve i v) t = snd (resolve i v t)"
| "tracker_step (Wait i out) t = snd (wait_for i out t)"
| "tracker_step Clear t = tracker_clear t"

definition tracker_run :: "tracker_op list \<Rightarrow> tracker \<Rightarrow> tracker" where
  "tracker_run ops t = fold tracker_step ops t"

lemma tracker_run_simps [simp]:
  "tracker_run [] t = t" "tracker_run (x # xs) t = tracker_run xs (tracker_step x t)"
  by (simp_all add: tracker_run_def)

lemma tracker_inv_step: "tracker_inv t \<Longrightarrow> tracker_inv (tracker_step x t)"
  by (cases x) (simp_all add: tracker_inv_register tracker_inv_resolve tracker_inv_wait_for
      tracker_inv_clear)

lemma tracker_inv_run: "tracker_inv t \<Longrightarrow> tracker_inv (tracker_run ops t)"
  by (induction ops arbitrary: t) (simp_all add: tracker_inv_step)

lemma senders_step_final:
  assumes "tracker_inv t" and "senders t c = Some x" and "x \<noteq> Held"
  shows "senders (tracker_step op t) c = Some x"
proof -
  have np: "pending t i \<noteq> Some c" for i
    using assms unfolding tracker_inv_def by (metis option.inject pending_inv_held)
  have "c < next_chan t" using assms(1,2) unfolding tracker_inv_def pending_inv_def by auto
  with assms(2) np show ?thesis
    by (cases op)
      (auto simp: register_eq resolve_def wait_for_def remove_pending_eq tracker_clear_def ran_def
        split: option.splits wait_outcome.splits)
qed

lemma senders_run_final:
  "tracker_inv t \<Longrightarrow> senders t c = Some x \<Longrightarrow> x \<noteq> Held \<Longrightarrow> senders (tracker_run ops t) c = Some x"
  by (induction ops arbitrary: t) (simp_all add: tracker_inv_step senders_step_final)

section \<open>Identifiers\<close>

text \<open>Identifiers run through the \<open>2 ^ 32 - 1\<close> non-zero values in a cycle; \<open>id_pos\<close> numbers them.\<close>

definition id_pos :: "u32 \<Rightarrow> nat" where "id_pos c = (unat c + 4294967294) mod 4294967295"

lemma unat_u32_less: "unat (c :: u32) < 4294967296"
proof -
  have "unat c < 2 ^ LENGTH(32)" by (rule unsigned_less)
  then show ?thesis by simp
qed

lemma unat_u32_Suc: "c + 1 \<noteq> (0 :: u32) \<Longrightarrow> unat (c + 1) = Suc (unat c)"
proof -
  assume nz: "c + 1 \<noteq> 0"
  have m: "unat (c + 1) = Suc (unat c) mod 4294967296"
    by (simp add: unat_word_ariths)
  from nz have "unat (c + 1) \<noteq> 0" by (metis unsigned_eq_0_iff)
  with m unat_u32_less [of c] have "Suc (unat c) < 4294967296"
    by (cases "Suc (unat c) = 4294967296") auto
  with m show ?thesis by simp
qed

lemma id_pos_next: "id_pos (next_id c) = Suc (id_pos c) mod 4294967295"
proof (cases "c + 1 = 0")
  case True
  then have "c = 4294967295" by (simp add: add_eq_0_iff2)
  then show ?thesis by (simp add: id_pos_def next_id_def)
next
  case False
  then show ?thesis
    by (simp add: id_pos_def next_id_def unat_u32_Suc mod_Suc_eq)
qed

lemma id_pos_iterate: "id_pos ((next_id ^^ k) c) = (id_pos c + k) mod 4294967295"
proof (induction k)
  case 0
  then show ?case by (simp add: id_pos_def)
next
  case (Suc k)
  then show ?case by (simp add: id_pos_next mod_Suc_eq)
qed

lemma next_id_iterate_inj:
  assumes "(next_id ^^ j) c = (next_id ^^ k) c" and "j \<le> k" and "k - j < 4294967295"
  shows "j = k"
proof -
  from assms(1) have "(id_pos c + j) mod 4294967295 = (id_pos c + k) mod 4294967295"
    by (metis id_pos_iterate)
  then have "(id_pos c + k - (id_pos c + j)) mod 4294967295 = 0"
    using assms(2) by (metis add_le_cancel_left mod_eq_dvd_iff_nat dvd_eq_mod_eq_0)
  with assms(2,3) show ?thesis by simp
qed

text \<open>The identifiers a run hands out, in order.\<close>

fun run_ids :: "tracker_op list \<Rightarrow> tracker \<Rightarrow> u32 list" where
  "run_ids [] t = []"
| "run_ids (Register # ops) t = fst (fst (register t)) # run_ids ops (snd (register t))"
| "run_ids (x # ops) t = run_ids ops (tracker_step x t)"

lemma counter_step:
  "counter (snd (resolve i v t)) = counter t"
  "counter (snd (wait_for i out t)) = counter t"
  "counter (tracker_clear t) = counter t"
  "counter (snd (register t)) = next_id (counter t)"
  by (simp_all add: resolve_def wait_for_def remove_pending_eq tracker_clear_def register_eq
      split: option.splits wait_outcome.splits)

lemma run_ids_eq:
  "run_ids ops t =
     map (\<lambda>k. (next_id ^^ Suc k) (counter t)) [0..<length (filter ((=) Register) ops)]"
proof (induction ops t rule: run_ids.induct)
  case (2 ops t)
  have "map (\<lambda>k. (next_id ^^ Suc k) (next_id c)) [0..<n] = map (\<lambda>k. (next_id ^^ Suc k) c) [1..<Suc n]"
    for c n
    by (rule nth_equalityI) (simp_all add: funpow_swap1 del: upt_Suc)
  with 2 show ?case
    by (simp add: counter_step upt_conv_Cons register_eq del: upt_Suc)
qed (simp_all add: counter_step)

lemma distinct_run_ids:
  assumes "length (run_ids ops t) \<le> 4294967295"
  shows "distinct (run_ids ops t)"
proof -
  let ?n = "length (filter ((=) Register) ops)"
  have n: "?n \<le> 4294967295" using assms by (simp add: run_ids_eq)
  have "inj_on (\<lambda>k. (next_id ^^ Suc k) (counter t)) {0..<?n}"
  proof (rule linorder_inj_onI)
    fix j k assume "j < k" and "j \<in> {0..<?n}" and "k \<in> {0..<?n}"
    then show "(next_id ^^ Suc j) (counter t) \<noteq> (next_id ^^ Suc k) (counter t)"
      using next_id_iterate_inj [of "Suc j" "counter t" "Suc k"] n by fastforce
  qed auto
  then show ?thesis by (simp add: run_ids_eq distinct_map)
qed

lemma run_ids_not_0: "0 \<notin> set (run_ids ops t)"
  by (auto simp: run_ids_eq)

text \<open>An operation that concerns request \<open>i\<close>.\<close>

fun touches :: "u32 \<Rightarrow> tracker_op \<Rightarrow> bool" where
  "touches i Register \<longleftrightarrow> False"
| "touches i (Resolve j v) \<longleftrightarrow> i = j"
| "touches i (Wait j out) \<longleftrightarrow> i = j"
| "touches i Clear \<longleftrightarrow> True"

lemma pending_run:
  assumes "pending t i = Some c" and "counter t = (next_id ^^ k) i"
    and "k + length (run_ids ops t) < 4294967295" and "list_all (\<lambda>x. \<not> touches i x) ops"
  shows "pending (tracker_run ops t) i = Some c"
  using assms
proof (induction ops arbitrary: t k)
  case (Cons x ops)
  show ?case
  proof (cases x)
    case Register
    have ne: "(next_id ^^ Suc k) i \<noteq> i"
      using next_id_iterate_inj [of 0 i "Suc k"] Cons.prems(3) Register by auto
    have "pending (tracker_run ops (snd (register t))) i = Some c"
      using Cons.prems ne Register
      by (intro Cons.IH [of _ "Suc k"]) (auto simp: counter_step register_eq)
    then show ?thesis by (simp add: Register)
  next
    case (Resolve j v)
    with Cons.prems show ?thesis
      by (auto intro!: Cons.IH [of _ k] simp: counter_step registry.waiting_answer)
  next
    case (Wait j out)
    with Cons.prems show ?thesis
      by (auto intro!: Cons.IH [of _ k] simp: counter_step wait_for_def remove_pending_eq
          split: option.splits wait_outcome.splits)
  next
    case Clear
    with Cons.prems show ?thesis by simp
  qed
qed simp

text \<open>C11. No two requests share an identifier: among up to \<open>2 ^ 32 - 1\<close> registrations, whatever
  answers, waits and clears come between them and wherever the counter starts (so across its
  wrap-around too), the identifiers are pairwise distinct, and none is 0, the identifier of
  broadcasts.\<close>

theorem request_ids_distinct:
  assumes "length (run_ids ops t) \<le> 4294967295"
  shows "distinct (run_ids ops t) \<and> 0 \<notin> set (run_ids ops t)"
  using distinct_run_ids [OF assms] run_ids_not_0 by blast

theorem request_ids_distinct_witness:
  "distinct (run_ids [Register, Register] (tracker_new 0\<lparr>counter := 4294967294\<rparr>))"
proof -
  have "length (run_ids [Register, Register] (tracker_new 0\<lparr>counter := 4294967294\<rparr>)) \<le> 4294967295"
    by (simp add: register_eq)
  from request_ids_distinct [OF this] show ?thesis by blast
qed

text \<open>C4. The answer reaches the request that waits for it. After \<open>register\<close> hands out \<open>i\<close>, let
  the tracker run through any operations that do not concern \<open>i\<close>, with fewer than \<open>2 ^ 32 - 1\<close>
  registrations among them; then \<open>resolve i\<close> finds the request, and whatever happens afterwards its
  \<open>wait_for\<close> returns exactly the resolved value.\<close>

theorem answer_reaches_waiter:
  assumes "tracker_inv t" and "register t = ((i, c), t1)"
    and "list_all (\<lambda>x. \<not> touches i x) ops" and "length (run_ids ops t1) < 4294967295"
    and "resolve i v (tracker_run ops t1) = (found, t2)"
    and "oneshot_promise (tracker_run later t2) c out"
  shows "found \<and> fst (wait_for i out (tracker_run later t2)) = Inr v"
proof -
  have "pending t1 i = Some c" "counter t1 = (next_id ^^ 0) i"
    using assms(2) by (auto simp: register_eq)
  then have p: "pending (tracker_run ops t1) i = Some c"
    using assms(3,4) by (intro pending_run [where k = 0]) simp_all
  have "tracker_inv t1" using tracker_inv_register [OF assms(1)] assms(2) by simp
  then have inv: "tracker_inv (tracker_run ops t1)" by (rule tracker_inv_run)
  from p assms(5) have t2: "found" "senders t2 c = Some (Sent v)"
    by (auto simp: resolve_def)
  have "tracker_inv t2" using tracker_inv_resolve [OF inv, of i v] assms(5) by simp
  then have "senders (tracker_run later t2) c = Some (Sent v)"
    by (rule senders_run_final [OF _ t2(2)]) simp
  with assms(6) t2(1) show ?thesis
    by (auto simp: oneshot_promise_def wait_for_def split: wait_outcome.splits)
qed

theorem answer_reaches_waiter_witness:
  "fst (wait_for 1 (Received Null)
     (tracker_run [Clear] (snd (resolve 1 Null (tracker_run [Register, Resolve 2 (Bool True)]
        (snd (register (tracker_new 5)))))))) = Inr Null"
proof -
  let ?t1 = "snd (register (tracker_new 5))"
  let ?r = "resolve 1 Null (tracker_run [Register, Resolve 2 (Bool True)] ?t1)"
  have reg: "register (tracker_new 5) = ((1, 0), ?t1)"
    by (simp add: register_eq tracker_new_def next_id_def)
  have "list_all (\<lambda>x. \<not> touches 1 x) [Register, Resolve 2 (Bool True)]" by simp
  moreover have "length (run_ids [Register, Resolve 2 (Bool True)] ?t1) < 4294967295" by simp
  moreover have "?r = (fst ?r, snd ?r)" by simp
  moreover have "oneshot_promise (tracker_run [Clear] (snd ?r)) 0 (Received Null)"
    by (simp add: register_eq tracker_new_def next_id_def resolve_def oneshot_promise_def
        tracker_clear_def ran_def)
  ultimately show ?thesis
    using answer_reaches_waiter [OF tracker_inv_new reg] by blast
qed

end
