(* ===== verification/Proto.thy ===== *)
theory Proto
  imports Ns
begin

text \<open>
  \<open>proto_gen.rs\<close>: the \<open>CastMessage\<close> struct and the enumerations, and the wire form that the
  \<open>#[prost(...)]\<close> attributes of its fields fix. The protobuf runtime (\<open>prost\<close>) is not part of the
  repository, so the framing code takes \<open>encode\<close> and \<open>decode\<close> as parameters; the codec below is
  the documented protobuf encoding of the attributed fields, and shows that what the framing code
  assumes of the runtime can hold.
\<close>

section \<open>Enumerations\<close>

datatype protocol_version = Castv210 | Castv211 | Castv212 | Castv213

fun protocol_version_as_i32 :: "protocol_version \<Rightarrow> i32" where
  "protocol_version_as_i32 Castv210 = 0"
| "protocol_version_as_i32 Castv211 = 1"
| "protocol_version_as_i32 Castv212 = 2"
| "protocol_version_as_i32 Castv213 = 3"

fun protocol_version_as_str_name :: "protocol_version \<Rightarrow> string" where
  "protocol_version_as_str_name Castv210 = ''CASTV2_1_0''"
| "protocol_version_as_str_name Castv211 = ''CASTV2_1_1''"
| "protocol_version_as_str_name Castv212 = ''CASTV2_1_2''"
| "protocol_version_as_str_name Castv213 = ''CASTV2_1_3''"

definition protocol_version_from_str_name :: "string \<Rightarrow> protocol_version option" where
  "protocol_version_from_str_name v =
     (if v = ''CASTV2_1_0'' then Some Castv210
      else if v = ''CASTV2_1_1'' then Some Castv211
      else if v = ''CASTV2_1_2'' then Some Castv212
      else if v = ''CASTV2_1_3'' then Some Castv213
      else None)"

datatype payload_type = PayloadString | PayloadBinary

fun payload_type_as_i32 :: "payload_type \<Rightarrow> i32" where
  "payload_type_as_i32 PayloadString = 0"
| "payload_type_as_i32 PayloadBinary = 1"

fun payload_type_as_str_name :: "payload_type \<Rightarrow> string" where
  "payload_type_as_str_name PayloadString = ''STRING''"
| "payload_type_as_str_name PayloadBinary = ''BINARY''"

definition payload_type_from_str_name :: "string \<Rightarrow> payload_type option" where
  "payload_type_from_str_name v =
     (if v = ''STRING'' then Some PayloadString
      else if v = ''BINARY'' then Some PayloadBinary
      else None)"

text \<open>The derived \<open>Ord\<close> compares discriminants.\<close>

instantiation protocol_version :: linorder
begin

definition less_eq_protocol_version :: "protocol_version \<Rightarrow> protocol_version \<Rightarrow> bool" where
  "less_eq_protocol_version a b \<longleftrightarrow> protocol_version_as_i32 a \<le> protocol_version_as_i32 b"

definition less_protocol_version :: "protocol_version \<Rightarrow> protocol_version \<Rightarrow> bool" where
  "less_protocol_version a b \<longleftrightarrow> protocol_version_as_i32 a < protocol_version_as_i32 b"

instance
proof
  fix x y z :: protocol_version
  have inj: "protocol_version_as_i32 a = protocol_version_as_i32 b \<Longrightarrow> a = b" for a b
    by (cases a; cases b) simp_all
  show "x \<le> y \<Longrightarrow> y \<le> x \<Longrightarrow> x = y"
    using inj by (simp add: less_eq_protocol_version_def)
qed (auto simp: less_eq_protocol_version_def less_protocol_version_def)

end

section \<open>The message\<close>

record cast_message =
  protocol_version :: i32
  source_id :: string
  destination_id :: string
  namespace :: string
  payload_type :: i32
  payload_utf8 :: "string option"
  payload_binary :: "u8 list option"
  continued :: "bool option"
  remaining_length :: "u32 option"

section \<open>The wire form\<close>

text \<open>A field is a key (tag and wire type) and a value: a varint or a run of bytes.\<close>

datatype wire_value = Varint nat | Bytes "u8 list"

fun varint :: "nat \<Rightarrow> u8 list" where
  "varint n = (if n < 128 then [of_nat n] else of_nat (n mod 128 + 128) # varint (n div 128))"

declare varint.simps [simp del]

fun read_varint :: "u8 list \<Rightarrow> (nat \<times> u8 list) option" where
  "read_varint [] = None"
| "read_varint (b # bs) =
     (if unat b < 128 then Some (unat b, bs)
      else case read_varint bs of
        None \<Rightarrow> None
      | Some (n, rest) \<Rightarrow> Some (unat b - 128 + 128 * n, rest))"

fun put_field :: "nat \<times> wire_value \<Rightarrow> u8 list" where
  "put_field (t, Varint n) = varint (t * 8) @ varint n"
| "put_field (t, Bytes bs) = varint (t * 8 + 2) @ varint (length bs) @ bs"

definition read_field :: "u8 list \<Rightarrow> ((nat \<times> wire_value) \<times> u8 list) option" where
  "read_field s =
     (case read_varint s of
        None \<Rightarrow> None
      | Some (key, s1) \<Rightarrow>
          (case read_varint s1 of
             None \<Rightarrow> None
           | Some (n, s2) \<Rightarrow>
               if key mod 8 = 0 then Some ((key div 8, Varint n), s2)
               else if key mod 8 = 2 \<and> n \<le> length s2
                 then Some ((key div 8, Bytes (take n s2)), drop n s2)
               else None))"

lemma read_varint_less: "read_varint s = Some (n, r) \<Longrightarrow> length r < length s"
  by (induction s arbitrary: n r) (force split: if_splits option.splits prod.splits)+

lemma read_field_less: "read_field s = Some (f, r) \<Longrightarrow> length r < length s"
  by (auto simp: read_field_def split: if_splits option.splits prod.splits
      dest!: read_varint_less)

function read_fields :: "u8 list \<Rightarrow> (nat \<times> wire_value) list option" where
  "read_fields s =
     (if s = [] then Some []
      else case read_field s of
        None \<Rightarrow> None
      | Some (f, rest) \<Rightarrow> map_option (\<lambda>fs. f # fs) (read_fields rest))"
  by pat_completeness auto
termination
  by (relation "measure length") (auto dest: read_field_less)

declare read_fields.simps [simp del]

definition string_bytes :: "string \<Rightarrow> u8 list" where
  "string_bytes = map (\<lambda>c. of_nat (of_char c))"

definition bytes_string :: "u8 list \<Rightarrow> string" where
  "bytes_string = map (\<lambda>b. char_of (unat b))"

text \<open>The fields of a message in tag order. An enumeration travels as its sign-extended value;
  a required field is always present, an optional one when it is set.\<close>

definition cast_message_fields :: "cast_message \<Rightarrow> (nat \<times> wire_value) list" where
  "cast_message_fields m =
     [(1, Varint (unat (scast (protocol_version m) :: u64))),
      (2, Bytes (string_bytes (source_id m))),
      (3, Bytes (string_bytes (destination_id m))),
      (4, Bytes (string_bytes (namespace m))),
      (5, Varint (unat (scast (payload_type m) :: u64)))]
     @ (case payload_utf8 m of None \<Rightarrow> [] | Some s \<Rightarrow> [(6, Bytes (string_bytes s))])
     @ (case payload_binary m of None \<Rightarrow> [] | Some b \<Rightarrow> [(7, Bytes b)])
     @ (case continued m of None \<Rightarrow> [] | Some c \<Rightarrow> [(8, Varint (if c then 1 else 0))])
     @ (case remaining_length m of None \<Rightarrow> [] | Some n \<Rightarrow> [(9, Varint (unat n))])"

definition cast_message_encode :: "cast_message \<Rightarrow> u8 list" where
  "cast_message_encode m = concat (map put_field (cast_message_fields m))"

text \<open>Decoding starts from the defaults; a later field overrides an earlier one, and a field the
  message does not have is skipped. (A \<open>String\<close> is UTF-8, which the byte strings here do not record,
  so the check of it is left out.)\<close>

definition cast_message_default :: cast_message where
  "cast_message_default =
     \<lparr>protocol_version = 0, source_id = [], destination_id = [], namespace = [], payload_type = 0,
      payload_utf8 = None, payload_binary = None, continued = None, remaining_length = None\<rparr>"

fun merge_field :: "nat \<times> wire_value \<Rightarrow> cast_message \<Rightarrow> cast_message" where
  "merge_field (t, Varint n) m =
     (if t = 1 then m\<lparr>protocol_version := of_nat n\<rparr>
      else if t = 5 then m\<lparr>payload_type := of_nat n\<rparr>
      else if t = 8 then m\<lparr>continued := Some (n \<noteq> 0)\<rparr>
      else if t = 9 then m\<lparr>remaining_length := Some (of_nat n)\<rparr>
      else m)"
| "merge_field (t, Bytes bs) m =
     (if t = 2 then m\<lparr>source_id := bytes_string bs\<rparr>
      else if t = 3 then m\<lparr>destination_id := bytes_string bs\<rparr>
      else if t = 4 then m\<lparr>namespace := bytes_string bs\<rparr>
      else if t = 6 then m\<lparr>payload_utf8 := Some (bytes_string bs)\<rparr>
      else if t = 7 then m\<lparr>payload_binary := Some bs\<rparr>
      else m)"

definition cast_message_decode :: "u8 list \<Rightarrow> string + cast_message" where
  "cast_message_decode s =
     (case read_fields s of
        None \<Rightarrow> Inl ''invalid message''
      | Some fs \<Rightarrow> Inr (fold merge_field fs cast_message_default))"

subsection \<open>Decoding inverts encoding\<close>

lemma unat_of_nat_u8: "n < 256 \<Longrightarrow> unat (of_nat n :: u8) = n"
  by (simp add: unsigned_of_nat take_bit_nat_eq_self)

lemma read_varint_varint: "read_varint (varint n @ s) = Some (n, s)"
proof (induction n rule: varint.induct)
  case (1 n)
  show ?case
  proof (cases "n < 128")
    case True
    then show ?thesis by (simp add: varint.simps [of n] unat_of_nat_u8)
  next
    case False
    have u: "unat (of_nat (n mod 128 + 128) :: u8) = n mod 128 + 128"
      by (rule unat_of_nat_u8) simp
    have "read_varint (varint n @ s) = Some (n mod 128 + 128 * (n div 128), s)"
      using False 1 by (simp only: varint.simps [of n] if_False append_Cons read_varint.simps u) simp
    then show ?thesis by simp
  qed
qed

lemma varint_not_Nil [simp]: "varint n \<noteq> []"
  by (subst varint.simps) simp

lemma read_field_put_field: "read_field (put_field f @ s) = Some (f, s)"
proof (cases f)
  case (Pair t v)
  show ?thesis
  proof (cases v)
    case (Varint n)
    then show ?thesis using Pair by (simp add: read_field_def read_varint_varint)
  next
    case (Bytes bs)
    have "(t * 8 + 2) div 8 = t" "(t * 8 + 2) mod 8 = 2" by (rule high_low, simp)+
    then show ?thesis
      unfolding Pair Bytes put_field.simps read_field_def append_assoc read_varint_varint
      by (simp add: read_varint_varint del: add_2_eq_Suc add_2_eq_Suc')
  qed
qed

lemma put_field_not_Nil [simp]: "put_field f \<noteq> []"
  by (cases f rule: put_field.cases) simp_all

lemma read_fields_put_fields: "read_fields (concat (map put_field fs)) = Some fs"
proof (induction fs)
  case Nil
  then show ?case by (simp add: read_fields.simps)
next
  case (Cons f fs)
  then show ?case
    by (subst read_fields.simps) (simp add: read_field_put_field)
qed

lemma bytes_string_bytes [simp]: "bytes_string (string_bytes s) = s"
  by (simp add: bytes_string_def string_bytes_def comp_def map_idI unat_of_nat_u8)

lemma cast_message_decode_encode [simp]: "cast_message_decode (cast_message_encode m) = Inr m"
proof -
  have "fold merge_field (cast_message_fields m) cast_message_default = m"
    by (cases m) (auto simp: cast_message_fields_def cast_message_default_def split: option.splits)
  then show ?thesis
    by (simp add: cast_message_decode_def cast_message_encode_def read_fields_put_fields)
qed

lemma cast_message_encode_not_Nil [simp]: "cast_message_encode m \<noteq> []"
  by (simp add: cast_message_encode_def cast_message_fields_def)

end
