(* ===== verification/State.thy ===== *)
theory State
  imports Tracker Proto
begin

text \<open>
  \<open>state.rs\<close>, and the state that the background tasks and the client share. A bounded channel of
  the asynchronous runtime is its contents in order, its capacity, and whether each half is still
  held; a watch channel is the value last sent. A \<open>send\<close> that has to wait for room stands in the contents
  at its place in the queue, behind the \<open>cap\<close> values the channel holds, until the receiver has made
  room; whoever sends is told that it waits.
\<close>

section \<open>Channels\<close>

record 'a chan =
  buf :: "'a list"
  cap :: nat
  rx_held :: bool
  tx_held :: bool

definition channel :: "nat \<Rightarrow> 'a chan" where
  "channel n = \<lparr>buf = [], cap = n, rx_held = True, tx_held = True\<rparr>"

text \<open>\<open>send\<close> fails when the receiver is gone, returns at once when there is room, and waits in a full
  channel, its value parked behind those of the sends that wait already. \<open>try_send\<close> fails in a full
  channel too, and the source ignores that failure: the value is lost.\<close>

definition chan_full :: "'a chan \<Rightarrow> bool" where
  "chan_full c \<longleftrightarrow> cap c \<le> length (buf c)"

datatype send_result = Accepted | Parked | Refused

definition chan_send :: "'a \<Rightarrow> 'a chan \<Rightarrow> send_result \<times> 'a chan" where
  "chan_send x c =
     (if \<not> rx_held c then (Refused, c)
      else (if chan_full c then Parked else Accepted, c\<lparr>buf := buf c @ [x]\<rparr>))"

text \<open>The sends that wait, in their order.\<close>

definition chan_parked :: "'a chan \<Rightarrow> 'a list" where
  "chan_parked c = drop (cap c) (buf c)"

definition chan_try_send :: "'a \<Rightarrow> 'a chan \<Rightarrow> 'a chan" where
  "chan_try_send x c =
     (if rx_held c \<and> tx_held c \<and> length (buf c) < cap c then c\<lparr>buf := buf c @ [x]\<rparr> else c)"

datatype 'a recv = Item 'a | Closed | Waiting

definition chan_recv :: "'a chan \<Rightarrow> 'a recv \<times> 'a chan" where
  "chan_recv c =
     (case buf c of
        x # xs \<Rightarrow> (Item x, c\<lparr>buf := xs\<rparr>)
      | [] \<Rightarrow> (if tx_held c then Waiting else Closed, c))"

text \<open>A parked \<open>send\<close> is no other than one that had waited outside: once as many values are taken as
  stood in its way, the channel is as if the value had been sent then, and accepted.\<close>

lemma parked_send_waits:
  assumes "rx_held c" and "chan_full c" and "k = length (buf c) - cap c + 1" and "0 < cap c"
  shows "fst (chan_send x c) = Parked \<and> x \<in> set (chan_parked (snd (chan_send x c))) \<and>
     (Accepted, (snd (chan_send x c))\<lparr>buf := drop k (buf (snd (chan_send x c)))\<rparr>) =
       chan_send x (c\<lparr>buf := drop k (buf c)\<rparr>)"
  using assms by (auto simp: chan_send_def chan_full_def chan_parked_def)

lemma chan_try_send_room:
  "rx_held c \<Longrightarrow> tx_held c \<Longrightarrow> length (buf c) < cap c \<Longrightarrow> buf (chan_try_send x c) = buf c @ [x]"
  by (simp add: chan_try_send_def)

lemma chan_try_send_simps [simp]:
  "cap (chan_try_send x c) = cap c" "rx_held (chan_try_send x c) = rx_held c"
  "tx_held (chan_try_send x c) = tx_held c"
  by (simp_all add: chan_try_send_def)

text \<open>What \<open>try_send\<close> leaves in the channel is the old contents, or those and the value.\<close>

lemma chan_try_send_cases:
  obtains "chan_try_send x c = c" | "buf (chan_try_send x c) = buf c @ [x]"
  by (cases "rx_held c \<and> tx_held c \<and> length (buf c) < cap c") (auto simp: chan_try_send_def)

lemma chan_try_send_bounded:
  "length (buf c) \<le> cap c \<Longrightarrow> length (buf (chan_try_send x c)) \<le> cap c"
  by (simp add: chan_try_send_def)

lemma set_chan_try_send: "set (buf (chan_try_send x c)) \<subseteq> insert x (set (buf c))"
  by (auto simp: chan_try_send_def)

section \<open>The state holder\<close>

datatype connection_state = ConnConnected | ConnDisconnected | ConnReconnecting u32

record state_holder =
  media :: "media_status option"
  receiver :: "receiver_status option"
  connection :: connection_state
  media_session :: i32

definition new_state :: state_holder where
  "new_state = \<lparr>media = None, receiver = None, connection = ConnConnected, media_session = 0\<rparr>"

definition set_media_session_id :: "i32 \<Rightarrow> state_holder \<Rightarrow> state_holder" where
  "set_media_session_id i s = s\<lparr>media_session := i\<rparr>"

section \<open>What the tasks share\<close>

text \<open>The fields the tasks of a connection hold clones of (\<open>ReaderContext\<close>, \<open>HeartbeatConfig\<close>, the
  arguments of \<open>writer_loop\<close>), as one record: \<open>ClientInner\<close> extends it. Times are nanoseconds of
  the monotonic clock.\<close>

record shared =
  request_tracker :: tracker
  event_ch :: "cast_event chan"
  write_ch :: "cast_message chan"
  holder :: state_holder
  alive :: bool
  last_activity :: nat

definition send_event :: "cast_event \<Rightarrow> 'a shared_scheme \<Rightarrow> 'a shared_scheme" where
  "send_event e s = s\<lparr>event_ch := chan_try_send e (event_ch s)\<rparr>"

definition send_write :: "cast_message \<Rightarrow> 'a shared_scheme \<Rightarrow> send_result \<times> 'a shared_scheme" where
  "send_write m s = (case chan_send m (write_ch s) of (r, c) \<Rightarrow> (r, s\<lparr>write_ch := c\<rparr>))"

definition watch_media :: "media_status option \<Rightarrow> 'a shared_scheme \<Rightarrow> 'a shared_scheme" where
  "watch_media v s = s\<lparr>holder := (holder s)\<lparr>media := v\<rparr>\<rparr>"

definition watch_receiver :: "receiver_status option \<Rightarrow> 'a shared_scheme \<Rightarrow> 'a shared_scheme" where
  "watch_receiver v s = s\<lparr>holder := (holder s)\<lparr>receiver := v\<rparr>\<rparr>"

definition watch_connection :: "connection_state \<Rightarrow> 'a shared_scheme \<Rightarrow> 'a shared_scheme" where
  "watch_connection v s = s\<lparr>holder := (holder s)\<lparr>connection := v\<rparr>\<rparr>"

definition store_session :: "i32 \<Rightarrow> 'a shared_scheme \<Rightarrow> 'a shared_scheme" where
  "store_session i s = s\<lparr>holder := set_media_session_id i (holder s)\<rparr>"

definition on_tracker :: "(tracker \<Rightarrow> tracker) \<Rightarrow> 'a shared_scheme \<Rightarrow> 'a shared_scheme" where
  "on_tracker f s = s\<lparr>request_tracker := f (request_tracker s)\<rparr>"

lemmas shared_ops = send_event_def send_write_def watch_media_def watch_receiver_def
  watch_connection_def store_session_def set_media_session_id_def on_tracker_def

text \<open>Each of these touches one field.\<close>

lemma send_event_frame [simp]:
  "request_tracker (send_event e s) = request_tracker s"
  "event_ch (send_event e s) = chan_try_send e (event_ch s)"
  "write_ch (send_event e s) = write_ch s"
  "holder (send_event e s) = holder s"
  "alive (send_event e s) = alive s"
  "last_activity (send_event e s) = last_activity s"
  by (simp_all add: send_event_def)

lemma send_write_frame [simp]:
  "request_tracker (snd (send_write m s)) = request_tracker s"
  "event_ch (snd (send_write m s)) = event_ch s"
  "write_ch (snd (send_write m s)) = snd (chan_send m (write_ch s))"
  "holder (snd (send_write m s)) = holder s"
  "alive (snd (send_write m s)) = alive s"
  "last_activity (snd (send_write m s)) = last_activity s"
  "fst (send_write m s) =
     (if \<not> rx_held (write_ch s) then Refused else if chan_full (write_ch s) then Parked else Accepted)"
  by (simp_all add: send_write_def chan_send_def)

lemma watch_frame [simp]:
  "request_tracker (watch_media v s) = request_tracker s"
  "request_tracker (watch_receiver r s) = request_tracker s"
  "request_tracker (watch_connection k s) = request_tracker s"
  "event_ch (watch_media v s) = event_ch s"
  "event_ch (watch_receiver r s) = event_ch s"
  "event_ch (watch_connection k s) = event_ch s"
  "write_ch (watch_media v s) = write_ch s"
  "write_ch (watch_receiver r s) = write_ch s"
  "write_ch (watch_connection k s) = write_ch s"
  "holder (watch_media v s) = (holder s)\<lparr>media := v\<rparr>"
  "holder (watch_receiver r s) = (holder s)\<lparr>receiver := r\<rparr>"
  "holder (watch_connection k s) = (holder s)\<lparr>connection := k\<rparr>"
  "alive (watch_media v s) = alive s"
  "alive (watch_receiver r s) = alive s"
  "alive (watch_connection k s) = alive s"
  "last_activity (watch_media v s) = last_activity s"
  "last_activity (watch_receiver r s) = last_activity s"
  "last_activity (watch_connection k s) = last_activity s"
  by (simp_all add: watch_media_def watch_receiver_def watch_connection_def)

lemma store_session_frame [simp]:
  "request_tracker (store_session i s) = request_tracker s"
  "event_ch (store_session i s) = event_ch s"
  "write_ch (store_session i s) = write_ch s"
  "holder (store_session i s) = (holder s)\<lparr>media_session := i\<rparr>"
  "alive (store_session i s) = alive s"
  "last_activity (store_session i s) = last_activity s"
  by (simp_all add: store_session_def set_media_session_id_def)

lemma on_tracker_frame [simp]:
  "request_tracker (on_tracker f s) = f (request_tracker s)"
  "event_ch (on_tracker f s) = event_ch s"
  "write_ch (on_tracker f s) = write_ch s"
  "holder (on_tracker f s) = holder s"
  "alive (on_tracker f s) = alive s"
  "last_activity (on_tracker f s) = last_activity s"
  by (simp_all add: on_tracker_def)

text \<open>A connection at rest at time \<open>now\<close>, with room for \<open>n\<close> events.\<close>

definition fresh_shared :: "nat \<Rightarrow> duration \<Rightarrow> nat \<Rightarrow> shared" where
  "fresh_shared n d now =
     \<lparr>request_tracker = tracker_new d, event_ch = channel n, write_ch = channel 64,
      holder = new_state, alive = True, last_activity = now\<rparr>"

lemma fresh_shared_simps [simp]:
  "request_tracker (fresh_shared n d now) = tracker_new d"
  "event_ch (fresh_shared n d now) = channel n"
  "write_ch (fresh_shared n d now) = channel 64"
  "holder (fresh_shared n d now) = new_state"
  "alive (fresh_shared n d now)"
  "last_activity (fresh_shared n d now) = now"
  by (simp_all add: fresh_shared_def)

text \<open>The contents a send leaves behind it.\<close>

lemma buf_chan_send [simp]: "buf (snd (chan_send m c)) = (if rx_held c then buf c @ [m] else buf c)"
  by (simp add: chan_send_def)

lemma held_chan_send [simp]:
  "rx_held (snd (chan_send m c)) = rx_held c" "tx_held (snd (chan_send m c)) = tx_held c"
  "cap (snd (chan_send m c)) = cap c"
  by (simp_all add: chan_send_def)

end
