(* ===== verification/Framing.thy ===== *)
theory Framing
  imports Proto Errors
begin

text \<open>
  \<open>client/framing.rs\<close>: length-prefixed messages on a byte stream. The protobuf runtime is the
  pair \<open>encode\<close>/\<open>decode\<close>; \<open>decode\<close> gives the text of its error on the left. A reader is the
  bytes that will still arrive and the I/O error met once they are used up (of kind
  \<open>UnexpectedEof\<close> when the peer closed the connection). What the operating system answers to a
  write is an argument too.
\<close>

section \<open>Messages with a string payload\<close>

definition build_message :: "string \<Rightarrow> string \<Rightarrow> string \<Rightarrow> string \<Rightarrow> cast_message" where
  "build_message ns source destination payload =
     \<lparr>protocol_version = protocol_version_as_i32 Castv210,
      source_id = source, destination_id = destination, namespace = ns,
      payload_type = payload_type_as_i32 PayloadString,
      payload_utf8 = Some payload, payload_binary = None, continued = None,
      remaining_length = None\<rparr>"

lemma build_message_simps [simp]:
  "namespace (build_message n s d p) = n"
  "source_id (build_message n s d p) = s"
  "destination_id (build_message n s d p) = d"
  "payload_utf8 (build_message n s d p) = Some p"
  by (simp_all add: build_message_def)

section \<open>Reading\<close>

record reader =
  rd_bytes :: "u8 list"
  rd_end :: io_error

definition read_exact :: "nat \<Rightarrow> reader \<Rightarrow> io_error + (u8 list \<times> reader)" where
  "read_exact n r =
     (if n \<le> length (rd_bytes r)
      then Inr (take n (rd_bytes r), r\<lparr>rd_bytes := drop n (rd_bytes r)\<rparr>)
      else Inl (rd_end r))"

definition read_failure :: "string \<Rightarrow> io_error \<Rightarrow> error" where
  "read_failure ctx e =
     (if io_kind e = UnexpectedEof then ErrDisconnected else ErrFraming (ctx @ io_message e))"

definition MAX_MESSAGE :: nat where "MAX_MESSAGE = 65536"

definition read_message ::
    "(u8 list \<Rightarrow> string + cast_message) \<Rightarrow> reader \<Rightarrow> error + (cast_message \<times> reader)" where
  "read_message decode r =
     (case read_exact 4 r of
        Inl e \<Rightarrow> Inl (read_failure ''read length: '' e)
      | Inr (len_buf, r1) \<Rightarrow>
          (let len = unat (u32_from_be_bytes len_buf)
           in if len = 0 then Inl (ErrFraming ''zero-length message'')
              else if len > MAX_MESSAGE then
                Inl (ErrFraming (''message too large: '' @ decimal len @ '' bytes (max 65536)''))
              else case read_exact len r1 of
                Inl e \<Rightarrow> Inl (read_failure ''read payload: '' e)
              | Inr (buf, r2) \<Rightarrow>
                  (case decode buf of
                     Inl e \<Rightarrow> Inl (ErrProtobuf e)
                   | Inr m \<Rightarrow> Inr (m, r2))))"

section \<open>Writing\<close>

text \<open>\<open>write_all\<close> followed by \<open>flush\<close>: both succeed, the write fails after some bytes, or the
  flush fails.\<close>

datatype write_outcome = WriteOk | WriteFails nat io_error | FlushFails io_error

definition write_message ::
    "(cast_message \<Rightarrow> u8 list) \<Rightarrow> write_outcome \<Rightarrow> cast_message \<Rightarrow> u8 list
      \<Rightarrow> (error + unit) \<times> u8 list" where
  "write_message encode io m w =
     (let encoded = encode m
      in if length encoded > MAX_MESSAGE
         then (Inl (ErrFraming (''outbound message too large: '' @ decimal (length encoded)
                 @ '' bytes (max 65536)'')), w)
         else let buf = u32_to_be_bytes (of_nat (length encoded)) @ encoded
              in case io of
                   WriteOk \<Rightarrow> (Inr (), w @ buf)
                 | WriteFails n e \<Rightarrow>
                     (Inl (if io_kind e = BrokenPipe then ErrDisconnected
                           else ErrFraming (''write: '' @ io_message e)), w @ take n buf)
                 | FlushFails e \<Rightarrow> (Inl (ErrFraming (''flush: '' @ io_message e)), w @ buf))"

text \<open>The bytes of one message on the wire.\<close>

definition frame :: "u8 list \<Rightarrow> u8 list" where
  "frame bs = u32_to_be_bytes (of_nat (length bs)) @ bs"

text \<open>Messages written one after the other, as the writer task does; the first error ends it.\<close>

fun write_messages ::
    "(cast_message \<Rightarrow> u8 list) \<Rightarrow> cast_message list \<Rightarrow> u8 list \<Rightarrow> (error + unit) \<times> u8 list" where
  "write_messages encode [] w = (Inr (), w)"
| "write_messages encode (m # ms) w =
     (case write_message encode WriteOk m w of
        (Inl e, w') \<Rightarrow> (Inl e, w')
      | (Inr _, w') \<Rightarrow> write_messages encode ms w')"

section \<open>The reading loop\<close>

lemma read_exact_bytes:
  "read_exact n r = Inr (b, r') \<Longrightarrow>
     rd_bytes r = b @ rd_bytes r' \<and> length b = n \<and> rd_end r' = rd_end r"
  by (auto simp: read_exact_def split: if_splits)

lemma read_message_Inr:
  assumes "read_message decode r = Inr (m, r')"
  shows "\<exists>lb buf. rd_bytes r = lb @ buf @ rd_bytes r' \<and> length lb = 4 \<and>
           unat (u32_from_be_bytes lb) = length buf \<and> 0 < length buf \<and>
           length buf \<le> MAX_MESSAGE \<and> decode buf = Inr m \<and> rd_end r' = rd_end r"
proof -
  from assms obtain lb r1 buf where
    h: "read_exact 4 r = Inr (lb, r1)" and
    b: "read_exact (unat (u32_from_be_bytes lb)) r1 = Inr (buf, r')" and
    len: "0 < unat (u32_from_be_bytes lb)" "unat (u32_from_be_bytes lb) \<le> MAX_MESSAGE" and
    d: "decode buf = Inr m"
    by (auto simp: read_message_def Let_def not_less split: sum.splits if_splits)
  from read_exact_bytes [OF h] read_exact_bytes [OF b] len d show ?thesis
    by (intro exI [of _ lb] exI [of _ buf]) auto
qed

lemma read_message_shrinks:
  "read_message decode r = Inr (m, r') \<Longrightarrow> length (rd_bytes r') < length (rd_bytes r)"
  by (drule read_message_Inr) auto

text \<open>Every message that arrives before the stream fails, and the error that ends it: the calls of
  \<open>read_message\<close> the reader task makes when nothing cancels it.\<close>

function read_stream ::
    "(u8 list \<Rightarrow> string + cast_message) \<Rightarrow> reader \<Rightarrow> cast_message list \<times> error" where
  "read_stream decode r =
     (case read_message decode r of
        Inl e \<Rightarrow> ([], e)
      | Inr (m, r') \<Rightarrow> (let (ms, e) = read_stream decode r' in (m # ms, e)))"
  by pat_completeness auto
termination
  by (relation "measure (\<lambda>(decode, r). length (rd_bytes r))") (auto dest: read_message_shrinks)

declare read_stream.simps [simp del]

section \<open>The codec interface\<close>

text \<open>What the framing relies on: decoding inverts encoding, and no message encodes to nothing
  (the required fields are always written).\<close>

locale wire_codec =
  fixes encode :: "cast_message \<Rightarrow> u8 list"
    and decode :: "u8 list \<Rightarrow> string + cast_message"
  assumes decode_encode [simp]: "decode (encode m) = Inr m"
    and encode_not_Nil [simp]: "encode m \<noteq> []"
begin

lemma read_frame:
  assumes "length (encode m) \<le> MAX_MESSAGE"
  shows "read_message decode \<lparr>rd_bytes = frame (encode m) @ s, rd_end = e\<rparr>
           = Inr (m, \<lparr>rd_bytes = s, rd_end = e\<rparr>)"
proof -
  have u: "unat (of_nat (length (encode m)) :: u32) = length (encode m)"
    using assms by (simp add: MAX_MESSAGE_def unsigned_of_nat take_bit_nat_eq_self)
  have four: "read_exact 4 \<lparr>rd_bytes = frame (encode m) @ s, rd_end = e\<rparr> =
      Inr (u32_to_be_bytes (of_nat (length (encode m))),
           \<lparr>rd_bytes = encode m @ s, rd_end = e\<rparr>)"
    by (simp add: read_exact_def frame_def)
  have body: "read_exact (length (encode m)) \<lparr>rd_bytes = encode m @ s, rd_end = e\<rparr> =
      Inr (encode m, \<lparr>rd_bytes = s, rd_end = e\<rparr>)"
    by (simp add: read_exact_def)
  show ?thesis
    using assms by (simp add: read_message_def four u body Let_def not_less)
qed

lemma write_messages_frames:
  "\<forall>m \<in> set ms. length (encode m) \<le> MAX_MESSAGE \<Longrightarrow>
     write_messages encode ms w = (Inr (), w @ concat (map (\<lambda>m. frame (encode m)) ms))"
  by (induction ms arbitrary: w) (auto simp: write_message_def frame_def Let_def)

lemma read_frames:
  "\<forall>m \<in> set ms. length (encode m) \<le> MAX_MESSAGE \<Longrightarrow>
     read_stream decode \<lparr>rd_bytes = concat (map (\<lambda>m. frame (encode m)) ms) @ s, rd_end = e\<rparr> =
       (let (ms', err) = read_stream decode \<lparr>rd_bytes = s, rd_end = e\<rparr> in (ms @ ms', err))"
proof (induction ms)
  case Nil
  then show ?case by (simp add: Let_def split: prod.splits)
next
  case (Cons m ms)
  then show ?case
    by (subst read_stream.simps) (simp add: read_frame Let_def split: prod.splits)
qed

lemma stream_roundtrip:
  assumes "\<forall>m \<in> set ms. length (encode m) \<le> MAX_MESSAGE" and "io_kind e = UnexpectedEof"
  shows "fst (write_messages encode ms []) = Inr ()"
    and "read_stream decode \<lparr>rd_bytes = snd (write_messages encode ms []), rd_end = e\<rparr>
           = (ms, ErrDisconnected)"
proof -
  have "read_stream decode \<lparr>rd_bytes = [], rd_end = e\<rparr> = ([], ErrDisconnected)"
    using assms(2) by (simp add: read_stream.simps read_message_def read_exact_def read_failure_def)
  then show "read_stream decode \<lparr>rd_bytes = snd (write_messages encode ms []), rd_end = e\<rparr>
      = (ms, ErrDisconnected)"
    using read_frames [OF assms(1), of "[]" e] write_messages_frames [OF assms(1), of "[]"] by simp
  show "fst (write_messages encode ms []) = Inr ()"
    using write_messages_frames [OF assms(1), of "[]"] by simp
qed

end

text \<open>The encoding of the attributed struct provides the interface.\<close>

interpretation protobuf: wire_codec cast_message_encode cast_message_decode
  by unfold_locales simp_all

end
