(* ===== verification/Channels.thy ===== *)
theory Channels
  imports Json Framing
begin

text \<open>
  \<open>channel/connection.rs\<close>, \<open>channel/receiver.rs\<close> and \<open>channel/media.rs\<close>: the requests the client
  sends. Each builder is its JSON payload, then the message that carries its text; \<open>render\<close> is
  \<open>serde_json\<close>'s \<open>to_string\<close>.
\<close>

type_synonym render = "json \<Rightarrow> string"

section \<open>Virtual connections\<close>

definition connect_payload :: json where
  "connect_payload = jobj [(''type'', String MSG_CONNECT), (''userAgent'', String USER_AGENT)]"

definition connect_msg :: "render \<Rightarrow> string \<Rightarrow> cast_message" where
  "connect_msg render destination =
     build_message NS_CONNECTION SENDER_ID destination (render connect_payload)"

definition close_payload :: json where
  "close_payload = jobj [(''type'', String MSG_CLOSE)]"

definition close_msg :: "render \<Rightarrow> string \<Rightarrow> cast_message" where
  "close_msg render destination =
     build_message NS_CONNECTION SENDER_ID destination (render close_payload)"

section \<open>The receiver channel\<close>

abbreviation receiver_message :: "render \<Rightarrow> json \<Rightarrow> cast_message" where
  "receiver_message render payload \<equiv> build_message NS_RECEIVER SENDER_ID RECEIVER_ID (render payload)"

definition receiver_get_status_payload :: "u32 \<Rightarrow> json" where
  "receiver_get_status_payload request_id =
     jobj [(''type'', String MSG_GET_STATUS), (''requestId'', of_u32 request_id)]"

definition receiver_get_status_msg :: "render \<Rightarrow> u32 \<Rightarrow> cast_message" where
  "receiver_get_status_msg render request_id =
     receiver_message render (receiver_get_status_payload request_id)"

definition launch_app_payload :: "u32 \<Rightarrow> string \<Rightarrow> json" where
  "launch_app_payload request_id app =
     jobj [(''type'', String MSG_LAUNCH), (''requestId'', of_u32 request_id),
           (''appId'', String app)]"

definition launch_app_msg :: "render \<Rightarrow> u32 \<Rightarrow> string \<Rightarrow> cast_message" where
  "launch_app_msg render request_id app =
     receiver_message render (launch_app_payload request_id app)"

definition stop_app_payload :: "u32 \<Rightarrow> string \<Rightarrow> json" where
  "stop_app_payload request_id session_id =
     jobj [(''type'', String MSG_STOP), (''requestId'', of_u32 request_id),
           (''sessionId'', String session_id)]"

definition stop_app_msg :: "render \<Rightarrow> u32 \<Rightarrow> string \<Rightarrow> cast_message" where
  "stop_app_msg render request_id session_id =
     receiver_message render (stop_app_payload request_id session_id)"

definition set_volume_payload :: "u32 \<Rightarrow> f32 option \<Rightarrow> bool option \<Rightarrow> json" where
  "set_volume_payload request_id level muted =
     (let volume0 = jempty;
          volume1 = (case level of Some l \<Rightarrow> jput ''level'' (of_f32 l) volume0 | None \<Rightarrow> volume0);
          volume2 = (case muted of Some m \<Rightarrow> jput ''muted'' (Bool m) volume1 | None \<Rightarrow> volume1)
      in jobj [(''type'', String MSG_SET_VOLUME), (''requestId'', of_u32 request_id),
               (''volume'', volume2)])"

definition set_volume_msg :: "render \<Rightarrow> u32 \<Rightarrow> f32 option \<Rightarrow> bool option \<Rightarrow> cast_message" where
  "set_volume_msg render request_id level muted =
     receiver_message render (set_volume_payload request_id level muted)"

section \<open>Metadata\<close>

text \<open>\<open>insert_opt\<close>: the entry is left out, not null, when there is no value. The first argument is
  the value's \<open>Into<Value>\<close>.\<close>

definition insert_opt :: "('a \<Rightarrow> json) \<Rightarrow> string \<Rightarrow> 'a option \<Rightarrow> json \<Rightarrow> json" where
  "insert_opt into key value m = (case value of Some v \<Rightarrow> jput key (into v) m | None \<Rightarrow> m)"

definition serialize_image :: "image \<Rightarrow> json" where
  "serialize_image i =
     (let obj0 = jobj [(''url'', String (img_url i))];
          obj1 = (case img_width i of Some w \<Rightarrow> jput ''width'' (of_u32 w) obj0 | None \<Rightarrow> obj0)
      in case img_height i of Some h \<Rightarrow> jput ''height'' (of_u32 h) obj1 | None \<Rightarrow> obj1)"

definition serialize_images :: "image list \<Rightarrow> json" where
  "serialize_images images = Array (map serialize_image images)"

definition metadata_type :: "nat \<Rightarrow> json" where
  "metadata_type n = Number (PosInt (of_nat n))"

fun serialize_metadata :: "media_metadata \<Rightarrow> json" where
  "serialize_metadata (Generic title subtitle images) =
     jput ''images'' (serialize_images images)
       (insert_opt String ''subtitle'' subtitle
       (insert_opt String ''title'' title
       (jput ''metadataType'' (metadata_type 0) jempty)))"
| "serialize_metadata (Movie title subtitle studio images) =
     jput ''images'' (serialize_images images)
       (insert_opt String ''studio'' studio
       (insert_opt String ''subtitle'' subtitle
       (insert_opt String ''title'' title
       (jput ''metadataType'' (metadata_type 1) jempty))))"
| "serialize_metadata (TvShow series_title episode_title season episode images) =
     jput ''images'' (serialize_images images)
       (insert_opt of_u32 ''episode'' episode
       (insert_opt of_u32 ''season'' season
       (insert_opt String ''title'' episode_title
       (insert_opt String ''seriesTitle'' series_title
       (jput ''metadataType'' (metadata_type 2) jempty)))))"
| "serialize_metadata (MusicTrack title artist album_name composer track_number disc_number images) =
     jput ''images'' (serialize_images images)
       (insert_opt of_u32 ''discNumber'' disc_number
       (insert_opt of_u32 ''trackNumber'' track_number
       (insert_opt String ''composer'' composer
       (insert_opt String ''albumName'' album_name
       (insert_opt String ''artist'' artist
       (insert_opt String ''title'' title
       (jput ''metadataType'' (metadata_type 3) jempty)))))))"
| "serialize_metadata (Photo title artist location latitude longitude width height images) =
     jput ''images'' (serialize_images images)
       (insert_opt of_u32 ''height'' height
       (insert_opt of_u32 ''width'' width
       (insert_opt of_f64 ''longitude'' longitude
       (insert_opt of_f64 ''latitude'' latitude
       (insert_opt String ''location'' location
       (insert_opt String ''artist'' artist
       (insert_opt String ''title'' title
       (jput ''metadataType'' (metadata_type 4) jempty))))))))"
| "serialize_metadata (AudiobookChapter book_title chapter_title chapter_number subtitle images) =
     jput ''images'' (serialize_images images)
       (insert_opt String ''subtitle'' subtitle
       (insert_opt of_u32 ''chapterNumber'' chapter_number
       (insert_opt String ''chapterTitle'' chapter_title
       (insert_opt String ''bookTitle'' book_title
       (jput ''metadataType'' (metadata_type 5) jempty)))))"

section \<open>The media channel\<close>

abbreviation media_message :: "render \<Rightarrow> string \<Rightarrow> json \<Rightarrow> cast_message" where
  "media_message render transport_id payload \<equiv>
     build_message NS_MEDIA SENDER_ID transport_id (render payload)"

fun stream_type_name :: "stream_type \<Rightarrow> string" where
  "stream_type_name Buffered = ''BUFFERED''"
| "stream_type_name Live = ''LIVE''"
| "stream_type_name StreamNone = ''NONE''"

text \<open>The \<open>media\<close> object, which \<open>load\<close> and \<open>serialize_queue_item\<close> build alike.\<close>

definition media_object :: "media_info \<Rightarrow> json" where
  "media_object media =
     (let obj0 = jobj [(''contentId'', String (content_id media)),
                       (''contentType'', String (content_type media)),
                       (''streamType'', String (stream_type_name (stream_type media)))];
          obj1 = (case mi_duration media of
                    Some dur \<Rightarrow> jput ''duration'' (of_f64 dur) obj0 | None \<Rightarrow> obj0)
      in case mi_metadata media of
           Some meta \<Rightarrow> jput ''metadata'' (serialize_metadata meta) obj1 | None \<Rightarrow> obj1)"

definition load_payload ::
    "u32 \<Rightarrow> string \<Rightarrow> media_info \<Rightarrow> bool \<Rightarrow> f64 \<Rightarrow> json option \<Rightarrow> json" where
  "load_payload request_id session_id media autoplay start custom_data =
     jobj [(''type'', String MSG_LOAD), (''requestId'', of_u32 request_id),
           (''sessionId'', String session_id), (''media'', media_object media),
           (''autoplay'', Bool autoplay), (''currentTime'', of_f64 start),
           (''customData'', unwrap_or jempty custom_data)]"

definition load_msg ::
    "render \<Rightarrow> u32 \<Rightarrow> string \<Rightarrow> string \<Rightarrow> media_info \<Rightarrow> bool \<Rightarrow> f64 \<Rightarrow> json option \<Rightarrow> cast_message" where
  "load_msg render request_id transport_id session_id media autoplay start custom_data =
     media_message render transport_id
       (load_payload request_id session_id media autoplay start custom_data)"

definition play_payload :: "u32 \<Rightarrow> i32 \<Rightarrow> json" where
  "play_payload request_id media_session =
     jobj [(''type'', String MSG_PLAY), (''requestId'', of_u32 request_id),
           (''mediaSessionId'', of_i32 media_session)]"

definition play_msg :: "render \<Rightarrow> u32 \<Rightarrow> string \<Rightarrow> i32 \<Rightarrow> cast_message" where
  "play_msg render request_id transport_id media_session =
     media_message render transport_id (play_payload request_id media_session)"

definition pause_payload :: "u32 \<Rightarrow> i32 \<Rightarrow> json" where
  "pause_payload request_id media_session =
     jobj [(''type'', String MSG_PAUSE), (''requestId'', of_u32 request_id),
           (''mediaSessionId'', of_i32 media_session)]"

definition pause_msg :: "render \<Rightarrow> u32 \<Rightarrow> string \<Rightarrow> i32 \<Rightarrow> cast_message" where
  "pause_msg render request_id transport_id media_session =
     media_message render transport_id (pause_payload request_id media_session)"

definition media_stop_payload :: "u32 \<Rightarrow> i32 \<Rightarrow> json" where
  "media_stop_payload request_id media_session =
     jobj [(''type'', String MSG_MEDIA_STOP), (''requestId'', of_u32 request_id),
           (''mediaSessionId'', of_i32 media_session), (''customData'', jempty)]"

definition media_stop_msg :: "render \<Rightarrow> u32 \<Rightarrow> string \<Rightarrow> i32 \<Rightarrow> cast_message" where
  "media_stop_msg render request_id transport_id media_session =
     media_message render transport_id (media_stop_payload request_id media_session)"

definition seek_payload :: "u32 \<Rightarrow> i32 \<Rightarrow> f64 \<Rightarrow> json" where
  "seek_payload request_id media_session position =
     jobj [(''type'', String MSG_SEEK), (''requestId'', of_u32 request_id),
           (''mediaSessionId'', of_i32 media_session), (''currentTime'', of_f64 position)]"

definition seek_msg :: "render \<Rightarrow> u32 \<Rightarrow> string \<Rightarrow> i32 \<Rightarrow> f64 \<Rightarrow> cast_message" where
  "seek_msg render request_id transport_id media_session position =
     media_message render transport_id (seek_payload request_id media_session position)"

definition media_get_status_payload :: "u32 \<Rightarrow> json" where
  "media_get_status_payload request_id =
     jobj [(''type'', String MSG_GET_STATUS), (''requestId'', of_u32 request_id)]"

definition media_get_status_msg :: "render \<Rightarrow> u32 \<Rightarrow> string \<Rightarrow> cast_message" where
  "media_get_status_msg render request_id transport_id =
     media_message render transport_id (media_get_status_payload request_id)"

subsection \<open>Queues\<close>

definition serialize_queue_item :: "queue_item \<Rightarrow> json" where
  "serialize_queue_item item =
     jobj [(''media'', media_object (qi_media item)), (''autoplay'', Bool (qi_autoplay item)),
           (''startTime'', of_f64 (qi_start_time item))]"

fun repeat_mode_name :: "repeat_mode \<Rightarrow> string" where
  "repeat_mode_name RepeatOff = ''REPEAT_OFF''"
| "repeat_mode_name RepeatAll = ''REPEAT_ALL''"
| "repeat_mode_name RepeatSingle = ''REPEAT_SINGLE''"
| "repeat_mode_name RepeatAllAndShuffle = ''REPEAT_ALL_AND_SHUFFLE''"

definition queue_load_payload ::
    "u32 \<Rightarrow> string \<Rightarrow> queue_item list \<Rightarrow> u32 \<Rightarrow> repeat_mode \<Rightarrow> json" where
  "queue_load_payload request_id session_id items start_index mode =
     jobj [(''type'', String MSG_QUEUE_LOAD), (''requestId'', of_u32 request_id),
           (''sessionId'', String session_id), (''items'', Array (map serialize_queue_item items)),
           (''startIndex'', of_u32 start_index), (''repeatMode'', String (repeat_mode_name mode))]"

definition queue_load_msg ::
    "render \<Rightarrow> u32 \<Rightarrow> string \<Rightarrow> string \<Rightarrow> queue_item list \<Rightarrow> u32 \<Rightarrow> repeat_mode \<Rightarrow> cast_message" where
  "queue_load_msg render request_id transport_id session_id items start_index mode =
     media_message render transport_id
       (queue_load_payload request_id session_id items start_index mode)"

definition queue_insert_payload ::
    "u32 \<Rightarrow> i32 \<Rightarrow> queue_item list \<Rightarrow> u32 option \<Rightarrow> json" where
  "queue_insert_payload request_id media_session items insert_before =
     (let payload = jobj [(''type'', String MSG_QUEUE_INSERT), (''requestId'', of_u32 request_id),
                          (''mediaSessionId'', of_i32 media_session),
                          (''items'', Array (map serialize_queue_item items))]
      in case insert_before of
           Some before \<Rightarrow> jput ''insertBefore'' (of_u32 before) payload | None \<Rightarrow> payload)"

definition queue_insert_msg ::
    "render \<Rightarrow> u32 \<Rightarrow> string \<Rightarrow> i32 \<Rightarrow> queue_item list \<Rightarrow> u32 option \<Rightarrow> cast_message" where
  "queue_insert_msg render request_id transport_id media_session items insert_before =
     media_message render transport_id
       (queue_insert_payload request_id media_session items insert_before)"


section \<open>The request contract\<close>

text \<open>
  What the request tracker relies on in every request: the payload carries the request's identifier
  and a type. A device that answers with the identifier it read therefore answers this request.
\<close>

lemma insert_opt_simps [simp]:
  "is_obj v \<Longrightarrow> is_obj (insert_opt into k x v)"
  "is_obj v \<Longrightarrow> jget k' (insert_opt into k x v) =
     (if k = k' then or_else (map_option into x) (jget k' v) else jget k' v)"
  by (auto simp: insert_opt_def split: option.splits)

lemmas request_payload_defs [payload_simps] = receiver_get_status_payload_def
  launch_app_payload_def stop_app_payload_def set_volume_payload_def load_payload_def
  play_payload_def pause_payload_def media_stop_payload_def seek_payload_def
  media_get_status_payload_def queue_load_payload_def queue_insert_payload_def Let_def

locale correlated_request =
  fixes payload :: "u32 \<Rightarrow> json"
  assumes carries_id: "get_u64 ''requestId'' (payload i) = Some (ucast i)"
    and carries_type: "get_str ''type'' (payload i) \<noteq> None"
    and payload_object: "is_obj (payload i)"
begin

lemma echoed_id: "map_option ucast (get_u64 ''requestId'' (payload i)) = Some i"
  by (simp add: carries_id)

lemma echoed_id_positive: "i \<noteq> 0 \<Longrightarrow> get_u64 ''requestId'' (payload i) = Some n \<Longrightarrow> 0 < n"
  using ucast_ucast_u32 [of i] by (auto simp: carries_id word_gt_0 simp del: ucast_ucast_u32)

lemma payload_inject: "payload i = payload j \<longleftrightarrow> i = j"
  by (metis echoed_id option.inject)

end

interpretation receiver_get_status_request: correlated_request receiver_get_status_payload
  by unfold_locales (simp_all add: payload_simps)

interpretation launch_app_request: correlated_request "\<lambda>i. launch_app_payload i app" for app
  by unfold_locales (simp_all add: payload_simps)

interpretation stop_app_request: correlated_request "\<lambda>i. stop_app_payload i sid" for sid
  by unfold_locales (simp_all add: payload_simps)

interpretation set_volume_request: correlated_request "\<lambda>i. set_volume_payload i l m" for l m
  by unfold_locales (simp_all add: payload_simps)

interpretation load_request: correlated_request "\<lambda>i. load_payload i sid media a t c"
  for sid media a t c
  by unfold_locales (simp_all add: payload_simps)

interpretation play_request: correlated_request "\<lambda>i. play_payload i msid" for msid
  by unfold_locales (simp_all add: payload_simps)

interpretation pause_request: correlated_request "\<lambda>i. pause_payload i msid" for msid
  by unfold_locales (simp_all add: payload_simps)

interpretation media_stop_request: correlated_request "\<lambda>i. media_stop_payload i msid" for msid
  by unfold_locales (simp_all add: payload_simps)

interpretation seek_request: correlated_request "\<lambda>i. seek_payload i msid p" for msid p
  by unfold_locales (simp_all add: payload_simps)

interpretation media_get_status_request: correlated_request media_get_status_payload
  by unfold_locales (simp_all add: payload_simps)

interpretation queue_load_request: correlated_request "\<lambda>i. queue_load_payload i sid items k r"
  for sid items k r
  by unfold_locales (simp_all add: payload_simps)

interpretation queue_insert_request: correlated_request "\<lambda>i. queue_insert_payload i msid items b"
  for msid items b
  by unfold_locales (simp_all add: payload_simps split: option.splits)

end
