(* ===== verification/Heartbeat.thy ===== *)
theory Heartbeat
  imports State Channels
begin

text \<open>
  \<open>client/heartbeat.rs\<close>: the liveness check. A tick of the interval sends a PING and compares the
  time of the last message with the clock. The loop is driven by what wakes it, each wake-up
  preceded by whatever the other tasks did to the shared state in the meantime.
\<close>

section \<open>Messages\<close>

definition payload_contains :: "string \<Rightarrow> cast_message \<Rightarrow> bool" where
  "payload_contains s msg = (case payload_utf8 msg of Some p \<Rightarrow> str_contains s p | None \<Rightarrow> False)"

definition is_ping :: "cast_message \<Rightarrow> bool" where
  "is_ping msg =
     (if namespace msg \<noteq> NS_HEARTBEAT then False
      else payload_contains (quoted ''PING'') msg)"

definition is_pong :: "cast_message \<Rightarrow> bool" where
  "is_pong msg =
     (if namespace msg \<noteq> NS_HEARTBEAT then False
      else payload_contains (quoted ''PONG'') msg)"

definition pong_payload :: json where "pong_payload = jobj [(''type'', String MSG_PONG)]"

definition pong :: "render \<Rightarrow> cast_message" where
  "pong render = build_message NS_HEARTBEAT SENDER_ID RECEIVER_ID (render pong_payload)"

definition ping_payload :: json where "ping_payload = jobj [(''type'', String MSG_PING)]"

definition ping :: "render \<Rightarrow> cast_message" where
  "ping render = build_message NS_HEARTBEAT SENDER_ID RECEIVER_ID (render ping_payload)"

section \<open>The liveness clock\<close>

definition touch :: "nat \<Rightarrow> 'a shared_scheme \<Rightarrow> 'a shared_scheme" where
  "touch now s = s\<lparr>last_activity := now\<rparr>"

lemma touch_frame [simp]:
  "request_tracker (touch n s) = request_tracker s" "event_ch (touch n s) = event_ch s"
  "write_ch (touch n s) = write_ch s" "holder (touch n s) = holder s"
  "alive (touch n s) = alive s" "last_activity (touch n s) = n"
  by (simp_all add: touch_def)

text \<open>\<open>Instant::elapsed\<close>, which saturates at zero.\<close>

definition elapsed :: "nat \<Rightarrow> 'a shared_scheme \<Rightarrow> duration" where
  "elapsed now s = now - last_activity s"

lemma silent_too_long: "limit < elapsed now s \<longleftrightarrow> last_activity s + limit < now"
  by (auto simp: elapsed_def)

section \<open>The task\<close>

text \<open>What wakes the task: the tick of its interval, the cancellation of its token, or, when it waits
  inside \<open>write_tx.send(ping()).await\<close>, the news that its message has been taken. A full write channel
  suspends the task there: it then sees neither ticks nor the cancellation.\<close>

datatype heartbeat_wake = Tick nat | HbCancelled | Resumed nat

datatype heartbeat_status = Running | Stopped | Blocked

definition declare_dead :: "'a shared_scheme \<Rightarrow> 'a shared_scheme" where
  "declare_dead s =
     send_event EvHeartbeatTimeout (watch_connection ConnDisconnected (s\<lparr>alive := False\<rparr>))"

text \<open>What follows a PING that was sent.\<close>

definition check_liveness ::
    "duration \<Rightarrow> nat \<Rightarrow> 'a shared_scheme \<Rightarrow> heartbeat_status \<times> 'a shared_scheme" where
  "check_liveness limit now s =
     (if elapsed now s > limit then (Stopped, declare_dead s) else (Running, s))"

text \<open>One turn of the loop, or of the wait inside it, and whether the loop goes on.\<close>

fun heartbeat_step ::
    "render \<Rightarrow> duration \<Rightarrow> heartbeat_status \<Rightarrow> heartbeat_wake \<Rightarrow> 'a shared_scheme
      \<Rightarrow> heartbeat_status \<times> 'a shared_scheme" where
  "heartbeat_step render limit Running (Tick now) s =
     (case send_write (ping render) s of
        (Refused, s1) \<Rightarrow> (Stopped, s1)
      | (Parked, s1) \<Rightarrow> (Blocked, s1)
      | (Accepted, s1) \<Rightarrow> check_liveness limit now s1)"
| "heartbeat_step render limit Running HbCancelled s = (Stopped, s)"
| "heartbeat_step render limit Running (Resumed now) s = (Running, s)"
| "heartbeat_step render limit Blocked (Resumed now) s =
     (if ping render \<in> set (chan_parked (write_ch s))
      then (if rx_held (write_ch s) then Blocked else Stopped, s)
      else check_liveness limit now s)"
| "heartbeat_step render limit Blocked wake s = (Blocked, s)"
| "heartbeat_step render limit Stopped wake s = (Stopped, s)"

fun heartbeat_loop ::
    "render \<Rightarrow> duration \<Rightarrow> heartbeat_status \<Rightarrow> (('a shared_scheme \<Rightarrow> 'a shared_scheme) \<times> heartbeat_wake) list
      \<Rightarrow> 'a shared_scheme \<Rightarrow> heartbeat_status \<times> 'a shared_scheme" where
  "heartbeat_loop render limit st [] s = (st, s)"
| "heartbeat_loop render limit st ((others, wake) # ws) s =
     (if st = Stopped then (Stopped, s)
      else case heartbeat_step render limit st wake (others s) of
             (st', s1) \<Rightarrow> heartbeat_loop render limit st' ws s1)"

section \<open>Correctness\<close>

text \<open>The text of an object whose only entry is a \<open>type\<close>.\<close>

definition type_text :: "string \<Rightarrow> string" where
  "type_text t = ''{'' @ quoted ''type'' @ '':'' @ quoted t @ ''}''"

lemma heartbeat_step_tick:
  assumes "rx_held (write_ch s)" and "\<not> chan_full (write_ch s)"
  shows "heartbeat_step render limit Running (Tick now) s =
     (if elapsed now s > limit then (Stopped, declare_dead (snd (send_write (ping render) s)))
      else (Running, snd (send_write (ping render) s)))"
  using assms by (simp add: check_liveness_def elapsed_def send_write_def chan_send_def)

text \<open>The messages of the heartbeat are told apart. With the text \<open>serde_json\<close> prints for the
  two payloads, a PING is recognised as a PING and is no PONG, and the other way round, so a PONG
  never triggers another PONG.\<close>

theorem ping_pong_distinguished:
  assumes "render ping_payload = type_text ''PING''"
    and "render pong_payload = type_text ''PONG''"
  shows "is_ping (ping render) \<and> \<not> is_pong (ping render) \<and> is_pong (pong render) \<and> \<not> is_ping (pong render)"
  by (simp add: is_ping_def is_pong_def ping_def pong_def payload_contains_def type_text_def assms)

theorem ping_pong_distinguished_witness:
  "is_ping (ping (\<lambda>v. case get_str ''type'' v of
       Some t \<Rightarrow> type_text t
     | None \<Rightarrow> ''{}''))"
proof -
  let ?r = "\<lambda>v. case get_str ''type'' v of
       Some t \<Rightarrow> type_text t
     | None \<Rightarrow> ''{}''"
  have "?r ping_payload = type_text ''PING''"
    "?r pong_payload = type_text ''PONG''"
    by (simp_all add: ping_payload_def pong_payload_def ns_simps MSG_PING_def MSG_PONG_def)
  from ping_pong_distinguished [of ?r, OF this] show ?thesis by blast
qed

text \<open>A tick of a connection whose writer runs and has room sends one PING and nothing else. The device
  is declared dead exactly when the silence is longer than the timeout: then the alive flag is
  cleared, watchers see \<open>Disconnected\<close>, a \<open>HeartbeatTimeout\<close> event is emitted if the channel has
  room, and the task stops; otherwise flag, watchers and events stay as they were and it goes on.\<close>

theorem heartbeat_tick:
  assumes "rx_held (write_ch s)" and "\<not> chan_full (write_ch s)"
    and "heartbeat_step render limit Running (Tick now) s = (st, s')"
  shows "buf (write_ch s') = buf (write_ch s) @ [ping render] \<and>
     request_tracker s' = request_tracker s \<and> last_activity s' = last_activity s \<and>
     (if now - last_activity s > limit
      then st = Stopped \<and> \<not> alive s' \<and> holder s' = (holder s)\<lparr>connection := ConnDisconnected\<rparr> \<and>
           event_ch s' = chan_try_send EvHeartbeatTimeout (event_ch s)
      else st = Running \<and> alive s' = alive s \<and> holder s' = holder s \<and> event_ch s' = event_ch s)"
  using assms(3)
  by (auto simp: heartbeat_step_tick [OF assms(1,2)] declare_dead_def elapsed_def
      assms(1) simp del: heartbeat_step.simps split: if_splits)

theorem heartbeat_tick_witness:
  "event_ch (snd (heartbeat_step (\<lambda>_. []) 15 Running (Tick 20) (fresh_shared 1 0 0)))
     = chan_try_send EvHeartbeatTimeout (channel 1)"
proof -
  have "rx_held (write_ch (fresh_shared 1 0 0))" "\<not> chan_full (write_ch (fresh_shared 1 0 0))"
    by (simp_all add: channel_def chan_full_def)
  from heartbeat_tick [OF this prod.collapse [symmetric], of "\<lambda>_. []" 15 20] show ?thesis by simp
qed

text \<open>Other tasks that hear nothing from the device, keep the write channel open, and do not put more
  into it than the writer takes out.\<close>

definition silent_others :: "('a shared_scheme \<Rightarrow> 'a shared_scheme) \<Rightarrow> bool" where
  "silent_others f \<longleftrightarrow>
     (\<forall>s. last_activity (f s) = last_activity s \<and> cap (write_ch (f s)) = cap (write_ch s) \<and>
        (rx_held (write_ch s) \<longrightarrow> rx_held (write_ch (f s))) \<and>
        length (buf (write_ch (f s))) \<le> length (buf (write_ch s)))"

lemma silent_ticks:
  assumes "silent_others others" and "rx_held (write_ch s)"
    and "length (buf (write_ch s)) + length ts \<le> cap (write_ch s)"
    and "list_all (\<lambda>t. t \<le> last_activity s + limit) ts"
  shows "\<exists>s'. heartbeat_loop render limit Running (map (\<lambda>t. (others, Tick t)) ts) s = (Running, s') \<and>
           last_activity s' = last_activity s \<and> rx_held (write_ch s') \<and>
           cap (write_ch s') = cap (write_ch s) \<and>
           length (buf (write_ch s')) \<le> length (buf (write_ch s)) + length ts"
  using assms(2-4)
proof (induction ts arbitrary: s)
  case (Cons t ts)
  let ?s = "snd (send_write (ping render) (others s))"
  have f: "last_activity (others s) = last_activity s" "cap (write_ch (others s)) = cap (write_ch s)"
    "rx_held (write_ch (others s))" "length (buf (write_ch (others s))) \<le> length (buf (write_ch s))"
    using assms(1) Cons.prems(1) by (auto simp: silent_others_def)
  then have "\<not> chan_full (write_ch (others s))" using Cons.prems(2) by (simp add: chan_full_def)
  then have "heartbeat_step render limit Running (Tick t) (others s) = (Running, ?s)"
    using Cons.prems f by (simp add: heartbeat_step_tick silent_too_long del: heartbeat_step.simps)
  moreover have "\<exists>s'. heartbeat_loop render limit Running (map (\<lambda>t. (others, Tick t)) ts) ?s = (Running, s') \<and>
      last_activity s' = last_activity ?s \<and> rx_held (write_ch s') \<and> cap (write_ch s') = cap (write_ch ?s) \<and>
      length (buf (write_ch s')) \<le> length (buf (write_ch ?s)) + length ts"
    using Cons.prems f by (intro Cons.IH) simp_all
  ultimately show ?case using f by (auto simp del: heartbeat_step.simps)
qed simp

lemma heartbeat_loop_append:
  "heartbeat_loop render limit st xs s = (st', s') \<Longrightarrow>
     heartbeat_loop render limit st (xs @ ys) s = heartbeat_loop render limit st' ys s'"
proof (induction xs arbitrary: st s)
  case (Cons x xs)
  obtain others wake where x: "x = (others, wake)" by (cases x)
  show ?case
  proof (cases "st = Stopped")
    case True
    with Cons.prems x show ?thesis by (cases ys) auto
  next
    case False
    with Cons x show ?thesis by (auto split: prod.splits)
  qed
qed simp

text \<open>C33. A silent device is detected in time, if there is room for the PINGs. When no message arrives
  after the last activity and the interval ticks at \<open>start + interval\<close>, \<open>start + 2 * interval\<close>, ..., the
  task keeps running up to the last tick within the timeout and declares the device dead at the next
  one, which comes at most one interval after the timeout has passed. The write channel has to have
  room for one PING per tick, which the writer need not take: a stalled writer does not hide the silence
  as long as the channel does not fill up.\<close>

theorem silence_is_detected:
  fixes k :: nat
  assumes "silent_others others" and "rx_held (write_ch s)" and "0 < interval"
    and "start \<le> last_activity s + limit"
    and "k = (last_activity s + limit - start) div interval"
    and "length (buf (write_ch s)) + Suc k \<le> cap (write_ch s)"
  shows "fst (heartbeat_loop render limit Running
            (map (\<lambda>j. (others, Tick (start + j * interval))) [1..<Suc k]) s) = Running \<and>
         (\<exists>s'. heartbeat_loop render limit Running
            (map (\<lambda>j. (others, Tick (start + j * interval))) [1..<Suc (Suc k)]) s = (Stopped, s') \<and>
            \<not> alive s' \<and> connection (holder s') = ConnDisconnected) \<and>
         start + Suc k * interval \<le> last_activity s + limit + interval"
proof -
  let ?gap = "last_activity s + limit - start"
  have le: "j * interval \<le> ?gap" if "j \<le> k" for j
    using that assms(5) by (metis div_times_less_eq_dividend le_trans mult_le_mono1)
  have le_tick: "start + j * interval \<le> last_activity s + limit" if "j \<le> k" for j
    using le [OF that] assms(4) by linarith
  have gt: "?gap < Suc k * interval"
    using assms(3,5) by (metis dividend_less_div_times mult_Suc add.commute)
  let ?ts = "map (\<lambda>j. start + j * interval) [1..<Suc k]"
  have early: "list_all (\<lambda>t. t \<le> last_activity s + limit) ?ts"
    using le_tick by (auto simp: list_all_iff)
  have "length (buf (write_ch s)) + length ?ts \<le> cap (write_ch s)" using assms(6) by simp
  from silent_ticks [OF assms(1,2) this early, of render] obtain s1 where
    s1: "heartbeat_loop render limit Running (map (\<lambda>j. (others, Tick (start + j * interval))) [1..<Suc k]) s
           = (Running, s1)" "last_activity s1 = last_activity s" "rx_held (write_ch s1)"
      "cap (write_ch s1) = cap (write_ch s)" "length (buf (write_ch s1)) \<le> length (buf (write_ch s)) + k"
    by (auto simp: comp_def simp del: upt_Suc)
  have f: "rx_held (write_ch (others s1))" "last_activity (others s1) = last_activity s1"
    "cap (write_ch (others s1)) = cap (write_ch s1)"
    "length (buf (write_ch (others s1))) \<le> length (buf (write_ch s1))"
    using assms(1) s1(3) by (auto simp: silent_others_def)
  have late: "elapsed (start + Suc k * interval) (others s1) > limit"
    using gt assms(4) f(2) s1(2) by (simp add: silent_too_long)
  have room: "\<not> chan_full (write_ch (others s1))"
    using f(3,4) s1(4,5) assms(6) by (simp add: chan_full_def)
  have split: "map (\<lambda>j. (others, Tick (start + j * interval))) [1..<Suc (Suc k)] =
      map (\<lambda>j. (others, Tick (start + j * interval))) [1..<Suc k] @
        [(others, Tick (start + Suc k * interval))]"
    by simp
  have "heartbeat_loop render limit Running [(others, Tick (start + Suc k * interval))] s1 =
      (Stopped, declare_dead (snd (send_write (ping render) (others s1))))"
    using heartbeat_step_tick [OF f(1) room] late by (simp del: heartbeat_step.simps)
  then have "heartbeat_loop render limit Running
        (map (\<lambda>j. (others, Tick (start + j * interval))) [1..<Suc (Suc k)]) s =
      (Stopped, declare_dead (snd (send_write (ping render) (others s1))))"
    unfolding split using heartbeat_loop_append [OF s1(1)] by simp
  moreover have "start + Suc k * interval \<le> last_activity s + limit + interval"
    using le_tick [of k] by simp
  ultimately show ?thesis
    using s1(1) by (simp add: declare_dead_def del: upt_Suc)
qed

theorem silence_is_detected_witness:
  "\<exists>s'. heartbeat_loop (\<lambda>_. []) 15 Running (map (\<lambda>j. (id, Tick (0 + j * 5))) [1..<Suc (Suc 3)]) (fresh_shared 1 0 0)
      = (Stopped, s') \<and> \<not> alive s' \<and> connection (holder s') = ConnDisconnected"
proof -
  have "(3::nat) = (last_activity (fresh_shared 1 0 0) + 15 - 0) div 5" by simp
  moreover have "silent_others (id :: shared \<Rightarrow> shared)" by (simp add: silent_others_def)
  ultimately show ?thesis
    using silence_is_detected [of id "fresh_shared 1 0 0" 5 0 15 3 "\<lambda>_. []"]
    by (simp add: channel_def del: upt_Suc heartbeat_loop.simps)
qed

text \<open>Other tasks while the writer hangs: they may queue messages, but none is taken, and they do not
  touch the flag and the connection shown.\<close>

definition writer_hangs :: "('a shared_scheme \<Rightarrow> 'a shared_scheme) \<Rightarrow> bool" where
  "writer_hangs f \<longleftrightarrow>
     (\<forall>s. prefix (buf (write_ch s)) (buf (write_ch (f s))) \<and> cap (write_ch (f s)) = cap (write_ch s) \<and>
        rx_held (write_ch (f s)) = rx_held (write_ch s) \<and>
        alive (f s) = alive s \<and> connection (holder (f s)) = connection (holder s))"

lemma parked_stays:
  assumes "writer_hangs f" and "x \<in> set (chan_parked (write_ch s))"
  shows "x \<in> set (chan_parked (write_ch (f s)))"
proof -
  obtain ys where "buf (write_ch (f s)) = buf (write_ch s) @ ys" "cap (write_ch (f s)) = cap (write_ch s)"
    using assms(1) unfolding writer_hangs_def by (metis prefixE)
  with assms(2) show ?thesis by (simp add: chan_parked_def)
qed

lemma blocked_stays:
  assumes "list_all (\<lambda>(others, wake). writer_hangs others) ws"
    and "ping render \<in> set (chan_parked (write_ch s))" and "rx_held (write_ch s)"
  shows "\<exists>s'. heartbeat_loop render limit Blocked ws s = (Blocked, s') \<and> alive s' = alive s \<and>
     connection (holder s') = connection (holder s)"
  using assms
proof (induction ws arbitrary: s)
  case (Cons w ws)
  obtain others wake where w: "w = (others, wake)" by (cases w)
  have h: "writer_hangs others" using Cons.prems(1) w by simp
  have p: "ping render \<in> set (chan_parked (write_ch (others s)))" by (rule parked_stays) fact+
  have f: "rx_held (write_ch (others s))" "alive (others s) = alive s"
    "connection (holder (others s)) = connection (holder s)"
    using h Cons.prems(3) by (simp_all add: writer_hangs_def)
  have step: "heartbeat_step render limit Blocked wake (others s) = (Blocked, others s)"
    using p f(1) by (cases wake) simp_all
  from Cons.IH [OF _ p f(1)] Cons.prems(1) show ?case by (simp add: w step f)
qed simp

text \<open>C34. A full write channel hides the silence. If the writer hangs in a write and the write channel is
  full when the interval ticks, the heartbeat waits for room inside its select arm: from then on, as long
  as the writer hangs, neither a tick however late nor the cancellation of its token moves it, and it
  never declares the device dead, whatever the timeout.\<close>

theorem full_channel_hides_silence:
  assumes "writer_hangs others" and "list_all (\<lambda>(others, wake). writer_hangs others) ws"
    and "rx_held (write_ch s)" and "chan_full (write_ch s)"
  shows "\<exists>s'. heartbeat_loop render limit Running ((others, Tick now) # ws) s = (Blocked, s') \<and>
     alive s' = alive s \<and> connection (holder s') = connection (holder s)"
proof -
  let ?s = "snd (send_write (ping render) (others s))"
  have f: "rx_held (write_ch (others s))" "alive (others s) = alive s"
    "connection (holder (others s)) = connection (holder s)" "chan_full (write_ch (others s))"
    using assms(1,3,4) by (auto simp: writer_hangs_def chan_full_def dest!: spec [of _ s] dest: prefix_length_le)
  then have step: "heartbeat_step render limit Running (Tick now) (others s) = (Blocked, ?s)"
    by (simp add: send_write_def chan_send_def)
  have "ping render \<in> set (chan_parked (write_ch ?s))"
    using f(1,4) by (simp add: chan_parked_def chan_full_def)
  moreover have "rx_held (write_ch ?s)" using f(1) by simp
  ultimately show ?thesis
    using blocked_stays [OF assms(2), of render ?s limit] f by (simp add: step del: heartbeat_step.simps)
qed

text \<open>Two ticks, far past the timeout, and a cancellation do not move it.\<close>

theorem full_channel_hides_silence_witness:
  "fst (heartbeat_loop (\<lambda>_. []) 15 Running [(id, Tick 20), (id, Tick 1000), (id, HbCancelled)]
      ((fresh_shared 1 0 0)\<lparr>write_ch := (channel 1)\<lparr>buf := [ping (\<lambda>_. [])]\<rparr>\<rparr>)) = Blocked"
proof -
  have "writer_hangs (id :: shared \<Rightarrow> shared)" by (simp add: writer_hangs_def)
  then show ?thesis
    using full_channel_hides_silence [where others = id and ws = "[(id, Tick 1000), (id, HbCancelled)]"
        and s = "(fresh_shared 1 0 0)\<lparr>write_ch := (channel 1)\<lparr>buf := [ping (\<lambda>_. [])]\<rparr>\<rparr>"
        and render = "\<lambda>_. []" and limit = 15 and now = 20]
    by (auto simp: channel_def chan_full_def simp del: heartbeat_loop.simps)
qed

end
