(* ===== verification/Status.thy ===== *)
theory Status
  imports Channels
begin

text \<open>
  The parsers of \<open>client/router.rs\<close>: what a \<open>RECEIVER_STATUS\<close> and a \<open>MEDIA_STATUS\<close> value mean.
  A \<open>?\<close> on an \<open>Option\<close> is a bind, so a missing required field makes the whole parse \<open>None\<close>.
\<close>

section \<open>Images and metadata\<close>

definition parse_image :: "json \<Rightarrow> image option" where
  "parse_image img = do {
     url \<leftarrow> get_str ''url'' img;
     Some \<lparr>img_url = url,
           img_width = map_option ucast (get_u64 ''width'' img),
           img_height = map_option ucast (get_u64 ''height'' img)\<rparr> }"

definition parse_images :: "json \<Rightarrow> image list" where
  "parse_images meta =
     unwrap_or [] (map_option (List.map_filter parse_image) (get_array ''images'' meta))"

definition parse_metadata :: "json \<Rightarrow> media_metadata option" where
  "parse_metadata meta =
     (let metadata_type = unwrap_or 0 (get_u64 ''metadataType'' meta);
          images = parse_images meta
      in if metadata_type = METADATA_GENERIC then
           Some (Generic (get_str ''title'' meta) (get_str ''subtitle'' meta) images)
         else if metadata_type = METADATA_MOVIE then
           Some (Movie (get_str ''title'' meta) (get_str ''subtitle'' meta) (get_str ''studio'' meta)
             images)
         else if metadata_type = METADATA_TV_SHOW then
           Some (TvShow (get_str ''seriesTitle'' meta)
             (Option.bind (or_else (jget ''episodeTitle'' meta) (jget ''title'' meta)) as_str)
             (map_option ucast (get_u64 ''season'' meta))
             (map_option ucast (get_u64 ''episode'' meta)) images)
         else if metadata_type = METADATA_MUSIC_TRACK then
           Some (MusicTrack (get_str ''title'' meta)
             (Option.bind (or_else (jget ''artist'' meta) (jget ''albumArtist'' meta)) as_str)
             (get_str ''albumName'' meta) (get_str ''composer'' meta)
             (map_option ucast (get_u64 ''trackNumber'' meta))
             (map_option ucast (get_u64 ''discNumber'' meta)) images)
         else if metadata_type = METADATA_PHOTO then
           Some (Photo (get_str ''title'' meta) (get_str ''artist'' meta) (get_str ''location'' meta)
             (get_f64 ''latitude'' meta) (get_f64 ''longitude'' meta)
             (map_option ucast (get_u64 ''width'' meta))
             (map_option ucast (get_u64 ''height'' meta)) images)
         else if metadata_type = METADATA_AUDIOBOOK_CHAPTER then
           Some (AudiobookChapter (get_str ''bookTitle'' meta) (get_str ''chapterTitle'' meta)
             (map_option ucast (get_u64 ''chapterNumber'' meta)) (get_str ''subtitle'' meta) images)
         else
           Some (Generic (get_str ''title'' meta) (get_str ''subtitle'' meta) images))"

section \<open>Receiver status\<close>

definition parse_namespaces :: "json \<Rightarrow> string list" where
  "parse_namespaces app =
     unwrap_or []
       (map_option (List.map_filter (get_str ''name'')) (get_array ''namespaces'' app))"

definition parse_application :: "json \<Rightarrow> application option" where
  "parse_application app = do {
     aid \<leftarrow> get_str ''appId'' app;
     sid \<leftarrow> get_str ''sessionId'' app;
     tid \<leftarrow> get_str ''transportId'' app;
     Some \<lparr>app_id = aid,
           display_name = unwrap_or [] (get_str ''displayName'' app),
           app_session_id = sid,
           app_transport_id = tid,
           app_namespaces = parse_namespaces app,
           status_text = unwrap_or [] (get_str ''statusText'' app)\<rparr> }"

definition parse_receiver_status :: "json \<Rightarrow> receiver_status option" where
  "parse_receiver_status j = do {
     status \<leftarrow> jget ''status'' j;
     volume_obj \<leftarrow> jget ''volume'' status;
     Some \<lparr>rs_volume =
             \<lparr>vol_level = f64_to_f32 (unwrap_or F64_ONE (get_f64 ''level'' volume_obj)),
              vol_muted = unwrap_or False (get_bool ''muted'' volume_obj)\<rparr>,
           rs_applications =
             unwrap_or []
               (map_option (List.map_filter parse_application) (get_array ''applications'' status)),
           is_active_input = unwrap_or False (get_bool ''isActiveInput'' status),
           is_stand_by = unwrap_or False (get_bool ''isStandBy'' status)\<rparr> }"

section \<open>Media status\<close>

definition parse_player_state :: "string \<Rightarrow> player_state option" where
  "parse_player_state s =
     (if s = ''IDLE'' then Some Idle
      else if s = ''PLAYING'' then Some Playing
      else if s = ''PAUSED'' then Some Paused
      else if s = ''BUFFERING'' then Some Buffering
      else None)"

definition parse_idle_reason :: "string \<Rightarrow> idle_reason option" where
  "parse_idle_reason s =
     (if s = ''CANCELLED'' then Some Cancelled
      else if s = ''INTERRUPTED'' then Some Interrupted
      else if s = ''FINISHED'' then Some Finished
      else if s = ''ERROR'' then Some IdleError
      else None)"

definition parse_stream_type :: "string \<Rightarrow> stream_type" where
  "parse_stream_type s =
     (if s = ''BUFFERED'' then Buffered else if s = ''LIVE'' then Live else StreamNone)"

definition parse_media_info :: "json \<Rightarrow> media_info option" where
  "parse_media_info m = do {
     cid \<leftarrow> get_str ''contentId'' m;
     Some \<lparr>content_id = cid,
           content_type = unwrap_or [] (get_str ''contentType'' m),
           stream_type = parse_stream_type (unwrap_or [] (get_str ''streamType'' m)),
           mi_duration = opt_filter f64_gt_zero (get_f64 ''duration'' m),
           mi_metadata = Option.bind (jget ''metadata'' m) parse_metadata\<rparr> }"

definition parse_media_status :: "json \<Rightarrow> media_status option" where
  "parse_media_status j = do {
     entries \<leftarrow> get_array ''status'' j;
     entry \<leftarrow> (case entries of [] \<Rightarrow> None | e # _ \<Rightarrow> Some e);
     ps \<leftarrow> get_str ''playerState'' entry;
     state \<leftarrow> parse_player_state ps;
     msid \<leftarrow> get_i64 ''mediaSessionId'' entry;
     (let volume_obj = jget ''volume'' entry
      in Some \<lparr>media_session_id = ucast msid,
               player_state = state,
               idle_reason = Option.bind (get_str ''idleReason'' entry) parse_idle_reason,
               current_time = unwrap_or F64_ZERO (get_f64 ''currentTime'' entry),
               ms_duration = opt_filter f64_gt_zero
                 (Option.bind (jget ''media'' entry) (get_f64 ''duration'')),
               ms_volume =
                 \<lparr>vol_level = f64_to_f32 (unwrap_or F64_ONE (Option.bind volume_obj (get_f64 ''level''))),
                  vol_muted = unwrap_or False (Option.bind volume_obj (get_bool ''muted''))\<rparr>,
               ms_media = Option.bind (jget ''media'' entry) parse_media_info\<rparr>) }"


section \<open>What is sent is read back\<close>

lemma parse_image_serialize_image [simp]: "parse_image (serialize_image i) = Some i"
  by (cases i) (auto simp: parse_image_def serialize_image_def Let_def comp_def split: option.splits)

lemma parse_images_serialize_images:
  "jget ''images'' v = Some (serialize_images is) \<Longrightarrow> parse_images v = is"
  by (simp add: parse_images_def serialize_images_def map_filter_map_Some)

lemma metadata_type_simps [simp]: "as_u64 (metadata_type n) = Some (of_nat n)"
  by (simp add: as_u64_def metadata_type_def)

lemma as_f64_of_f64_bind: "Option.bind x (\<lambda>d. as_f64 (of_f64 d)) = opt_filter f64_is_finite x"
  by (cases x) simp_all

text \<open>A coordinate that is not a finite number travels as null, so it is lost.\<close>

fun wire_metadata :: "media_metadata \<Rightarrow> media_metadata" where
  "wire_metadata (Photo title artist location latitude longitude width height images) =
     Photo title artist location (opt_filter f64_is_finite latitude)
       (opt_filter f64_is_finite longitude) width height images"
| "wire_metadata m = m"

definition wire_media_info :: "media_info \<Rightarrow> media_info" where
  "wire_media_info m =
     m\<lparr>mi_duration := opt_filter (\<lambda>d. f64_is_finite d \<and> f64_gt_zero d) (mi_duration m),
       mi_metadata := map_option wire_metadata (mi_metadata m)\<rparr>"

lemma metadata_roundtrip: "parse_metadata (serialize_metadata m) = Some (wire_metadata m)"
proof -
  have img: "parse_images (jput ''images'' (serialize_images is) v) = is" if "is_obj v" for "is" v
    by (rule parse_images_serialize_images) (simp add: that)
  show ?thesis
    by (cases m) (simp_all add: parse_metadata_def Let_def img ns_simps as_f64_of_f64_bind)
qed

lemma parse_stream_type_name [simp]: "parse_stream_type (stream_type_name t) = t"
  by (cases t) (simp_all add: parse_stream_type_def)

lemma opt_filter_finite:
  "opt_filter P (opt_filter f64_is_finite x) = opt_filter (\<lambda>d. f64_is_finite d \<and> P d) x"
  by (cases x) simp_all

lemma parse_media_object: "parse_media_info (media_object m) = Some (wire_media_info m)"
  by (cases "mi_duration m"; cases "mi_metadata m")
    (simp_all add: parse_media_info_def media_object_def Let_def wire_media_info_def metadata_roundtrip
      opt_filter_finite as_f64_of_f64_bind flip: opt_filter_finite)

text \<open>C27. Media information survives the trip to the device and back: the \<open>media\<close> object a \<open>LOAD\<close>
  request carries is read back, in the status the device broadcasts, as the same content, stream
  type, duration and metadata; all that is lost is a duration that is not positive and finite and a
  coordinate of a photo that is not finite. The metadata alone come back in the same variant with
  the same fields.\<close>

theorem media_roundtrip:
  "parse_media_info (media_object m) = Some (wire_media_info m) \<and>
   Option.bind (jget ''media'' (load_payload i sid m autoplay t d)) parse_media_info =
     Some (wire_media_info m) \<and>
   parse_metadata (serialize_metadata meta) = Some (wire_metadata meta)"
  by (simp add: parse_media_object metadata_roundtrip load_payload_def)

end
