(* ===== verification/Router.thy ===== *)
theory Router
  imports Heartbeat Status
begin

text \<open>
  \<open>client/router.rs\<close>: what one inbound message does to the shared state. The parser of the JSON
  text is the parameter \<open>parse\<close> (\<open>serde_json::from_str\<close>, \<open>None\<close> for an error).
\<close>

type_synonym parser = "string \<Rightarrow> json option"

section \<open>Dispatch\<close>

datatype media_message_type = MStatus | MLoadFailed | MLoadCancelled | MInvalidRequest | MUnknown

definition classify_media_message :: "string \<Rightarrow> media_message_type" where
  "classify_media_message msg_type =
     (if msg_type = MSG_MEDIA_STATUS then MStatus
      else if msg_type = MSG_LOAD_FAILED then MLoadFailed
      else if msg_type = MSG_LOAD_CANCELLED then MLoadCancelled
      else if msg_type = MSG_INVALID_REQUEST then MInvalidRequest
      else MUnknown)"

text \<open>\<open>json.get("requestId").and_then(as_u64)\<close> when positive; it is cut to 32 bits for the tracker.\<close>

definition positive_request_id :: "json \<Rightarrow> u64 option" where
  "positive_request_id j = opt_filter (\<lambda>n. 0 < n) (get_u64 ''requestId'' j)"

definition resolve_correlated :: "json \<Rightarrow> 'a shared_scheme \<Rightarrow> 'a shared_scheme" where
  "resolve_correlated j s =
     (case positive_request_id j of
        Some request_id \<Rightarrow> on_tracker (\<lambda>t. snd (resolve (ucast request_id) j t)) s
      | None \<Rightarrow> s)"

definition route_heartbeat :: "render \<Rightarrow> cast_message \<Rightarrow> 'a shared_scheme \<Rightarrow> 'a shared_scheme" where
  "route_heartbeat render msg s = (if is_ping msg then snd (send_write (pong render) s) else s)"

definition raw_message :: "string \<Rightarrow> cast_message \<Rightarrow> cast_event" where
  "raw_message ns msg =
     EvRawMessage ns (source_id msg) (destination_id msg) (unwrap_or [] (payload_utf8 msg))"

definition route_connection :: "cast_message \<Rightarrow> json \<Rightarrow> 'a shared_scheme \<Rightarrow> 'a shared_scheme" where
  "route_connection msg j s =
     (if get_str ''type'' j = Some ''CLOSE'' then send_event (raw_message NS_CONNECTION msg) s
      else s)"

definition route_receiver :: "json \<Rightarrow> 'a shared_scheme \<Rightarrow> 'a shared_scheme" where
  "route_receiver j s =
     (let s1 = resolve_correlated j s
      in if unwrap_or [] (get_str ''type'' j) = MSG_RECEIVER_STATUS then
           (case parse_receiver_status j of
              Some status \<Rightarrow> send_event (EvReceiverStatusChanged status)
                (watch_receiver (Some status) s1)
            | None \<Rightarrow> s1)
         else s1)"

definition session_ended :: "media_status \<Rightarrow> idle_reason option" where
  "session_ended status =
     (if player_state status = Idle \<and> 0 < sint (media_session_id status)
      then idle_reason status else None)"

definition handle_media_status :: "media_status \<Rightarrow> 'a shared_scheme \<Rightarrow> 'a shared_scheme" where
  "handle_media_status status s =
     (let s1 = (if 0 < sint (media_session_id status)
                then store_session (media_session_id status) s else s);
          s2 = (case session_ended status of
                  Some reason \<Rightarrow> send_event (EvMediaSessionEnded (media_session_id status) reason) s1
                | None \<Rightarrow> s1);
          s3 = watch_media (Some status) s2
      in send_event (EvMediaStatusChanged status) s3)"

definition route_media :: "json \<Rightarrow> 'a shared_scheme \<Rightarrow> 'a shared_scheme" where
  "route_media j s =
     (let classified = classify_media_message (unwrap_or [] (get_str ''type'' j));
          s1 = (if classified = MStatus then resolve_correlated j s else s)
      in case classified of
           MStatus \<Rightarrow>
             (case parse_media_status j of Some status \<Rightarrow> handle_media_status status s1 | None \<Rightarrow> s1)
         | MLoadFailed \<Rightarrow> resolve_correlated j s1
         | MLoadCancelled \<Rightarrow> resolve_correlated j s1
         | MInvalidRequest \<Rightarrow> resolve_correlated j s1
         | MUnknown \<Rightarrow> s1)"

definition route_other ::
    "cast_message \<Rightarrow> json option \<Rightarrow> 'a shared_scheme \<Rightarrow> 'a shared_scheme" where
  "route_other msg parsed s =
     (let raw = send_event (raw_message (namespace msg) msg) s
      in case parsed of
           Some j \<Rightarrow>
             (case positive_request_id j of
                Some request_id \<Rightarrow> on_tracker (\<lambda>t. snd (resolve (ucast request_id) j t)) s
              | None \<Rightarrow> raw)
         | None \<Rightarrow> raw)"

definition route ::
    "parser \<Rightarrow> render \<Rightarrow> cast_message \<Rightarrow> 'a shared_scheme \<Rightarrow> 'a shared_scheme" where
  "route parse render msg s =
     (let payload_str = unwrap_or [] (payload_utf8 msg)
      in if namespace msg = NS_HEARTBEAT then route_heartbeat render msg s
         else if namespace msg = NS_CONNECTION then
           (case parse payload_str of Some j \<Rightarrow> route_connection msg j s | None \<Rightarrow> s)
         else if namespace msg = NS_RECEIVER then
           (case parse payload_str of Some j \<Rightarrow> route_receiver j s | None \<Rightarrow> s)
         else if namespace msg = NS_MEDIA then
           (case parse payload_str of Some j \<Rightarrow> route_media j s | None \<Rightarrow> s)
         else route_other msg (parse payload_str) s)"

definition route_all ::
    "parser \<Rightarrow> render \<Rightarrow> cast_message list \<Rightarrow> 'a shared_scheme \<Rightarrow> 'a shared_scheme" where
  "route_all parse render msgs s = fold (route parse render) msgs s"

lemma route_all_simps [simp]:
  "route_all parse render [] s = s"
  "route_all parse render (m # ms) s = route_all parse render ms (route parse render m s)"
  "route_all parse render (xs @ ys) s = route_all parse render ys (route_all parse render xs s)"
  by (simp_all add: route_all_def)

section \<open>What a message answers\<close>

text \<open>
  The specification of the correlation: the request a message answers, if any, and the value the
  request is answered with. The receiver channel and custom namespaces correlate every object with
  a positive \<open>requestId\<close>, the media channel only the four types it knows, the heartbeat and the
  connection channel none.
\<close>

definition answer_of :: "parser \<Rightarrow> cast_message \<Rightarrow> (u32 \<times> json) option" where
  "answer_of parse msg =
     (if namespace msg = NS_HEARTBEAT \<or> namespace msg = NS_CONNECTION then None
      else do {
        j \<leftarrow> parse (unwrap_or [] (payload_utf8 msg));
        n \<leftarrow> positive_request_id j;
        (if namespace msg = NS_MEDIA \<and>
            classify_media_message (unwrap_or [] (get_str ''type'' j)) = MUnknown
         then None else Some (ucast n, j)) })"

lemma resolve_correlated_eq:
  "resolve_correlated j s =
     on_tracker (case positive_request_id j of
         Some n \<Rightarrow> (\<lambda>t. snd (resolve (ucast n) j t)) | None \<Rightarrow> id) s"
  by (cases s) (simp add: resolve_correlated_def on_tracker_def split: option.splits)

lemma resolve_correlated_frame [simp]:
  "event_ch (resolve_correlated j s) = event_ch s" "write_ch (resolve_correlated j s) = write_ch s"
  "holder (resolve_correlated j s) = holder s" "alive (resolve_correlated j s) = alive s"
  "last_activity (resolve_correlated j s) = last_activity s"
  by (simp_all add: resolve_correlated_eq)

lemma handle_media_status_frame [simp]:
  "request_tracker (handle_media_status st s) = request_tracker s"
  "write_ch (handle_media_status st s) = write_ch s" "alive (handle_media_status st s) = alive s"
  "last_activity (handle_media_status st s) = last_activity s"
  "holder (handle_media_status st s) = (holder s)
     \<lparr>media := Some st,
      media_session := (if 0 < sint (media_session_id st) then media_session_id st
                        else media_session (holder s))\<rparr>"
  by (auto simp: handle_media_status_def Let_def split: option.splits)

lemma namespace_cases:
  obtains (Heartbeat) "namespace msg = NS_HEARTBEAT" | (Connection) "namespace msg = NS_CONNECTION"
    | (Receiver) "namespace msg = NS_RECEIVER" | (Media) "namespace msg = NS_MEDIA"
    | (Other) "namespace msg \<notin> {NS_HEARTBEAT, NS_CONNECTION, NS_RECEIVER, NS_MEDIA}"
  by blast

text \<open>The branch of \<open>route\<close> each namespace takes.\<close>

lemma route_at:
  "namespace msg = NS_HEARTBEAT \<Longrightarrow> route parse render msg s = route_heartbeat render msg s"
  "namespace msg = NS_CONNECTION \<Longrightarrow> route parse render msg s =
     (case parse (unwrap_or [] (payload_utf8 msg)) of Some j \<Rightarrow> route_connection msg j s | None \<Rightarrow> s)"
  "namespace msg = NS_RECEIVER \<Longrightarrow> route parse render msg s =
     (case parse (unwrap_or [] (payload_utf8 msg)) of Some j \<Rightarrow> route_receiver j s | None \<Rightarrow> s)"
  "namespace msg = NS_MEDIA \<Longrightarrow> route parse render msg s =
     (case parse (unwrap_or [] (payload_utf8 msg)) of Some j \<Rightarrow> route_media j s | None \<Rightarrow> s)"
  "namespace msg \<notin> {NS_HEARTBEAT, NS_CONNECTION, NS_RECEIVER, NS_MEDIA} \<Longrightarrow>
     route parse render msg s = route_other msg (parse (unwrap_or [] (payload_utf8 msg))) s"
  by (simp_all add: route_def Let_def)

text \<open>What each branch does to a field.\<close>

lemma route_heartbeat_frame [simp]:
  "request_tracker (route_heartbeat render msg s) = request_tracker s"
  "event_ch (route_heartbeat render msg s) = event_ch s"
  "write_ch (route_heartbeat render msg s) =
     (if is_ping msg then snd (chan_send (pong render) (write_ch s)) else write_ch s)"
  "holder (route_heartbeat render msg s) = holder s" "alive (route_heartbeat render msg s) = alive s"
  "last_activity (route_heartbeat render msg s) = last_activity s"
  by (simp_all add: route_heartbeat_def)

lemma route_connection_frame [simp]:
  "request_tracker (route_connection msg j s) = request_tracker s"
  "write_ch (route_connection msg j s) = write_ch s" "holder (route_connection msg j s) = holder s"
  "alive (route_connection msg j s) = alive s"
  "last_activity (route_connection msg j s) = last_activity s"
  by (simp_all add: route_connection_def)

lemma route_receiver_frame [simp]:
  "request_tracker (route_receiver j s) = request_tracker (resolve_correlated j s)"
  "write_ch (route_receiver j s) = write_ch s" "alive (route_receiver j s) = alive s"
  "last_activity (route_receiver j s) = last_activity s"
  "connection (holder (route_receiver j s)) = connection (holder s)"
  "media (holder (route_receiver j s)) = media (holder s)"
  "media_session (holder (route_receiver j s)) = media_session (holder s)"
  by (simp_all add: route_receiver_def Let_def split: option.splits)

lemma route_media_frame [simp]:
  "write_ch (route_media j s) = write_ch s" "alive (route_media j s) = alive s"
  "last_activity (route_media j s) = last_activity s"
  "connection (holder (route_media j s)) = connection (holder s)"
  by (simp_all add: route_media_def Let_def split: option.splits media_message_type.splits)

lemma route_other_frame [simp]:
  "write_ch (route_other msg p s) = write_ch s" "alive (route_other msg p s) = alive s"
  "last_activity (route_other msg p s) = last_activity s" "holder (route_other msg p s) = holder s"
  by (simp_all add: route_other_def Let_def split: option.splits)

text \<open>The tracker sees of a message exactly its answer.\<close>

lemma request_tracker_resolve_correlated:
  "request_tracker (resolve_correlated j s) =
     (case positive_request_id j of
        Some n \<Rightarrow> snd (resolve (ucast n) j (request_tracker s)) | None \<Rightarrow> request_tracker s)"
  by (simp add: resolve_correlated_eq split: option.splits)

lemma request_tracker_route_media:
  "request_tracker (route_media j s) =
     (if classify_media_message (unwrap_or [] (get_str ''type'' j)) = MUnknown
      then request_tracker s else request_tracker (resolve_correlated j s))"
  by (simp add: route_media_def Let_def split: option.splits media_message_type.splits)

lemma request_tracker_route:
  "request_tracker (route parse render msg s) =
     (case answer_of parse msg of
        Some (i, v) \<Rightarrow> snd (resolve i v (request_tracker s))
      | None \<Rightarrow> request_tracker s)"
proof (cases msg rule: namespace_cases)
  case Media
  then show ?thesis
    by (simp add: route_at answer_of_def request_tracker_route_media
        request_tracker_resolve_correlated split: option.splits)
next
  case Other
  then show ?thesis
    by (simp add: route_at route_other_def answer_of_def Let_def split: option.splits)
qed (simp_all add: route_at answer_of_def request_tracker_resolve_correlated split: option.splits)

lemma request_tracker_route_all:
  "request_tracker (route_all parse render msgs s) =
     registry.answers (List.map_filter (answer_of parse) msgs) (request_tracker s)"
proof (induction msgs arbitrary: s)
  case (Cons m ms)
  then show ?case
    by (simp add: request_tracker_route map_filter_simps split: option.splits prod.splits)
qed (simp add: map_filter_simps)

lemma tracker_inv_route:
  "tracker_inv (request_tracker s) \<Longrightarrow> tracker_inv (request_tracker (route parse render msg s))"
  by (simp add: request_tracker_route tracker_inv_resolve split: option.splits)

lemma tracker_inv_route_all:
  "tracker_inv (request_tracker s) \<Longrightarrow>
     tracker_inv (request_tracker (route_all parse render msgs s))"
  by (induction msgs arbitrary: s) (simp_all add: tracker_inv_route)

section \<open>What a message reports\<close>

text \<open>The specification of the events: those a message offers to the event channel, in order. It is
  written from the fields of the message and the parsed status alone.\<close>

definition relayed :: "cast_message \<Rightarrow> cast_event" where
  "relayed msg =
     EvRawMessage (namespace msg) (source_id msg) (destination_id msg)
       (case payload_utf8 msg of Some txt \<Rightarrow> txt | None \<Rightarrow> [])"

definition status_events :: "media_status \<Rightarrow> cast_event list" where
  "status_events st =
     (if player_state st = Idle \<and> idle_reason st \<noteq> None \<and> 0 < sint (media_session_id st)
      then [EvMediaSessionEnded (media_session_id st) (the (idle_reason st))] else [])
     @ [EvMediaStatusChanged st]"

definition reports :: "parser \<Rightarrow> cast_message \<Rightarrow> cast_event list" where
  "reports parse msg =
     (case parse (unwrap_or [] (payload_utf8 msg)) of
        None \<Rightarrow>
          (if namespace msg \<in> {NS_HEARTBEAT, NS_CONNECTION, NS_RECEIVER, NS_MEDIA} then []
           else [relayed msg])
      | Some j \<Rightarrow>
          (if namespace msg = NS_HEARTBEAT then []
           else if namespace msg = NS_CONNECTION then
             (if get_str ''type'' j = Some ''CLOSE'' then [relayed msg] else [])
           else if namespace msg = NS_RECEIVER then
             (if get_str ''type'' j = Some MSG_RECEIVER_STATUS then
                (case parse_receiver_status j of
                   Some st \<Rightarrow> [EvReceiverStatusChanged st] | None \<Rightarrow> [])
              else [])
           else if namespace msg = NS_MEDIA then
             (if get_str ''type'' j = Some MSG_MEDIA_STATUS then
                (case parse_media_status j of Some st \<Rightarrow> status_events st | None \<Rightarrow> [])
              else [])
           else (case get_u64 ''requestId'' j of
                   Some n \<Rightarrow> if 0 < n then [] else [relayed msg]
                 | None \<Rightarrow> [relayed msg])))"

lemma raw_message_relayed: "raw_message (namespace msg) msg = relayed msg"
  by (simp add: raw_message_def relayed_def unwrap_or_def split: option.split)

lemma status_events_session:
  "status_events st =
     (case session_ended st of Some reason \<Rightarrow> [EvMediaSessionEnded (media_session_id st) reason] | None \<Rightarrow> [])
     @ [EvMediaStatusChanged st]"
  by (auto simp: status_events_def session_ended_def split: option.split)

definition offer :: "cast_event list \<Rightarrow> cast_event chan \<Rightarrow> cast_event chan" where
  "offer es c = fold chan_try_send es c"

lemma offer_simps [simp]:
  "offer [] c = c" "offer (e # es) c = offer es (chan_try_send e c)"
  by (simp_all add: offer_def)

lemma classify_status [simp]: "classify_media_message x = MStatus \<longleftrightarrow> x = MSG_MEDIA_STATUS"
  by (simp add: classify_media_message_def ns_simps)

lemma classify_media_status [simp]: "classify_media_message MSG_MEDIA_STATUS = MStatus"
  by simp

lemma msg_type_unwrap [simp]:
  "unwrap_or [] (get_str ''type'' j) = MSG_RECEIVER_STATUS \<longleftrightarrow>
     get_str ''type'' j = Some MSG_RECEIVER_STATUS"
  "unwrap_or [] (get_str ''type'' j) = MSG_MEDIA_STATUS \<longleftrightarrow>
     get_str ''type'' j = Some MSG_MEDIA_STATUS"
  by (cases "get_str ''type'' j"; simp add: MSG_RECEIVER_STATUS_def ns_simps)+

lemma event_ch_handle_media_status:
  "event_ch (handle_media_status st s) =
     offer (status_events st) (event_ch s)"
  by (simp add: handle_media_status_def status_events_session Let_def split: option.splits)

lemma event_ch_route_media:
  "event_ch (route_media j s) =
     offer (if get_str ''type'' j = Some MSG_MEDIA_STATUS then
              (case parse_media_status j of Some st \<Rightarrow> status_events st | None \<Rightarrow> [])
            else []) (event_ch s)"
proof (cases "get_str ''type'' j = Some MSG_MEDIA_STATUS")
  case True
  then show ?thesis
    by (simp add: route_media_def Let_def event_ch_handle_media_status split: option.splits)
next
  case False
  then have "classify_media_message (unwrap_or [] (get_str ''type'' j)) \<noteq> MStatus"
    by simp
  with False show ?thesis
    by (auto simp: route_media_def Let_def split: media_message_type.splits)
qed

lemma event_ch_route: "event_ch (route parse render msg s) = offer (reports parse msg) (event_ch s)"
proof (cases msg rule: namespace_cases)
  case Connection
  then show ?thesis
    using raw_message_relayed [of msg]
    by (simp add: route_at reports_def route_connection_def split: option.splits)
next
  case Receiver
  then show ?thesis
    by (simp add: route_at reports_def route_receiver_def Let_def split: option.splits)
next
  case Other
  then show ?thesis
    by (auto simp: route_at reports_def route_other_def positive_request_id_def opt_filter_def
        raw_message_relayed Let_def split: option.splits if_splits)
qed (simp_all add: route_at reports_def event_ch_route_media split: option.splits)

lemma offer_room:
  "rx_held c \<Longrightarrow> tx_held c \<Longrightarrow> length (buf c) + length es \<le> cap c \<Longrightarrow> buf (offer es c) = buf c @ es"
  by (induction es arbitrary: c) (auto simp: chan_try_send_room)

lemma set_offer: "set (buf (offer es c)) \<subseteq> set (buf c) \<union> set es"
proof (induction es arbitrary: c)
  case (Cons e es)
  then show ?case using set_chan_try_send [of e c] by fastforce
qed simp

lemma offer_bounded: "length (buf c) \<le> cap c \<Longrightarrow> length (buf (offer es c)) \<le> cap c"
proof (induction es arbitrary: c)
  case (Cons e es)
  then show ?case using chan_try_send_bounded [of c e] by simp (metis chan_try_send_simps(1))
qed simp

section \<open>Correctness\<close>

text \<open>C1. The first answer wins. While request \<open>i\<close> waits, let the router process any messages; then
  its channel holds the payload of the first of them that answers \<open>i\<close> (its \<open>requestId\<close>, cut to 32
  bits, is \<open>i\<close>), later answers and other requests' answers have no effect on it, and it still waits
  when there is none.\<close>

theorem first_answer_reaches_request:
  assumes "tracker_inv (request_tracker s)" and "pending (request_tracker s) i = Some c"
  shows "senders (request_tracker (route_all parse render msgs s)) c =
     Some (case map_of (List.map_filter (answer_of parse) msgs) i of Some v \<Rightarrow> Sent v | None \<Rightarrow> Held)"
  unfolding request_tracker_route_all by (rule registry.first_answer_wins [OF assms])

text \<open>A request that waits, and the messages that may answer it.\<close>

definition sample_parse :: parser where
  "sample_parse txt =
     (if txt = ''one'' then Some (jobj [(''requestId'', of_u32 1), (''n'', Bool True)])
      else if txt = ''again'' then Some (jobj [(''requestId'', of_u32 1), (''n'', Bool False)])
      else if txt = ''seven'' then Some (jobj [(''requestId'', of_u32 7)])
      else None)"

definition one_waiting :: shared where
  "one_waiting = on_tracker (\<lambda>t. snd (register t)) (fresh_shared 8 10 0)"

lemma one_waiting_tracker:
  "tracker_inv (request_tracker one_waiting)" "pending (request_tracker one_waiting) = [1 \<mapsto> 0]"
  using tracker_inv_register [OF tracker_inv_new [of 10]]
  by (simp_all add: one_waiting_def register_eq tracker_new_def next_id_def)

theorem first_answer_reaches_request_witness:
  "senders (request_tracker (route_all sample_parse (\<lambda>_. [])
       [build_message NS_RECEIVER RECEIVER_ID SENDER_ID ''seven'',
        build_message NS_RECEIVER RECEIVER_ID SENDER_ID ''one'',
        build_message ''urn:x-custom'' RECEIVER_ID SENDER_ID ''again''] one_waiting)) 0
     = Some (Sent (jobj [(''requestId'', of_u32 1), (''n'', Bool True)]))"
proof -
  have "pending (request_tracker one_waiting) 1 = Some 0" by (simp add: one_waiting_tracker)
  from first_answer_reaches_request [OF one_waiting_tracker(1) this] show ?thesis
    by (simp add: answer_of_def sample_parse_def positive_request_id_def map_filter_simps ns_simps
        namespace_defs of_u32_def as_u64_def del: route_all_simps)
qed

text \<open>C28. What a message reports. The events offered to the user are exactly those of the
  specification \<open>reports\<close>, in its order: a close of a virtual channel and an uncorrelated message of
  a custom namespace as a raw message with the same addresses and text, a status that parses as a
  status event (preceded by the end of its session when it is idle with a reason and its session
  identifier is positive), and nothing else. With room in the channel they are all delivered, and without it the channel stays within
  its capacity.\<close>

theorem routed_events:
  "event_ch (route parse render msg s) = offer (reports parse msg) (event_ch s) \<and>
   (rx_held (event_ch s) \<and> tx_held (event_ch s) \<and>
      length (buf (event_ch s)) + length (reports parse msg) \<le> cap (event_ch s) \<longrightarrow>
    buf (event_ch (route parse render msg s)) = buf (event_ch s) @ reports parse msg) \<and>
   (length (buf (event_ch s)) \<le> cap (event_ch s) \<longrightarrow>
    length (buf (event_ch (route parse render msg s))) \<le> cap (event_ch s))"
  using offer_room [of "event_ch s"] offer_bounded [of "event_ch s"]
  by (simp add: event_ch_route)

theorem routed_events_witness:
  "buf (event_ch (route sample_parse (\<lambda>_. [])
      (build_message ''urn:x-custom'' ''app'' SENDER_ID ''hello'') one_waiting))
    = [EvRawMessage ''urn:x-custom'' ''app'' SENDER_ID ''hello'']"
proof -
  have "event_ch one_waiting = channel 8" by (simp add: one_waiting_def)
  then show ?thesis
    using routed_events [of sample_parse "\<lambda>_. []"
        "build_message ''urn:x-custom'' ''app'' SENDER_ID ''hello''" one_waiting]
    by (simp add: reports_def sample_parse_def namespace_defs relayed_def channel_def chan_try_send_def)
qed

lemma holder_route_parts:
  "alive (route parse render msg s) = alive s"
  "last_activity (route parse render msg s) = last_activity s"
  "connection (holder (route parse render msg s)) = connection (holder s)"
  by (cases msg rule: namespace_cases; simp add: route_at split: option.split)+

text \<open>The events that tell of the device, not of the connection.\<close>

fun device_event :: "cast_event \<Rightarrow> bool" where
  "device_event (EvReceiverStatusChanged _) \<longleftrightarrow> True"
| "device_event (EvMediaStatusChanged _) \<longleftrightarrow> True"
| "device_event (EvMediaSessionEnded _ _) \<longleftrightarrow> True"
| "device_event (EvRawMessage _ _ _ _) \<longleftrightarrow> True"
| "device_event _ \<longleftrightarrow> False"

lemma reports_kinds: "list_all device_event (reports parse msg)"
  by (cases msg rule: namespace_cases)
    (auto simp: reports_def relayed_def status_events_def split: option.split)

text \<open>Routing never ends a connection. Whatever messages arrive, \<open>CLOSE\<close> and malformed ones
  included, the router leaves the alive flag, the liveness clock and the connection watcher alone,
  and emits no \<open>Connected\<close>, \<open>Disconnected\<close>, \<open>Reconnecting\<close>, \<open>Reconnected\<close> or \<open>HeartbeatTimeout\<close>
  event; only the reader and the heartbeat task report a lost connection.\<close>

theorem route_keeps_connection:
  "alive (route_all parse render msgs s) = alive s \<and>
   last_activity (route_all parse render msgs s) = last_activity s \<and>
   connection (holder (route_all parse render msgs s)) = connection (holder s) \<and>
   set (buf (event_ch (route_all parse render msgs s))) \<subseteq>
     set (buf (event_ch s)) \<union> Collect device_event"
proof (induction msgs arbitrary: s)
  case (Cons m ms)
  have "set (buf (event_ch (route parse render m s))) \<subseteq> set (buf (event_ch s)) \<union> Collect device_event"
    using set_offer [of "reports parse m" "event_ch s"] reports_kinds [of parse m]
    by (auto simp: event_ch_route list_all_iff)
  then show ?case
    using Cons.IH [of "route parse render m s"] by (simp add: holder_route_parts) blast
qed simp

text \<open>The status a message on the media channel carries.\<close>

definition announced_status :: "parser \<Rightarrow> cast_message \<Rightarrow> media_status option" where
  "announced_status parse msg =
     (if namespace msg = NS_MEDIA then do {
        j \<leftarrow> parse (unwrap_or [] (payload_utf8 msg));
        (if get_str ''type'' j = Some MSG_MEDIA_STATUS then parse_media_status j else None) }
      else None)"

lemma holder_route_media:
  "holder (route_media j s) =
     (case (if get_str ''type'' j = Some MSG_MEDIA_STATUS then parse_media_status j else None) of
        Some st \<Rightarrow> (holder s)
          \<lparr>media := Some st,
           media_session := (if 0 < sint (media_session_id st) then media_session_id st
                             else media_session (holder s))\<rparr>
      | None \<Rightarrow> holder s)"
proof (cases "get_str ''type'' j = Some MSG_MEDIA_STATUS")
  case True
  then show ?thesis by (simp add: route_media_def Let_def split: option.splits)
next
  case False
  then have "classify_media_message (unwrap_or [] (get_str ''type'' j)) \<noteq> MStatus" by simp
  with False show ?thesis
    by (auto simp: route_media_def Let_def split: media_message_type.splits)
qed

lemma media_route:
  "media (holder (route parse render msg s)) =
     (case announced_status parse msg of Some st \<Rightarrow> Some st | None \<Rightarrow> media (holder s))"
  "media_session (holder (route parse render msg s)) =
     (case announced_status parse msg of
        Some st \<Rightarrow> (if 0 < sint (media_session_id st) then media_session_id st
                    else media_session (holder s))
      | None \<Rightarrow> media_session (holder s))"
  by (cases msg rule: namespace_cases;
      simp add: route_at announced_status_def holder_route_media split: option.splits)+

text \<open>The media state follows the broadcasts. After any messages, the media watcher holds the
  last status that parsed, and the session the client controls is the last one announced with a
  positive identifier: a status of session 0 or less never replaces a session, so routing never
  loses one.\<close>

theorem media_state_follows_broadcasts:
  "media (holder (route_all parse render msgs s)) =
     foldl (\<lambda>_ st. Some st) (media (holder s)) (List.map_filter (announced_status parse) msgs) \<and>
   media_session (holder (route_all parse render msgs s)) =
     foldl (\<lambda>_ i. i) (media_session (holder s))
       (filter (\<lambda>i. 0 < sint i) (map media_session_id (List.map_filter (announced_status parse) msgs)))"
proof (induction msgs arbitrary: s)
  case (Cons m ms)
  then show ?case
    by (simp add: media_route map_filter_simps split: option.splits)
qed (simp add: map_filter_simps)

text \<open>Every PING is answered and nothing else is written. The messages routing puts on the write
  channel are one PONG for each PING among the inbound messages, in order.\<close>

theorem pings_answered:
  assumes "rx_held (write_ch s)"
  shows "buf (write_ch (route_all parse render msgs s)) =
     buf (write_ch s) @ map (\<lambda>_. pong render) (filter is_ping msgs)"
proof -
  have one: "write_ch (route parse render m s) =
      (if is_ping m then snd (chan_send (pong render) (write_ch s)) else write_ch s)" for m s
    by (cases m rule: namespace_cases) (simp_all add: route_at is_ping_def split: option.splits)
  show ?thesis
    using assms
    by (induction msgs arbitrary: s) (auto simp: one)
qed

text \<open>An answer nobody waits for is lost. A message of a custom namespace whose \<open>requestId\<close> is
  positive but belongs to no waiting request leaves the state as it was: it is neither delivered to
  a request nor reported as a raw message.\<close>

theorem unmatched_custom_message_lost:
  assumes "namespace msg \<notin> {NS_HEARTBEAT, NS_CONNECTION, NS_RECEIVER, NS_MEDIA}"
    and "parse (unwrap_or [] (payload_utf8 msg)) = Some j"
    and "positive_request_id j = Some n" and "pending (request_tracker s) (ucast n) = None"
  shows "route parse render msg s = s"
  using assms by (cases s) (simp add: route_def route_other_def Let_def on_tracker_def resolve_def)

theorem pings_answered_witness:
  "buf (write_ch (route_all sample_parse (\<lambda>_. ''x'')
      [build_message NS_HEARTBEAT RECEIVER_ID SENDER_ID (quoted ''PING'')] one_waiting)) = [pong (\<lambda>_. ''x'')]"
proof -
  have "rx_held (write_ch one_waiting)" by (simp add: one_waiting_def channel_def)
  from pings_answered [OF this, of sample_parse "\<lambda>_. ''x''"
      "[build_message NS_HEARTBEAT RECEIVER_ID SENDER_ID (quoted ''PING'')]"]
  show ?thesis
    by (simp add: one_waiting_def channel_def is_ping_def payload_contains_def)
qed

theorem unmatched_custom_message_lost_witness:
  "route sample_parse (\<lambda>_. []) (build_message ''urn:x-custom'' RECEIVER_ID SENDER_ID ''seven'') one_waiting
     = one_waiting"
proof (rule unmatched_custom_message_lost)
  show "namespace (build_message ''urn:x-custom'' RECEIVER_ID SENDER_ID ''seven'')
      \<notin> {NS_HEARTBEAT, NS_CONNECTION, NS_RECEIVER, NS_MEDIA}"
    by (simp add: namespace_defs)
  show "sample_parse (unwrap_or [] (payload_utf8 (build_message ''urn:x-custom'' RECEIVER_ID SENDER_ID ''seven'')))
      = Some (jobj [(''requestId'', of_u32 7)])"
    by (simp add: sample_parse_def)
  show "positive_request_id (jobj [(''requestId'', of_u32 7)]) = Some 7"
    by (simp add: positive_request_id_def of_u32_def as_u64_def)
  show "pending (request_tracker one_waiting) (ucast (7 :: u64)) = None"
    by (simp add: one_waiting_tracker)
qed

end
