(* ===== verification/Builder.thy ===== *)
theory Builder
  imports Prelude
begin

text \<open>
  \<open>client/builder.rs\<close>, and the \<open>ClientConfig\<close> the client keeps of it. The builder has the fields
  of the configuration and two of its own, so it extends that record.
\<close>

section \<open>Configuration\<close>

record client_config =
  host :: string
  port :: u16
  auto_reconnect :: bool
  max_reconnect_attempts :: u32
  reconnect_delay :: duration
  heartbeat_interval :: duration
  heartbeat_timeout :: duration
  verify_tls :: bool

record builder = client_config +
  request_timeout :: duration
  event_buffer_size :: nat

abbreviation secs :: "nat \<Rightarrow> duration" where "secs n \<equiv> n * 1000000000"

definition builder_new :: "string \<Rightarrow> u16 \<Rightarrow> builder" where
  "builder_new h p =
     \<lparr>host = h, port = p, auto_reconnect = True, max_reconnect_attempts = 5,
      reconnect_delay = secs 2, heartbeat_interval = secs 5, heartbeat_timeout = secs 15,
      verify_tls = False, request_timeout = secs 10, event_buffer_size = 64\<rparr>"

definition set_heartbeat_interval :: "duration \<Rightarrow> builder \<Rightarrow> builder" where
  "set_heartbeat_interval d b = b\<lparr>heartbeat_interval := d\<rparr>"

definition set_heartbeat_timeout :: "duration \<Rightarrow> builder \<Rightarrow> builder" where
  "set_heartbeat_timeout d b = b\<lparr>heartbeat_timeout := d\<rparr>"

definition set_request_timeout :: "duration \<Rightarrow> builder \<Rightarrow> builder" where
  "set_request_timeout d b = b\<lparr>request_timeout := d\<rparr>"

definition set_auto_reconnect :: "bool \<Rightarrow> builder \<Rightarrow> builder" where
  "set_auto_reconnect enabled b = b\<lparr>auto_reconnect := enabled\<rparr>"

definition set_max_reconnect_attempts :: "u32 \<Rightarrow> builder \<Rightarrow> builder" where
  "set_max_reconnect_attempts n b = b\<lparr>max_reconnect_attempts := n\<rparr>"

definition set_reconnect_delay :: "duration \<Rightarrow> builder \<Rightarrow> builder" where
  "set_reconnect_delay d b = b\<lparr>reconnect_delay := d\<rparr>"

definition set_event_buffer_size :: "nat \<Rightarrow> builder \<Rightarrow> builder" where
  "set_event_buffer_size n b = b\<lparr>event_buffer_size := n\<rparr>"

definition set_verify_tls :: "bool \<Rightarrow> builder \<Rightarrow> builder" where
  "set_verify_tls v b = b\<lparr>verify_tls := v\<rparr>"

text \<open>The part \<open>from_builder\<close> copies into the client.\<close>

definition config_of :: "builder \<Rightarrow> client_config" where
  "config_of b =
     \<lparr>host = host b, port = port b, auto_reconnect = auto_reconnect b,
      max_reconnect_attempts = max_reconnect_attempts b, reconnect_delay = reconnect_delay b,
      heartbeat_interval = heartbeat_interval b, heartbeat_timeout = heartbeat_timeout b,
      verify_tls = verify_tls b\<rparr>"

end
