(* ===== verification/Client.thy ===== *)
theory Client
  imports Router Builder
begin

text \<open>
  \<open>client.rs\<close>: the operations of \<open>CastClient\<close>. A request registers with the tracker, queues its
  message, and awaits its answer; what the other tasks do to the shared state until the wait is
  over, and what the oneshot channel then gives, is the argument \<open>await\<close>. Locks and the other
  short awaits are taken as uncontended. A \<open>send\<close> that finds the write channel full leaves its message
  parked there; what happens until it has room belongs to the await that follows it.
\<close>

section \<open>The client\<close>

text \<open>\<open>TaskHandles\<close>: whether its token is cancelled, and which handles it holds; a task whose handle
  is held may run.\<close>

record task_handles =
  token_cancelled :: bool
  reader_task :: bool
  writer_task :: bool
  heartbeat_task :: bool

record client = shared +
  shutting_down :: bool
  tasks :: task_handles
  config :: client_config
  transport_id :: "string option"
  session_id :: "string option"

type_synonym 'a io = "client \<Rightarrow> (error + 'a) \<times> client"

type_synonym await = "u32 \<Rightarrow> nat \<Rightarrow> client \<Rightarrow> wait_outcome \<times> client"

text \<open>The \<open>?\<close> operator, and a result that leaves the state alone.\<close>

definition bind_io :: "'a io \<Rightarrow> ('a \<Rightarrow> 'b io) \<Rightarrow> 'b io" where
  "bind_io m f c = (case m c of (Inl e, c1) \<Rightarrow> (Inl e, c1) | (Inr a, c1) \<Rightarrow> f a c1)"

definition lift :: "error + 'a \<Rightarrow> 'a io" where "lift r c = (r, c)"

lemma bind_io_lift [simp]: "bind_io (lift (Inl e)) f = lift (Inl e)" "bind_io (lift (Inr a)) f = f a"
  by (simp_all add: bind_io_def lift_def fun_eq_iff)

section \<open>Reading the state\<close>

definition watch_media_status :: "client \<Rightarrow> media_status option" where
  "watch_media_status c = media (holder c)"

definition watch_receiver_status :: "client \<Rightarrow> receiver_status option" where
  "watch_receiver_status c = receiver (holder c)"

definition connection_state :: "client \<Rightarrow> connection_state" where
  "connection_state c = connection (holder c)"

definition is_connected :: "client \<Rightarrow> bool" where
  "is_connected c = alive c"

section \<open>Internals\<close>

definition send :: "cast_message \<Rightarrow> unit io" where
  "send msg c =
     (case send_write msg c of (Refused, c1) \<Rightarrow> (Inl ErrDisconnected, c1) | (_, c1) \<Rightarrow> (Inr (), c1))"

text \<open>Whether a \<open>send\<close> of \<open>msg\<close> that had to wait in \<open>before\<close> never got room: the receiver is gone and the
  message is parked still. It fails then.\<close>

definition send_starved :: "cast_message \<Rightarrow> 'a shared_scheme \<Rightarrow> 'a shared_scheme \<Rightarrow> bool" where
  "send_starved msg before c \<longleftrightarrow>
     fst (send_write msg before) = Parked \<and> \<not> rx_held (write_ch c) \<and> msg \<in> set (chan_parked (write_ch c))"

text \<open>A \<open>send\<close> followed by what the others do until the task goes on.\<close>

definition send_then ::
    "cast_message \<Rightarrow> ('a shared_scheme \<Rightarrow> 'a shared_scheme) \<Rightarrow> 'a shared_scheme
      \<Rightarrow> (error + unit) \<times> 'a shared_scheme" where
  "send_then msg others s =
     (case send_write msg s of
        (Refused, s1) \<Rightarrow> (Inl ErrDisconnected, s1)
      | (_, s1) \<Rightarrow>
          (let s2 = others s1
           in (if send_starved msg s s2 then Inl ErrDisconnected else Inr (), s2)))"

definition decimal_i64 :: "i64 \<Rightarrow> string" where
  "decimal_i64 n = (if sint n < 0 then ''-'' @ decimal (nat (- sint n)) else decimal (nat (sint n)))"

definition check_device_error :: "json \<Rightarrow> error + unit" where
  "check_device_error j =
     (case get_str ''type'' j of
        None \<Rightarrow> Inr ()
      | Some t \<Rightarrow>
          (if t = ''LOAD_FAILED'' then
             Inl (ErrLoadFailed ''Chromecast rejected the media''
               (map_option (\<lambda>n. ''error code '' @ decimal_i64 n) (get_i64 ''detailedErrorCode'' j)))
           else if t = ''LOAD_CANCELLED'' then Inl (ErrLoadFailed ''load was cancelled'' None)
           else if t = ''INVALID_REQUEST'' then
             Inl (ErrInvalidRequest (ucast (unwrap_or 0 (get_u64 ''requestId'' j)))
               (unwrap_or ''unknown'' (get_str ''reason'' j)))
           else if t = ''LAUNCH_ERROR'' then
             Inl (ErrLaunchFailed (unwrap_or ''unknown'' (get_str ''reason'' j)))
           else Inr ()))"

definition get_transport_id :: "client \<Rightarrow> error + string" where
  "get_transport_id c = ok_or ErrNoApplication (transport_id c)"

definition get_session_id :: "client \<Rightarrow> error + string" where
  "get_session_id c = ok_or ErrNoApplication (session_id c)"

definition get_media_session_id :: "client \<Rightarrow> error + i32" where
  "get_media_session_id c =
     (let i = media_session (holder c) in if 0 < sint i then Inr i else Inl ErrNoMediaSession)"

text \<open>\<open>register\<close>, \<open>send\<close>, \<open>wait_for\<close>: the first three statements of every request. \<open>mk\<close> builds the
  message from the identifier. A request whose message never got room fails without waiting for an
  answer, and its entry stays.\<close>

definition request :: "(u32 \<Rightarrow> cast_message) \<Rightarrow> await \<Rightarrow> json io" where
  "request mk await c =
     (case register (request_tracker c) of
        ((i, rx), t) \<Rightarrow>
          (let c0 = c\<lparr>request_tracker := t\<rparr>
           in bind_io (send (mk i))
                (\<lambda>_ c1. case await i rx c1 of
                   (out, c2) \<Rightarrow>
                     (if send_starved (mk i) c0 c2 then (Inl ErrDisconnected, c2)
                      else case wait_for i out (request_tracker c2) of
                             (r, t2) \<Rightarrow> (r, c2\<lparr>request_tracker := t2\<rparr>)))
                c0))"

definition checked :: "(json \<Rightarrow> 'a io) \<Rightarrow> json \<Rightarrow> 'a io" where
  "checked finish j = bind_io (lift (check_device_error j)) (\<lambda>_. finish j)"

section \<open>Receiver control\<close>

definition receiver_status :: "render \<Rightarrow> await \<Rightarrow> receiver_status io" where
  "receiver_status render await =
     bind_io (request (receiver_get_status_msg render) await)
       (checked (\<lambda>j. lift (ok_or (ErrInternal ''failed to parse receiver status'')
          (parse_receiver_status j))))"

definition find_app :: "string \<Rightarrow> receiver_status \<Rightarrow> application option" where
  "find_app target st = List.find (\<lambda>a. app_id a = target) (rs_applications st)"

definition enter_app :: "render \<Rightarrow> application \<Rightarrow> application io" where
  "enter_app render a =
     bind_io (send (connect_msg render (app_transport_id a)))
       (\<lambda>_ c. (Inr a, c\<lparr>transport_id := Some (app_transport_id a),
                       session_id := Some (app_session_id a)\<rparr>))"

definition next_event :: "client \<Rightarrow> cast_event recv \<times> client" where
  "next_event c = (case chan_recv (event_ch c) of (r, ch) \<Rightarrow> (r, c\<lparr>event_ch := ch\<rparr>))"

text \<open>The loop of \<open>launch_app\<close> over the events, with the clock at each head of the loop and what
  the other tasks do until \<open>next_event\<close> returns or its three seconds are over.\<close>

fun launch_wait ::
    "render \<Rightarrow> string \<Rightarrow> nat \<Rightarrow> (nat \<times> (client \<Rightarrow> client)) list \<Rightarrow> application io" where
  "launch_wait render target deadline [] c =
     (Inl (ErrLaunchFailed (''app '' @ target @ '' not found after launch (timeout)'')), c)"
| "launch_wait render target deadline ((now, others) # ws) c =
     (if now < deadline then
        (case next_event (others c) of
           (Item (EvReceiverStatusChanged st), c1) \<Rightarrow>
             (case find_app target st of
                Some a \<Rightarrow> enter_app render a c1
              | None \<Rightarrow> launch_wait render target deadline ws c1)
         | (_, c1) \<Rightarrow> launch_wait render target deadline ws c1)
      else (Inl (ErrLaunchFailed (''app '' @ target @ '' not found after launch (timeout)'')), c))"

definition LAUNCH_WAIT :: duration where "LAUNCH_WAIT = 15 * 1000000000"

definition launch_app ::
    "render \<Rightarrow> cast_app \<Rightarrow> await \<Rightarrow> nat \<Rightarrow> (nat \<times> (client \<Rightarrow> client)) list \<Rightarrow> application io" where
  "launch_app render app await now ws =
     bind_io (request (\<lambda>i. launch_app_msg render i (cast_app_id app)) await)
       (checked (\<lambda>j.
          case Option.bind (parse_receiver_status j) (find_app (cast_app_id app)) of
            Some a \<Rightarrow> enter_app render a
          | None \<Rightarrow> launch_wait render (cast_app_id app) (now + LAUNCH_WAIT) ws))"

definition stop_app :: "render \<Rightarrow> string \<Rightarrow> await \<Rightarrow> unit io" where
  "stop_app render sid await =
     bind_io (request (\<lambda>i. stop_app_msg render i sid) await)
       (checked (\<lambda>_ c. (Inr (), c\<lparr>transport_id := None, session_id := None\<rparr>)))"

definition parsed_volume :: "json \<Rightarrow> volume io" where
  "parsed_volume j =
     lift (ok_or (ErrInternal ''failed to parse volume from response'')
       (map_option rs_volume (parse_receiver_status j)))"

definition set_volume :: "render \<Rightarrow> f32 \<Rightarrow> await \<Rightarrow> volume io" where
  "set_volume render level await =
     (let level' = f32_clamp level F32_ZERO F32_ONE
      in bind_io (request (\<lambda>i. set_volume_msg render i (Some level') None) await)
           (checked parsed_volume))"

definition set_muted :: "render \<Rightarrow> bool \<Rightarrow> await \<Rightarrow> volume io" where
  "set_muted render muted await =
     bind_io (request (\<lambda>i. set_volume_msg render i None (Some muted)) await) (checked parsed_volume)"

section \<open>Media control\<close>

text \<open>The session of the first entry of the answer's \<open>status\<close>, stored whatever its sign.\<close>

definition adopt_session :: "json \<Rightarrow> client \<Rightarrow> client" where
  "adopt_session j c =
     (case Option.bind (get_array ''status'' j)
             (\<lambda>entries. case entries of [] \<Rightarrow> None | entry # _ \<Rightarrow> get_i64 ''mediaSessionId'' entry) of
        Some msid \<Rightarrow> store_session (ucast msid) c
      | None \<Rightarrow> c)"

definition loaded_status :: "string \<Rightarrow> json \<Rightarrow> media_status io" where
  "loaded_status no_status j c =
     (let c1 = adopt_session j c
      in case parse_media_status j of
           None \<Rightarrow> (Inl (ErrLoadFailed no_status None), c1)
         | Some status \<Rightarrow>
             (if player_state status = Idle \<and> ms_media status = None
              then (Inl (ErrLoadFailed
                     ''media not accepted by device (received IDLE with no media)'' None), c1)
              else (Inr status, c1)))"

definition load_media ::
    "render \<Rightarrow> media_info \<Rightarrow> bool \<Rightarrow> f64 \<Rightarrow> json option \<Rightarrow> await \<Rightarrow> media_status io" where
  "load_media render m autoplay start custom_data await c =
     bind_io (lift (get_transport_id c)) (\<lambda>tid.
     bind_io (lift (get_session_id c)) (\<lambda>sid.
     bind_io (request (\<lambda>i. load_msg render i tid sid m autoplay start custom_data) await)
       (checked (loaded_status ''no media status in response'')))) c"

definition answered_status :: "json \<Rightarrow> media_status io" where
  "answered_status j = lift (ok_or ErrNoMediaSession (parse_media_status j))"

text \<open>The commands on the current media session: \<open>play\<close>, \<open>pause\<close>, \<open>stop_media\<close>, \<open>seek\<close>,
  \<open>queue_insert\<close>.\<close>

definition play :: "render \<Rightarrow> await \<Rightarrow> media_status io" where
  "play render await c =
     bind_io (lift (get_transport_id c)) (\<lambda>tid.
     bind_io (lift (get_media_session_id c)) (\<lambda>msid.
     bind_io (request (\<lambda>i. play_msg render i tid msid) await) (checked answered_status))) c"

definition pause :: "render \<Rightarrow> await \<Rightarrow> media_status io" where
  "pause render await c =
     bind_io (lift (get_transport_id c)) (\<lambda>tid.
     bind_io (lift (get_media_session_id c)) (\<lambda>msid.
     bind_io (request (\<lambda>i. pause_msg render i tid msid) await) (checked answered_status))) c"

definition stop_media :: "render \<Rightarrow> await \<Rightarrow> media_status io" where
  "stop_media render await c =
     bind_io (lift (get_transport_id c)) (\<lambda>tid.
     bind_io (lift (get_media_session_id c)) (\<lambda>msid.
     bind_io (request (\<lambda>i. media_stop_msg render i tid msid) await)
       (checked (\<lambda>j c. answered_status j (store_session 0 c))))) c"

definition seek :: "render \<Rightarrow> f64 \<Rightarrow> await \<Rightarrow> media_status io" where
  "seek render position await c =
     bind_io (lift (get_transport_id c)) (\<lambda>tid.
     bind_io (lift (get_media_session_id c)) (\<lambda>msid.
     bind_io (request (\<lambda>i. seek_msg render i tid msid position) await) (checked answered_status))) c"

definition media_status :: "render \<Rightarrow> await \<Rightarrow> media_status option io" where
  "media_status render await c =
     (case get_transport_id c of
        Inl _ \<Rightarrow> (Inr None, c)
      | Inr tid \<Rightarrow>
          bind_io (request (\<lambda>i. media_get_status_msg render i tid) await)
            (checked (\<lambda>j. lift (Inr (parse_media_status j)))) c)"

definition queue_load ::
    "render \<Rightarrow> queue_item list \<Rightarrow> u32 \<Rightarrow> repeat_mode \<Rightarrow> await \<Rightarrow> media_status io" where
  "queue_load render items start_index mode await c =
     bind_io (lift (get_transport_id c)) (\<lambda>tid.
     bind_io (lift (get_session_id c)) (\<lambda>sid.
     bind_io (request (\<lambda>i. queue_load_msg render i tid sid items start_index mode) await)
       (checked (loaded_status ''no media status in queue load response'')))) c"

definition queue_insert ::
    "render \<Rightarrow> queue_item list \<Rightarrow> u32 option \<Rightarrow> await \<Rightarrow> media_status io" where
  "queue_insert render items insert_before await c =
     bind_io (lift (get_transport_id c)) (\<lambda>tid.
     bind_io (lift (get_media_session_id c)) (\<lambda>msid.
     bind_io (request (\<lambda>i. queue_insert_msg render i tid msid items insert_before) await)
       (checked answered_status))) c"

section \<open>Raw messages\<close>

definition send_raw :: "render \<Rightarrow> string \<Rightarrow> string \<Rightarrow> json \<Rightarrow> await \<Rightarrow> json io" where
  "send_raw render ns destination payload await =
     (if is_obj payload then
        request (\<lambda>i. build_message ns ''sender-0'' destination
                  (render (jput ''requestId'' (of_u32 i) payload))) await
      else lift (Inl ErrInvalidPayload))"

definition send_raw_no_reply :: "render \<Rightarrow> string \<Rightarrow> string \<Rightarrow> json \<Rightarrow> unit io" where
  "send_raw_no_reply render ns destination payload =
     send (build_message ns ''sender-0'' destination (render payload))"

end
