(* ===== verification/Requests.thy ===== *)
theory Requests
  imports Client
begin

text \<open>
  The contract the request operations of \<open>client.rs\<close> share, as a locale with every operation as
  an instance, and what follows from it for a client whose reader task routes the device's
  messages while a request waits.
\<close>

section \<open>Requests answered by the reader\<close>

text \<open>The wait during which the reader routes \<open>msgs\<close>; the oneshot channel gives what its promise
  allows.\<close>

definition promised :: "tracker \<Rightarrow> nat \<Rightarrow> wait_outcome" where
  "promised t rx =
     (case senders t rx of
        Some (Sent v) \<Rightarrow> Received v | Some Dropped \<Rightarrow> SenderGone | _ \<Rightarrow> TimedOut)"

lemma promised_keeps: "senders t rx \<noteq> None \<Longrightarrow> oneshot_promise t rx (promised t rx)"
  by (auto simp: promised_def oneshot_promise_def split: option.splits sender.splits)

definition reader_answers :: "parser \<Rightarrow> render \<Rightarrow> cast_message list \<Rightarrow> await" where
  "reader_answers parse render msgs i rx c =
     (let c' = route_all parse render msgs c in (promised (request_tracker c') rx, c'))"

text \<open>The state once a request's message is queued.\<close>

definition queued :: "(u32 \<Rightarrow> cast_message) \<Rightarrow> client \<Rightarrow> client" where
  "queued mk c =
     snd (send_write (mk (next_id (counter (request_tracker c))))
            (on_tracker (\<lambda>t. snd (register t)) c))"

definition waited :: "u32 \<Rightarrow> wait_outcome \<Rightarrow> client \<Rightarrow> client" where
  "waited i out c = on_tracker (\<lambda>t. snd (wait_for i out t)) c"

lemma queued_frame [simp]:
  "request_tracker (queued mk c) = snd (register (request_tracker c))"
  "write_ch (queued mk c) =
     snd (chan_send (mk (next_id (counter (request_tracker c)))) (write_ch c))"
  "event_ch (queued mk c) = event_ch c" "holder (queued mk c) = holder c"
  "alive (queued mk c) = alive c"
  by (simp_all add: queued_def)

lemma waited_frame [simp]:
  "request_tracker (waited i out c) = snd (wait_for i out (request_tracker c))"
  "write_ch (waited i out c) = write_ch c" "event_ch (waited i out c) = event_ch c"
  "holder (waited i out c) = holder c" "alive (waited i out c) = alive c"
  by (simp_all add: waited_def)

lemma client_only_frame [simp]:
  "transport_id (queued mk c) = transport_id c" "session_id (queued mk c) = session_id c"
  "shutting_down (queued mk c) = shutting_down c"
  "transport_id (waited i out c) = transport_id c" "session_id (waited i out c) = session_id c"
  "shutting_down (waited i out c) = shutting_down c"
  by (simp_all add: queued_def waited_def on_tracker_def send_write_def chan_send_def)

text \<open>Whether the request's message was still parked when the writer was gone.\<close>

abbreviation starved :: "(u32 \<Rightarrow> cast_message) \<Rightarrow> client \<Rightarrow> client \<Rightarrow> bool" where
  "starved mk c c2 \<equiv> send_starved (mk (next_id (counter (request_tracker c)))) c c2"

lemma send_starved_tracker [simp]:
  "send_starved m (c\<lparr>request_tracker := t\<rparr>) c2 = send_starved m c c2"
  by (simp add: send_starved_def)

lemma starved_open: "rx_held (write_ch c2) \<Longrightarrow> \<not> send_starved m c c2"
  by (simp add: send_starved_def)

lemma request_await:
  assumes "rx_held (write_ch c)"
  shows "request mk await c =
     (let i = next_id (counter (request_tracker c));
          (out, c2) = await i (next_chan (request_tracker c)) (queued mk c)
      in if starved mk c c2 then (Inl ErrDisconnected, c2)
         else (fst (wait_for i out (request_tracker c2)), waited i out c2))"
  using assms
  by (simp add: request_def register_eq bind_io_def send_def send_write_def chan_send_def
      queued_def waited_def on_tracker_def Let_def split: prod.splits)

lemma request_sent:
  assumes "rx_held (write_ch c)"
    and "rx_held (write_ch (snd (await (next_id (counter (request_tracker c)))
           (next_chan (request_tracker c)) (queued mk c))))"
  shows "request mk await c =
     (let i = next_id (counter (request_tracker c));
          (out, c2) = await i (next_chan (request_tracker c)) (queued mk c)
      in (fst (wait_for i out (request_tracker c2)), waited i out c2))"
  using assms by (auto simp: request_await Let_def dest: starved_open split: prod.splits)

lemma request_writer_gone:
  assumes "\<not> rx_held (write_ch c)"
  shows "request mk await c = (Inl ErrDisconnected, on_tracker (\<lambda>t. snd (register t)) c)"
  using assms
  by (simp add: request_def register_eq bind_io_def send_def send_write_def chan_send_def
      on_tracker_def Let_def)

lemma timeout_tracker [simp]:
  "timeout (snd (resolve i v t)) = timeout t" "timeout (snd (register t)) = timeout t"
  "timeout (snd (wait_for i out t)) = timeout t" "timeout (tracker_clear t) = timeout t"
  by (simp_all add: resolve_def register_eq wait_for_def remove_pending_eq tracker_clear_def
      split: option.splits wait_outcome.splits)

lemma timeout_answers [simp]: "timeout (registry.answers xs t) = timeout t"
  by (induction xs arbitrary: t) auto

text \<open>The reader does not close the write channel.\<close>

lemma write_ch_held_route [simp]:
  "rx_held (write_ch (route parse render msg s)) = rx_held (write_ch s)"
  by (cases msg rule: namespace_cases) (simp_all add: route_at split: option.split)

lemma write_ch_held_route_all [simp]:
  "rx_held (write_ch (route_all parse render msgs s)) = rx_held (write_ch s)"
  by (induction msgs arbitrary: s) simp_all

text \<open>The answer a request gets from the reader: the first message that answers its identifier.\<close>

definition answer_among :: "parser \<Rightarrow> cast_message list \<Rightarrow> u32 \<Rightarrow> json option" where
  "answer_among parse msgs i = map_of (List.map_filter (answer_of parse) msgs) i"

lemma request_answered:
  assumes "tracker_inv (request_tracker c)" and "rx_held (write_ch c)"
  defines "i \<equiv> next_id (counter (request_tracker c))"
  shows "request mk (reader_answers parse render msgs) c =
     (case answer_among parse msgs i of
        Some v \<Rightarrow> (Inr v, waited i (Received v) (route_all parse render msgs (queued mk c)))
      | None \<Rightarrow> (Inl (ErrTimeout (timeout (request_tracker c))),
                 waited i TimedOut (route_all parse render msgs (queued mk c))))"
proof -
  have inv: "tracker_inv (request_tracker (queued mk c))"
    using tracker_inv_register [OF assms(1)] by simp
  have p: "pending (request_tracker (queued mk c)) i = Some (next_chan (request_tracker c))"
    by (simp add: register_eq i_def)
  have "senders (request_tracker (route_all parse render msgs (queued mk c)))
          (next_chan (request_tracker c)) =
      Some (case answer_among parse msgs i of Some v \<Rightarrow> Sent v | None \<Rightarrow> Held)"
    using registry.first_answer_wins [OF inv p]
    by (simp add: request_tracker_route_all answer_among_def)
  moreover have "rx_held (write_ch (snd (reader_answers parse render msgs i (next_chan (request_tracker c)) (queued mk c))))"
    using assms(2) by (simp add: reader_answers_def Let_def)
  ultimately show ?thesis
    by (auto simp: request_sent [OF assms(2)] reader_answers_def promised_def Let_def wait_for_def
        request_tracker_route_all i_def [symmetric] split: option.splits)
qed

text \<open>However the wait ends, the request leaves no entry behind.\<close>

lemma pending_answers_None: "pending t i = None \<Longrightarrow> pending (registry.answers xs t) i = None"
  by (induction xs arbitrary: t) (auto simp: registry.waiting_answer)

lemma pending_answers_answered:
  "map_of xs i \<noteq> None \<Longrightarrow> pending (registry.answers xs t) i = None"
proof (induction xs arbitrary: t)
  case (Cons x xs)
  obtain j v where x: "x = (j, v)" by (cases x)
  show ?case
  proof (cases "i = j")
    case True
    then show ?thesis
      by (auto simp: x registry.waiting_answer intro: pending_answers_None)
  next
    case False
    with Cons x show ?thesis by simp
  qed
qed simp

lemma request_leaves_no_entry:
  assumes "tracker_inv (request_tracker c)" and "rx_held (write_ch c)"
  shows "pending (request_tracker (snd (request mk (reader_answers parse render msgs) c)))
           (next_id (counter (request_tracker c))) = None"
proof (cases "answer_among parse msgs (next_id (counter (request_tracker c)))")
  case None
  then show ?thesis
    by (simp add: request_answered [OF assms] wait_for_def remove_pending_eq split: option.splits)
next
  case (Some v)
  then show ?thesis
    unfolding answer_among_def
    by (simp add: request_answered [OF assms] request_tracker_route_all wait_for_def
        answer_among_def pending_answers_answered)
qed

section \<open>The contract\<close>

text \<open>An operation either returns at once, without touching anything, or makes one request and hands
  the answer, once \<open>check_device_error\<close> has accepted it, to its own last step.\<close>

locale device_request =
  fixes perform :: "await \<Rightarrow> 'r io"
    and prepare :: "client \<Rightarrow> (error + 'r) + (u32 \<Rightarrow> cast_message)"
    and finish :: "json \<Rightarrow> 'r io"
  assumes shape: "perform await c =
      (case prepare c of
         Inl r \<Rightarrow> (r, c)
       | Inr mk \<Rightarrow> bind_io (request mk await) (checked finish) c)"
begin

lemma returns_at_once: "prepare c = Inl r \<Longrightarrow> perform await c = (r, c)"
  by (simp add: shape)

lemma writer_gone:
  "prepare c = Inr mk \<Longrightarrow> \<not> rx_held (write_ch c) \<Longrightarrow>
     perform await c = (Inl ErrDisconnected, on_tracker (\<lambda>t. snd (register t)) c)"
  by (simp add: shape bind_io_def request_writer_gone)

lemma not_answered:
  assumes "tracker_inv (request_tracker c)" and "rx_held (write_ch c)" and "prepare c = Inr mk"
    and "answer_among parse msgs (next_id (counter (request_tracker c))) = None"
  shows "perform (reader_answers parse render msgs) c =
     (Inl (ErrTimeout (timeout (request_tracker c))),
      waited (next_id (counter (request_tracker c))) TimedOut
        (route_all parse render msgs (queued mk c)))"
  using assms by (simp add: shape bind_io_def request_answered)

lemma refused:
  assumes "tracker_inv (request_tracker c)" and "rx_held (write_ch c)" and "prepare c = Inr mk"
    and "answer_among parse msgs (next_id (counter (request_tracker c))) = Some v"
    and "check_device_error v = Inl e"
  shows "perform (reader_answers parse render msgs) c =
     (Inl e, waited (next_id (counter (request_tracker c))) (Received v)
        (route_all parse render msgs (queued mk c)))"
  using assms by (simp add: shape bind_io_def request_answered checked_def lift_def)

lemma accepted:
  assumes "tracker_inv (request_tracker c)" and "rx_held (write_ch c)" and "prepare c = Inr mk"
    and "answer_among parse msgs (next_id (counter (request_tracker c))) = Some v"
    and "check_device_error v = Inr ()"
  shows "perform (reader_answers parse render msgs) c =
     finish v (waited (next_id (counter (request_tracker c))) (Received v)
        (route_all parse render msgs (queued mk c)))"
  using assms by (simp add: shape bind_io_def request_answered checked_def lift_def)

end

section \<open>Every operation\<close>

datatype command =
    ReceiverStatus | StopApp string | SetVolume f32 | SetMuted bool
  | LoadMedia media_info bool f64 "json option" | Play | Pause | StopMedia | Seek f64 | MediaStatus
  | QueueLoad "queue_item list" u32 repeat_mode | QueueInsert "queue_item list" "u32 option"

text \<open>Running a command, its value dropped.\<close>

definition discard :: "'a io \<Rightarrow> unit io" where "discard m = bind_io m (\<lambda>_. lift (Inr ()))"

fun execute :: "render \<Rightarrow> command \<Rightarrow> await \<Rightarrow> unit io" where
  "execute render ReceiverStatus await = discard (receiver_status render await)"
| "execute render (StopApp sid) await = discard (stop_app render sid await)"
| "execute render (SetVolume l) await = discard (set_volume render l await)"
| "execute render (SetMuted b) await = discard (set_muted render b await)"
| "execute render (LoadMedia m a t d) await = discard (load_media render m a t d await)"
| "execute render Play await = discard (play render await)"
| "execute render Pause await = discard (pause render await)"
| "execute render StopMedia await = discard (stop_media render await)"
| "execute render (Seek p) await = discard (seek render p await)"
| "execute render MediaStatus await = discard (media_status render await)"
| "execute render (QueueLoad xs k r) await = discard (queue_load render xs k r await)"
| "execute render (QueueInsert xs b) await = discard (queue_insert render xs b await)"

text \<open>What the guards of the media commands ask for: an app to send to, and its session or the
  current media session.\<close>

definition app_request ::
    "client \<Rightarrow> (string \<Rightarrow> string \<Rightarrow> 'm) \<Rightarrow> (error + unit) + 'm" where
  "app_request c f =
     (case (transport_id c, session_id c) of
        (Some tid, Some sid) \<Rightarrow> Inr (f tid sid) | _ \<Rightarrow> Inl (Inl ErrNoApplication))"

definition session_request ::
    "client \<Rightarrow> (string \<Rightarrow> i32 \<Rightarrow> 'm) \<Rightarrow> (error + unit) + 'm" where
  "session_request c f =
     (case transport_id c of
        None \<Rightarrow> Inl (Inl ErrNoApplication)
      | Some tid \<Rightarrow>
          (if 0 < sint (media_session (holder c)) then Inr (f tid (media_session (holder c)))
           else Inl (Inl ErrNoMediaSession)))"

text \<open>Namespace, destination and payload of a command's message.\<close>

type_synonym outgoing = "string \<times> string \<times> (u32 \<Rightarrow> json)"

fun command_request :: "command \<Rightarrow> client \<Rightarrow> (error + unit) + outgoing" where
  "command_request ReceiverStatus c = Inr (NS_RECEIVER, RECEIVER_ID, receiver_get_status_payload)"
| "command_request (StopApp sid) c = Inr (NS_RECEIVER, RECEIVER_ID, \<lambda>i. stop_app_payload i sid)"
| "command_request (SetVolume l) c = Inr (NS_RECEIVER, RECEIVER_ID,
     \<lambda>i. set_volume_payload i (Some (f32_clamp l F32_ZERO F32_ONE)) None)"
| "command_request (SetMuted b) c =
     Inr (NS_RECEIVER, RECEIVER_ID, \<lambda>i. set_volume_payload i None (Some b))"
| "command_request (LoadMedia m a t d) c =
     app_request c (\<lambda>tid sid. (NS_MEDIA, tid, \<lambda>i. load_payload i sid m a t d))"
| "command_request Play c =
     session_request c (\<lambda>tid msid. (NS_MEDIA, tid, \<lambda>i. play_payload i msid))"
| "command_request Pause c =
     session_request c (\<lambda>tid msid. (NS_MEDIA, tid, \<lambda>i. pause_payload i msid))"
| "command_request StopMedia c =
     session_request c (\<lambda>tid msid. (NS_MEDIA, tid, \<lambda>i. media_stop_payload i msid))"
| "command_request (Seek p) c =
     session_request c (\<lambda>tid msid. (NS_MEDIA, tid, \<lambda>i. seek_payload i msid p))"
| "command_request MediaStatus c =
     (case transport_id c of
        None \<Rightarrow> Inl (Inr ()) | Some tid \<Rightarrow> Inr (NS_MEDIA, tid, media_get_status_payload))"
| "command_request (QueueLoad xs k r) c =
     app_request c (\<lambda>tid sid. (NS_MEDIA, tid, \<lambda>i. queue_load_payload i sid xs k r))"
| "command_request (QueueInsert xs b) c =
     session_request c (\<lambda>tid msid. (NS_MEDIA, tid, \<lambda>i. queue_insert_payload i msid xs b))"

definition command_message ::
    "render \<Rightarrow> command \<Rightarrow> client \<Rightarrow> (error + unit) + (u32 \<Rightarrow> cast_message)" where
  "command_message render cmd c =
     (case command_request cmd c of
        Inl r \<Rightarrow> Inl r
      | Inr (ns, destination, payload) \<Rightarrow>
          Inr (\<lambda>i. build_message ns SENDER_ID destination (render (payload i))))"

text \<open>What a command makes of an answer that is no device error.\<close>

definition needs :: "error \<Rightarrow> 'a option \<Rightarrow> unit io" where
  "needs e x = lift (if x = None then Inl e else Inr ())"

fun command_finish :: "command \<Rightarrow> json \<Rightarrow> unit io" where
  "command_finish ReceiverStatus j =
     needs (ErrInternal ''failed to parse receiver status'') (parse_receiver_status j)"
| "command_finish (StopApp sid) j = (\<lambda>c. (Inr (), c\<lparr>transport_id := None, session_id := None\<rparr>))"
| "command_finish (SetVolume l) j =
     needs (ErrInternal ''failed to parse volume from response'') (parse_receiver_status j)"
| "command_finish (SetMuted b) j =
     needs (ErrInternal ''failed to parse volume from response'') (parse_receiver_status j)"
| "command_finish (LoadMedia m a t d) j =
     discard (loaded_status ''no media status in response'' j)"
| "command_finish (QueueLoad xs k r) j =
     discard (loaded_status ''no media status in queue load response'' j)"
| "command_finish StopMedia j =
     (\<lambda>c. needs ErrNoMediaSession (parse_media_status j) (store_session 0 c))"
| "command_finish MediaStatus j = lift (Inr ())"
| "command_finish _ j = needs ErrNoMediaSession (parse_media_status j)"

lemma discard_apply: "discard m c = (map_sum (\<lambda>e. e) (\<lambda>_. ()) (fst (m c)), snd (m c))"
  by (simp add: discard_def bind_io_def lift_def split: prod.splits sum.splits)

lemmas command_ops = receiver_status_def stop_app_def set_volume_def set_muted_def load_media_def
  play_def pause_def stop_media_def seek_def media_status_def queue_load_def queue_insert_def
  parsed_volume_def answered_status_def Let_def

lemma needs_simps [simp]: "fst (needs e x c) = (if x = None then Inl e else Inr ())"
  "snd (needs e x c) = c"
  by (simp_all add: needs_def lift_def)

lemma lift_simps [simp]: "fst (lift r c) = r" "snd (lift r c) = c"
  by (simp_all add: lift_def)

lemma map_sum_ok_or [simp]:
  "map_sum (\<lambda>e. e) (\<lambda>_. ()) (ok_or e x) = (if x = None then Inl e else Inr ())"
  by (cases x) simp_all

lemmas message_defs = receiver_get_status_msg_def [abs_def] launch_app_msg_def stop_app_msg_def
  set_volume_msg_def load_msg_def play_msg_def pause_msg_def media_stop_msg_def seek_msg_def
  media_get_status_msg_def queue_load_msg_def queue_insert_msg_def

lemmas guards = app_request_def session_request_def get_transport_id_def get_session_id_def
  get_media_session_id_def

lemma bind_io_unfold:
  "bind_io m (checked f) c =
     (case fst (m c) of
        Inl e \<Rightarrow> (Inl e, snd (m c))
      | Inr j \<Rightarrow> (case check_device_error j of
                   Inl e \<Rightarrow> (Inl e, snd (m c)) | Inr _ \<Rightarrow> f j (snd (m c))))"
  by (simp add: bind_io_def checked_def lift_def split: prod.splits sum.splits)

interpretation commands: device_request "execute render cmd" "command_message render cmd"
  "command_finish cmd" for render cmd
proof unfold_locales
  fix await c
  show "execute render cmd await c =
      (case command_message render cmd c of
         Inl r \<Rightarrow> (r, c) | Inr mk \<Rightarrow> bind_io (request mk await) (checked (command_finish cmd)) c)"
    by (cases cmd)
      (simp_all add: discard_apply command_ops guards bind_io_unfold prod_eq_iff
        command_message_def message_defs
        split: option.split sum.split)
qed

interpretation launching: device_request "\<lambda>await. launch_app render app await now ws"
  "\<lambda>c. Inr (\<lambda>i. launch_app_msg render i (cast_app_id app))"
  "\<lambda>j. case Option.bind (parse_receiver_status j) (find_app (cast_app_id app)) of
       Some a \<Rightarrow> enter_app render a
     | None \<Rightarrow> launch_wait render (cast_app_id app) (now + LAUNCH_WAIT) ws"
  for render app now ws
  by unfold_locales (simp add: launch_app_def)

section \<open>Correctness\<close>

lemma dom_pending_answers: "dom (pending (registry.answers xs t)) \<subseteq> dom (pending t)"
proof (induction xs arbitrary: t)
  case (Cons x xs)
  obtain i v where x: "x = (i, v)" by (cases x)
  have "dom (pending (snd (resolve i v t))) \<subseteq> dom (pending t)"
    by (auto simp: registry.waiting_answer)
  with Cons.IH [of "snd (resolve i v t)"] show ?case by (simp add: x)
qed simp

lemma dom_pending_wait: "dom (pending (snd (wait_for i out t))) \<subseteq> dom (pending t)"
  by (auto simp: wait_for_def remove_pending_eq split: wait_outcome.splits option.splits if_splits)

lemma request_tracker_finish [simp]:
  "request_tracker (snd (command_finish cmd j c)) = request_tracker c"
  by (cases cmd)
    (simp_all add: discard_apply loaded_status_def adopt_session_def Let_def
      split: option.splits)

lemma request_tracker_execute:
  assumes "rx_held (write_ch c)" and "command_message render cmd c = Inr mk"
  shows "request_tracker (snd (execute render cmd await c)) =
     request_tracker (snd (request mk await c))"
  using assms by (simp add: commands.shape bind_io_unfold split: sum.splits)

text \<open>A connected client with an app and a media session, and answers it may get.\<close>

definition sample_client :: client where
  "sample_client =
     \<lparr>request_tracker = tracker_new 10, event_ch = channel 8, write_ch = channel 64,
      holder = new_state\<lparr>media_session := 7\<rparr>, alive = True, last_activity = 0,
      shutting_down = False,
      tasks = \<lparr>token_cancelled = False, reader_task = True, writer_task = True, heartbeat_task = True\<rparr>,
      config = config_of (builder_new ''10.0.0.7'' 8009),
      transport_id = Some ''web-5'', session_id = Some ''s-1''\<rparr>"

definition sample_refusal :: json where
  "sample_refusal = jobj [(''type'', String ''INVALID_REQUEST''), (''requestId'', of_u32 1),
     (''reason'', String ''INVALID_PLAYER_STATE'')]"

definition sample_playing :: json where
  "sample_playing = jobj [(''type'', String ''MEDIA_STATUS''), (''requestId'', of_u32 1),
     (''status'', Array [jobj [(''mediaSessionId'', of_i32 9), (''playerState'', String ''PLAYING'')]])]"

definition sample_running :: json where
  "sample_running = jobj [(''type'', String ''RECEIVER_STATUS''), (''requestId'', of_u32 1),
     (''status'', jobj [(''volume'', jempty), (''applications'', Array [jobj
        [(''appId'', String ''CC1AD845''), (''sessionId'', String ''s-2''),
         (''transportId'', String ''web-6'')]])])]"

definition answer_text :: parser where
  "answer_text txt =
     (if txt = ''refusal'' then Some sample_refusal else if txt = ''playing'' then Some sample_playing
      else if txt = ''running'' then Some sample_running else None)"

lemma sample_client_simps [simp]:
  "request_tracker sample_client = tracker_new 10" "event_ch sample_client = channel 8"
  "write_ch sample_client = channel 64" "holder sample_client = new_state\<lparr>media_session := 7\<rparr>"
  "transport_id sample_client = Some ''web-5''" "session_id sample_client = Some ''s-1''"
  by (simp_all add: sample_client_def)

lemma channel_simps [simp]:
  "buf (channel n) = []" "cap (channel n) = n" "rx_held (channel n)" "tx_held (channel n)"
  by (simp_all add: channel_def)

lemma tracker_new_simps [simp]:
  "counter (tracker_new d) = 0" "pending (tracker_new d) = Map.empty" "timeout (tracker_new d) = d"
  "next_chan (tracker_new d) = 0" "senders (tracker_new d) = Map.empty"
  by (simp_all add: tracker_new_def)

lemma sample_answers:
  "answer_among answer_text [build_message NS_MEDIA ''web-5'' SENDER_ID ''refusal''] 1 = Some sample_refusal"
  "check_device_error sample_refusal = Inl (ErrInvalidRequest 1 ''INVALID_PLAYER_STATE'')"
  by (simp_all add: answer_among_def answer_of_def answer_text_def sample_refusal_def map_filter_simps
      positive_request_id_def classify_media_message_def ns_simps of_u32_def as_u64_def
      check_device_error_def)

text \<open>C2. The outcome of every command. Let a command whose guards hold be sent while the writer
  runs, and let the reader route any messages while it waits. If none of them answers the command's
  identifier the command fails with the configured timeout; otherwise the first that does decides:
  an error the device reports (\<open>LOAD_FAILED\<close>, \<open>LOAD_CANCELLED\<close>, \<open>INVALID_REQUEST\<close>, \<open>LAUNCH_ERROR\<close>)
  is the command's error, and anything else is handed to the command's own last step.\<close>

theorem command_outcome:
  assumes "tracker_inv (request_tracker c)" and "rx_held (write_ch c)"
    and "command_message render cmd c = Inr mk"
  shows "execute render cmd (reader_answers parse render msgs) c =
     (let i = next_id (counter (request_tracker c)); c1 = route_all parse render msgs (queued mk c)
      in case answer_among parse msgs i of
           None \<Rightarrow> (Inl (ErrTimeout (timeout (request_tracker c))), waited i TimedOut c1)
         | Some v \<Rightarrow>
             (case check_device_error v of
                Inl e \<Rightarrow> (Inl e, waited i (Received v) c1)
              | Inr _ \<Rightarrow> command_finish cmd v (waited i (Received v) c1)))"
  using commands.not_answered [OF assms] commands.refused [OF assms] commands.accepted [OF assms]
  by (simp add: Let_def split: option.splits sum.splits)

theorem command_outcome_witness:
  "fst (execute (\<lambda>_. []) Play (reader_answers answer_text (\<lambda>_. [])
      [build_message NS_MEDIA ''web-5'' SENDER_ID ''refusal'']) sample_client)
     = Inl (ErrInvalidRequest 1 ''INVALID_PLAYER_STATE'')"
proof -
  let ?mk = "\<lambda>i. build_message NS_MEDIA SENDER_ID ''web-5'' []"
  have "command_message (\<lambda>_. []) Play sample_client = Inr ?mk"
    by (simp add: command_message_def session_request_def)
  moreover have "tracker_inv (request_tracker sample_client)" "rx_held (write_ch sample_client)"
    by (simp_all add: tracker_inv_new)
  ultimately show ?thesis
    using command_outcome [of sample_client "\<lambda>_. []" Play ?mk answer_text
        "[build_message NS_MEDIA ''web-5'' SENDER_ID ''refusal'']"]
    by (simp add: sample_answers next_id_def Let_def del: execute.simps route_all_simps)
qed

text \<open>No command leaves an entry behind. Whatever the reader routes meanwhile, and whether the
  command is refused, answered, rejected by the device or timed out, the requests that wait
  afterwards all waited before it: its own entry is gone.\<close>

theorem command_leaves_no_entry:
  assumes "tracker_inv (request_tracker c)" and "rx_held (write_ch c)"
  shows "dom (pending (request_tracker (snd (execute render cmd (reader_answers parse render msgs) c))))
     \<subseteq> dom (pending (request_tracker c))"
proof (cases "command_message render cmd c")
  case (Inl r)
  then show ?thesis by (simp add: commands.returns_at_once)
next
  case (Inr mk)
  let ?i = "next_id (counter (request_tracker c))"
  let ?t = "request_tracker (snd (request mk (reader_answers parse render msgs) c))"
  have "dom (pending ?t) \<subseteq> insert ?i (dom (pending (request_tracker c)))"
  proof -
    have "dom (pending (snd (register (request_tracker c)))) =
        insert ?i (dom (pending (request_tracker c)))"
      by (simp add: register_eq)
    then show ?thesis
      using dom_pending_wait dom_pending_answers
      by (simp add: request_answered [OF assms] request_tracker_route_all split: option.splits) blast
  qed
  moreover have "?i \<notin> dom (pending ?t)"
    using request_leaves_no_entry [OF assms] by (simp add: domIff)
  ultimately show ?thesis
    by (auto simp: request_tracker_execute [OF assms(2) Inr])
qed

theorem command_leaves_no_entry_witness:
  "pending (request_tracker (snd (execute (\<lambda>_. []) Play (reader_answers answer_text (\<lambda>_. [])
      [build_message NS_MEDIA ''web-5'' SENDER_ID ''refusal'']) sample_client))) = Map.empty"
proof -
  have "tracker_inv (request_tracker sample_client)" "rx_held (write_ch sample_client)"
    by (simp_all add: tracker_inv_new)
  from command_leaves_no_entry [OF this, of "\<lambda>_. []" Play answer_text
      "[build_message NS_MEDIA ''web-5'' SENDER_ID ''refusal'']"]
  show ?thesis by (simp del: execute.simps)
qed

text \<open>With the writer gone, an entry leaks. When the write channel is closed a command fails
  with \<open>Disconnected\<close> after it has registered, and its entry stays with the tracker until the
  tracker is cleared.\<close>

theorem failed_send_leaks_entry:
  assumes "\<not> rx_held (write_ch c)" and "command_message render cmd c = Inr mk"
  shows "fst (execute render cmd await c) = Inl ErrDisconnected \<and>
     pending (request_tracker (snd (execute render cmd await c)))
       (next_id (counter (request_tracker c))) = Some (next_chan (request_tracker c))"
  by (simp add: commands.writer_gone [OF assms(2,1)] register_eq)

theorem failed_send_leaks_entry_witness:
  "fst (execute (\<lambda>_. []) Play (\<lambda>_ _ c. (TimedOut, c))
      (sample_client\<lparr>write_ch := (channel 64)\<lparr>rx_held := False\<rparr>\<rparr>)) = Inl ErrDisconnected"
proof -
  let ?c = "sample_client\<lparr>write_ch := (channel 64)\<lparr>rx_held := False\<rparr>\<rparr>"
  have "\<not> rx_held (write_ch ?c)" by simp
  moreover have "command_message (\<lambda>_. []) Play ?c = Inr (\<lambda>i. build_message NS_MEDIA SENDER_ID ''web-5'' [])"
    by (simp add: command_message_def session_request_def)
  ultimately show ?thesis using failed_send_leaks_entry by blast
qed

text \<open>The commands that need a running app, and those that need a media session.\<close>

fun needs_app :: "command \<Rightarrow> bool" where
  "needs_app ReceiverStatus \<longleftrightarrow> False" | "needs_app (StopApp _) \<longleftrightarrow> False"
| "needs_app (SetVolume _) \<longleftrightarrow> False" | "needs_app (SetMuted _) \<longleftrightarrow> False"
| "needs_app MediaStatus \<longleftrightarrow> False" | "needs_app _ \<longleftrightarrow> True"

fun needs_session :: "command \<Rightarrow> bool" where
  "needs_session (LoadMedia _ _ _ _) \<longleftrightarrow> False" | "needs_session (QueueLoad _ _ _) \<longleftrightarrow> False"
| "needs_session cmd \<longleftrightarrow> needs_app cmd"

lemma command_message_no_app:
  "needs_app cmd \<Longrightarrow> transport_id c = None \<Longrightarrow> command_message render cmd c = Inl (Inl ErrNoApplication)"
  by (cases cmd) (simp_all add: command_message_def app_request_def session_request_def)

lemma command_message_no_session:
  "needs_session cmd \<Longrightarrow> transport_id c \<noteq> None \<Longrightarrow> \<not> 0 < sint (media_session (holder c)) \<Longrightarrow>
     command_message render cmd c = Inl (Inl ErrNoMediaSession)"
  by (cases cmd) (auto simp: command_message_def session_request_def)

lemma needs_session_app: "needs_session cmd \<Longrightarrow> needs_app cmd"
  by (cases cmd) simp_all

lemma command_message_status:
  "transport_id c = None \<Longrightarrow> command_message render MediaStatus c = Inl (Inr ())"
  by (simp add: command_message_def)

text \<open>C26. Guards come first. Without an app every media command but \<open>media_status\<close> fails with
  \<open>NoApplication\<close>, and with one but no positive media session every command on the session fails with
  \<open>NoMediaSession\<close>; \<open>media_status\<close> returns \<open>None\<close> without an app, and is no error. In each of these cases
  no identifier is used, nothing is written and nothing else changes either.\<close>

theorem guards_come_first:
  assumes "needs_app cmd \<and> transport_id c = None \<and> r = Inl ErrNoApplication \<or>
    needs_session cmd \<and> transport_id c \<noteq> None \<and> \<not> 0 < sint (media_session (holder c)) \<and>
      r = Inl ErrNoMediaSession \<or>
    cmd = MediaStatus \<and> transport_id c = None \<and> r = Inr ()"
  shows "execute render cmd await c = (r, c) \<and>
     (cmd = MediaStatus \<longrightarrow> media_status render await c = (Inr None, c))"
  using assms command_message_no_app command_message_no_session command_message_status
  by (auto intro!: commands.returns_at_once simp: media_status_def get_transport_id_def simp del: execute.simps)

theorem guards_come_first_witness:
  "execute (\<lambda>_. []) (Seek 0) (\<lambda>_ _ c. (TimedOut, c)) (sample_client\<lparr>holder := new_state\<rparr>)
     = (Inl ErrNoMediaSession, sample_client\<lparr>holder := new_state\<rparr>)"
proof -
  have "needs_session (Seek 0) \<and> transport_id (sample_client\<lparr>holder := new_state\<rparr>) \<noteq> None \<and>
      \<not> 0 < sint (media_session (holder (sample_client\<lparr>holder := new_state\<rparr>)))"
    by (simp add: new_state_def)
  then show ?thesis using guards_come_first by blast
qed

text \<open>A load that succeeds is the session controlled next. Whatever happens during the wait,
  when \<open>load_media\<close> returns a status, that status is not an idle one without media, and the media
  session the following commands are sent to is the status's own.\<close>

theorem load_adopts_session:
  assumes "load_media render m a t d await c = (Inr st, c')"
  shows "media_session (holder c') = media_session_id st \<and>
     \<not> (player_state st = Idle \<and> ms_media st = None)"
proof -
  from assms obtain tid sid where
    "bind_io (request (\<lambda>i. load_msg render i tid sid m a t d) await)
       (checked (loaded_status ''no media status in response'')) c = (Inr st, c')"
    by (auto simp: load_media_def bind_io_def [of "lift _"] lift_def split: sum.splits)
  then obtain j c1 where "loaded_status ''no media status in response'' j c1 = (Inr st, c')"
    by (auto simp: bind_io_unfold split: sum.splits)
  then show ?thesis
    by (auto simp: loaded_status_def adopt_session_def Let_def parse_media_status_def bind_eq_Some_conv
        split: option.splits if_splits list.splits)
qed

lemma sample_playing_parses:
  "parse_media_status sample_playing = Some
     \<lparr>media_session_id = 9, player_state = Playing, idle_reason = None, current_time = F64_ZERO,
      ms_duration = None, ms_volume = \<lparr>vol_level = f64_to_f32 F64_ONE, vol_muted = False\<rparr>,
      ms_media = None\<rparr>"
  "check_device_error sample_playing = Inr ()"
  by (simp_all add: sample_playing_def parse_media_status_def parse_player_state_def check_device_error_def)

theorem load_adopts_session_witness:
  "media_session (holder (snd (load_media (\<lambda>_. []) (media_info_new [] []) True 0 None
      (\<lambda>_ _ c. (Received sample_playing, c)) sample_client))) = 9"
proof -
  let ?r = "load_media (\<lambda>_. []) (media_info_new [] []) True 0 None (\<lambda>_ _ c. (Received sample_playing, c))
      sample_client"
  have "fst ?r = Inr (the (parse_media_status sample_playing))"
    by (simp add: load_media_def get_transport_id_def get_session_id_def bind_io_unfold request_sent
        Let_def wait_for_def sample_playing_parses loaded_status_def)
  then have "?r = (Inr (the (parse_media_status sample_playing)), snd ?r)" by (simp add: prod_eq_iff)
  from load_adopts_session [OF this] show ?thesis by (simp add: sample_playing_parses)
qed

text \<open>Stopping ends the session. When the device accepts \<open>stop_media\<close>, whether or not its answer
  holds a status, the session is 0 afterwards, and the next command on the session is refused
  without being sent.\<close>

theorem stop_ends_session:
  assumes "stop_media render await c = (r, c')" and "r = Inr st" and "needs_session cmd"
  shows "media_session (holder c') = 0 \<and>
     (\<exists>e \<in> {ErrNoApplication, ErrNoMediaSession}. execute render cmd await' c' = (Inl e, c'))"
proof -
  from assms(1,2) obtain tid msid where
    "bind_io (request (\<lambda>i. media_stop_msg render i tid msid) await)
       (checked (\<lambda>j c. answered_status j (store_session 0 c))) c = (Inr st, c')"
    by (auto simp: stop_media_def bind_io_def [of "lift _"] lift_def split: sum.splits)
  then have z: "media_session (holder c') = 0"
    by (auto simp: bind_io_unfold answered_status_def lift_def split: sum.splits)
  moreover have "\<exists>e \<in> {ErrNoApplication, ErrNoMediaSession}. command_message render cmd c' = Inl (Inl e)"
    using command_message_no_app [OF needs_session_app [OF assms(3)], of c']
      command_message_no_session [OF assms(3), of c'] z
    by (cases "transport_id c' = None") simp_all
  ultimately show ?thesis using commands.returns_at_once by blast
qed

theorem stop_ends_session_witness:
  "media_session (holder (snd (stop_media (\<lambda>_. []) (\<lambda>_ _ c. (Received sample_playing, c)) sample_client))) = 0"
proof -
  let ?r = "stop_media (\<lambda>_. []) (\<lambda>_ _ c. (Received sample_playing, c)) sample_client"
  have "fst ?r = Inr (the (parse_media_status sample_playing))"
    by (simp add: stop_media_def get_transport_id_def get_media_session_id_def bind_io_unfold
        request_sent Let_def wait_for_def sample_playing_parses answered_status_def)
  moreover have "?r = (fst ?r, snd ?r)" by simp
  moreover have "needs_session Pause" by simp
  ultimately show ?thesis using stop_ends_session by blast
qed

lemma command_request_correlated:
  assumes "command_request cmd c = Inr (ns, destination, payload)"
  shows "correlated_request payload"
proof -
  have a: "app_request c f = Inr x \<Longrightarrow> \<exists>tid sid. x = f tid sid" for f and x :: 'm
    by (auto simp: app_request_def split: option.splits)
  have b: "session_request c f = Inr x \<Longrightarrow> \<exists>tid msid. x = f tid msid" for f and x :: 'm
    by (auto simp: session_request_def split: option.splits if_splits)
  show ?thesis
    using assms
    by (cases cmd)
      (auto dest!: a b split: option.splits
        intro: receiver_get_status_request.correlated_request_axioms
          stop_app_request.correlated_request_axioms set_volume_request.correlated_request_axioms
          load_request.correlated_request_axioms play_request.correlated_request_axioms
          pause_request.correlated_request_axioms media_stop_request.correlated_request_axioms
          seek_request.correlated_request_axioms media_get_status_request.correlated_request_axioms
          queue_load_request.correlated_request_axioms queue_insert_request.correlated_request_axioms)
qed

text \<open>A device that echoes \<open>requestId\<close> answers the request. For every command, an answer that
  repeats the \<open>requestId\<close> of the payload that was sent is taken by the router for the answer to this
  very request: on the receiver channel, or on the media channel when its type is one of the four
  the router knows.\<close>

theorem echoed_id_answers_command:
  assumes "command_request cmd c = Inr (ns, destination, payload)" and "i \<noteq> 0"
    and "parse (unwrap_or [] (payload_utf8 reply)) = Some j"
    and "jget ''requestId'' j = jget ''requestId'' (payload i)"
    and "namespace reply = NS_RECEIVER \<or> namespace reply = NS_MEDIA \<and>
           classify_media_message (unwrap_or [] (get_str ''type'' j)) \<noteq> MUnknown"
  shows "answer_of parse reply = Some (i, j)"
proof -
  note r = command_request_correlated [OF assms(1)]
  have "get_u64 ''requestId'' j = Some (ucast i)"
    using assms(4) correlated_request.carries_id [OF r] by simp
  moreover have "0 < (ucast i :: u64)"
    using correlated_request.echoed_id_positive [OF r assms(2)] correlated_request.carries_id [OF r]
    by blast
  ultimately show ?thesis
    using assms(3,5) by (auto simp: answer_of_def positive_request_id_def ns_simps)
qed

theorem echoed_id_answers_command_witness:
  "answer_of answer_text (build_message NS_MEDIA ''web-5'' SENDER_ID ''playing'') = Some (1, sample_playing)"
proof (rule echoed_id_answers_command)
  show "command_request Play sample_client = Inr (NS_MEDIA, ''web-5'', \<lambda>i. play_payload i 7)"
    by (simp add: session_request_def)
  show "(1 :: u32) \<noteq> 0" by simp
  show "answer_text (unwrap_or [] (payload_utf8 (build_message NS_MEDIA ''web-5'' SENDER_ID ''playing'')))
      = Some sample_playing"
    by (simp add: answer_text_def)
  show "jget ''requestId'' sample_playing = jget ''requestId'' (play_payload 1 7)"
    by (simp add: sample_playing_def play_payload_def)
  show "namespace (build_message NS_MEDIA ''web-5'' SENDER_ID ''playing'') = NS_RECEIVER \<or>
      namespace (build_message NS_MEDIA ''web-5'' SENDER_ID ''playing'') = NS_MEDIA \<and>
      classify_media_message (unwrap_or [] (get_str ''type'' sample_playing)) \<noteq> MUnknown"
    by (simp add: sample_playing_def classify_media_message_def ns_simps)
qed

lemma entered:
  assumes "enter_app render a c = (Inr b, c')"
  shows "b = a \<and> transport_id c' = Some (app_transport_id a) \<and>
     session_id c' = Some (app_session_id a) \<and>
     buf (write_ch c') = buf (write_ch c) @ [connect_msg render (app_transport_id a)]"
  using assms
  by (auto simp: enter_app_def bind_io_def send_def send_write_def chan_send_def split: if_splits)

lemma enter_app_sent: "rx_held (write_ch c) \<Longrightarrow> fst (enter_app render a c) = Inr a"
  by (simp add: enter_app_def bind_io_def send_def send_write_def chan_send_def)

lemma launch_wait_enters:
  assumes "launch_wait render target deadline ws c = (Inr a, c')"
  shows "app_id a = target \<and> transport_id c' = Some (app_transport_id a) \<and>
     session_id c' = Some (app_session_id a) \<and>
     (\<exists>xs. buf (write_ch c') = xs @ [connect_msg render (app_transport_id a)])"
  using assms
proof (induction render target deadline ws c rule: launch_wait.induct)
  case (2 render target deadline now others ws c)
  have find: "app_id b = target" if "find_app target st = Some b" for st b
    using that by (auto simp: find_app_def find_Some_iff)
  obtain r c1 where n: "next_event (others c) = (r, c1)" by fastforce
  show ?case
  proof (cases "\<exists>st b. r = Item (EvReceiverStatusChanged st) \<and> find_app target st = Some b")
    case True
    then obtain st b where "r = Item (EvReceiverStatusChanged st)" "find_app target st = Some b"
      by blast
    with 2 n find [of st b] show ?thesis
      by (auto split: if_splits dest!: entered)
  next
    case False
    with 2 n show ?thesis
      by (auto split: if_splits recv.splits cast_event.splits option.splits)
  qed
qed simp

text \<open>A launched app is the one asked for and the one connected to. When \<open>launch_app\<close> returns an
  app, at once or after waiting, it has the requested identifier, the last message queued is the
  \<open>CONNECT\<close> to its transport, and the following media commands go to its transport and session.\<close>

theorem launched_app_is_current:
  assumes "launch_app render app await now ws c = (Inr a, c')"
  shows "app_id a = cast_app_id app \<and> transport_id c' = Some (app_transport_id a) \<and>
     session_id c' = Some (app_session_id a) \<and>
     (\<exists>xs. buf (write_ch c') = xs @ [connect_msg render (app_transport_id a)])"
proof -
  have find: "app_id b = cast_app_id app"
    if "Option.bind (parse_receiver_status j) (find_app (cast_app_id app)) = Some b" for j b
    using that by (auto simp: find_app_def find_Some_iff bind_eq_Some_conv)
  from assms show ?thesis
    using find
    by (auto simp: launch_app_def bind_io_unfold split: sum.splits option.splits
        dest!: entered launch_wait_enters)
qed

definition sample_running_app :: application where
  "sample_running_app =
     \<lparr>app_id = ''CC1AD845'', display_name = [], app_session_id = ''s-2'', app_transport_id = ''web-6'',
      app_namespaces = [], status_text = []\<rparr>"

lemma sample_running_parses:
  "Option.bind (parse_receiver_status sample_running) (find_app ''CC1AD845'') = Some sample_running_app"
  "check_device_error sample_running = Inr ()"
  by (simp_all add: sample_running_def parse_receiver_status_def parse_application_def parse_namespaces_def
      find_app_def sample_running_app_def check_device_error_def map_filter_simps)

theorem launched_app_is_current_witness:
  "transport_id (snd (launch_app (\<lambda>_. []) DefaultMediaReceiver (\<lambda>_ _ c. (Received sample_running, c)) 0 []
      sample_client)) = Some ''web-6''"
proof -
  let ?r = "launch_app (\<lambda>_. []) DefaultMediaReceiver (\<lambda>_ _ c. (Received sample_running, c)) 0 [] sample_client"
  have "fst ?r = Inr sample_running_app"
    by (simp add: launch_app_def bind_io_unfold request_sent Let_def wait_for_def sample_running_parses
        cast_app_id_def APP_DEFAULT_MEDIA_RECEIVER_def enter_app_sent)
  then have "?r = (Inr sample_running_app, snd ?r)" by (simp add: prod_eq_iff)
  from launched_app_is_current [OF this] show ?thesis by (simp add: sample_running_app_def)
qed

text \<open>What the other tasks may do to the event and write channels while the client waits.\<close>

definition only_adds :: "(client \<Rightarrow> client) \<Rightarrow> bool" where
  "only_adds f \<longleftrightarrow>
     (\<forall>c. (\<exists>es. buf (event_ch (f c)) = buf (event_ch c) @ es) \<and>
          rx_held (write_ch (f c)) = rx_held (write_ch c))"

lemma only_adds_id: "only_adds id"
  by (simp add: only_adds_def)

lemma only_addsD:
  "only_adds f \<Longrightarrow> buf (event_ch c) = xs \<Longrightarrow>
     \<exists>es. buf (event_ch (f c)) = xs @ es \<and> rx_held (write_ch (f c)) = rx_held (write_ch c)"
  by (auto simp: only_adds_def)

text \<open>C36. A slow app is found by its first status. While \<open>launch_app\<close> waits, if the first
  receiver status in the event queue that lists the app comes after \<open>n\<close> other events, and the clock
  allows \<open>n + 1\<close> turns of the loop, it returns the app. Those \<open>n\<close> events are gone: the caller of
  \<open>next_event\<close> never sees them.\<close>

theorem launch_finds_app:
  assumes "buf (event_ch c) = pre @ EvReceiverStatusChanged st # post"
    and "find_app target st = Some a"
    and "\<forall>e \<in> set pre. \<forall>st'. e = EvReceiverStatusChanged st' \<longrightarrow> find_app target st' = None"
    and "length pre < length ws" and "\<forall>(now, others) \<in> set ws. now < deadline \<and> only_adds others"
    and "rx_held (write_ch c)"
  shows "\<exists>c' es. launch_wait render target deadline ws c = (Inr a, c') \<and>
     buf (event_ch c') = post @ es"
  using assms
proof (induction pre arbitrary: ws c post)
  case Nil
  then obtain now others ws' where ws: "ws = (now, others) # ws'"
    by (metis length_greater_0_conv list.exhaust list.size(3) surj_pair)
  with Nil obtain es where
    "buf (event_ch (others c)) = EvReceiverStatusChanged st # post @ es" "rx_held (write_ch (others c))"
    using only_addsD [OF _ Nil.prems(1), of others] by auto
  with Nil ws show ?case
    by (simp add: next_event_def chan_recv_def enter_app_def bind_io_def send_def send_write_def
        chan_send_def)
next
  case (Cons e pre)
  then obtain now others ws' where ws: "ws = (now, others) # ws'"
    by (metis length_0_conv list.exhaust not_less_zero surj_pair)
  with Cons.prems obtain es where
    b: "buf (event_ch (others c)) = e # pre @ EvReceiverStatusChanged st # post @ es" and
    rx: "rx_held (write_ch (others c))"
    using only_addsD [OF _ Cons.prems(1), of others] by auto
  let ?c = "(others c)\<lparr>event_ch := (event_ch (others c))
      \<lparr>buf := pre @ EvReceiverStatusChanged st # post @ es\<rparr>\<rparr>"
  have step: "launch_wait render target deadline ws c = launch_wait render target deadline ws' ?c"
    using Cons.prems(3,5) ws b
    by (auto simp: next_event_def chan_recv_def split: cast_event.split option.split)
  have "\<exists>c' es'. launch_wait render target deadline ws' ?c = (Inr a, c') \<and>
      buf (event_ch c') = (post @ es) @ es'"
    by (rule Cons.IH) (use Cons.prems ws rx in auto)
  then show ?case unfolding step by auto
qed

theorem launch_finds_app_witness:
  "fst (launch_wait (\<lambda>_. []) ''CC1AD845'' 15 [(0, id), (3, id)]
     (sample_client\<lparr>event_ch := (channel 8)\<lparr>buf :=
        [EvConnected, EvReceiverStatusChanged (the (parse_receiver_status sample_running))]\<rparr>\<rparr>)) = Inr sample_running_app"
proof -
  let ?c = "sample_client\<lparr>event_ch := (channel 8)\<lparr>buf :=
      [EvConnected, EvReceiverStatusChanged (the (parse_receiver_status sample_running))]\<rparr>\<rparr>"
  have st: "find_app ''CC1AD845'' (the (parse_receiver_status sample_running)) = Some sample_running_app"
    using sample_running_parses(1) by (cases "parse_receiver_status sample_running") simp_all
  have ev: "buf (event_ch ?c) =
      [EvConnected] @ EvReceiverStatusChanged (the (parse_receiver_status sample_running)) # []"
    by simp
  have "\<exists>c' es. launch_wait (\<lambda>_. []) ''CC1AD845'' 15 [(0, id), (3, id)] ?c = (Inr sample_running_app, c') \<and>
      buf (event_ch c') = [] @ es"
    by (rule launch_finds_app [OF ev st]) (simp_all add: only_adds_id)
  then show ?thesis by auto
qed

text \<open>\<open>send_raw\<close> hands the caller whatever answers. Its answer is returned as it is, device errors
  included: unlike the other operations it makes no \<open>check_device_error\<close>. A payload that is no object
  is refused and nothing changes.\<close>

theorem send_raw_outcome:
  assumes "tracker_inv (request_tracker c)" and "rx_held (write_ch c)"
  shows "fst (send_raw render ns destination payload (reader_answers parse render msgs) c) =
     (if \<not> is_obj payload then Inl ErrInvalidPayload
      else case answer_among parse msgs (next_id (counter (request_tracker c))) of
             None \<Rightarrow> Inl (ErrTimeout (timeout (request_tracker c))) | Some v \<Rightarrow> Inr v)"
  using request_answered [OF assms]
  by (simp add: send_raw_def lift_def split: option.splits)

theorem send_raw_outcome_witness:
  "fst (send_raw (\<lambda>_. []) NS_MEDIA ''web-5'' jempty (reader_answers answer_text (\<lambda>_. [])
      [build_message NS_MEDIA ''web-5'' SENDER_ID ''refusal'']) sample_client) = Inr sample_refusal"
proof -
  have "tracker_inv (request_tracker sample_client)" "rx_held (write_ch sample_client)"
    by (simp_all add: tracker_inv_new)
  from send_raw_outcome [OF this] show ?thesis
    by (simp add: sample_answers next_id_def)
qed

section \<open>Volume\<close>

lemma clamped_finite:
  assumes "\<not> f32_is_nan x"
  shows "f32_is_finite (f32_clamp x F32_ZERO F32_ONE)"
proof -
  let ?l = "f32_clamp x F32_ZERO F32_ONE"
  have "0 \<le> f32_key ?l" "f32_key ?l \<le> 1065353216" using f32_clamp_unit [OF assms] by simp_all
  then have "int (f32_mag ?l) \<le> 1065353216" by (simp add: f32_key_def split: if_splits)
  then show ?thesis by (simp add: f32_is_finite_def)
qed

text \<open>The volume asked for is in range and is the volume read back. Whatever level \<open>set_volume\<close> is
  called with, unless it is a NaN the level sent is neither below 0 nor above 1, is the one asked for
  when that lies between, and a status that reports it back is parsed as exactly this level; a NaN
  is sent as null.\<close>

theorem volume_in_range:
  "case command_request (SetVolume level) c of
     Inl _ \<Rightarrow> False
   | Inr (ns, destination, payload) \<Rightarrow>
       (\<exists>vol. jget ''volume'' (payload i) = Some vol \<and>
         (if f32_is_nan level then jget ''level'' vol = Some Null
          else (\<exists>l. \<not> f32_lt l F32_ZERO \<and> \<not> f32_lt F32_ONE l \<and>
            l = (if f32_lt level F32_ZERO then F32_ZERO else if f32_lt F32_ONE level then F32_ONE else level) \<and>
            jget ''level'' vol = Some (of_f32 l) \<and>
            map_option rs_volume (parse_receiver_status (jobj [(''status'', jobj [(''volume'', vol)])])) =
              Some \<lparr>vol_level = l, vol_muted = False\<rparr>)))"
proof (cases "f32_is_nan level")
  case True
  then have "f32_clamp level F32_ZERO F32_ONE = level" by (simp add: f32_clamp_def f32_lt_def Let_def)
  with True show ?thesis
    by (simp add: set_volume_payload_def of_f32_def f32_is_nan_def f32_is_finite_def)
next
  case False
  let ?l = "f32_clamp level F32_ZERO F32_ONE"
  have l: "?l = (if f32_lt level F32_ZERO then F32_ZERO else if f32_lt F32_ONE level then F32_ONE else level)"
    by (simp add: f32_clamp_def f32_lt_def Let_def)
  have range: "\<not> f32_lt ?l F32_ZERO" "\<not> f32_lt F32_ONE ?l"
    using f32_clamp_unit [OF False] by (simp_all add: f32_lt_def)
  have vol: "jget ''volume'' (set_volume_payload i (Some ?l) None) = Some (jput ''level'' (of_f32 ?l) jempty)"
    by (simp add: set_volume_payload_def)
  have "map_option rs_volume (parse_receiver_status
      (jobj [(''status'', jobj [(''volume'', jput ''level'' (of_f32 ?l) jempty)])])) =
        Some \<lparr>vol_level = ?l, vol_muted = False\<rparr>"
    using clamped_finite [OF False] by (simp add: parse_receiver_status_def f64_to_f32_to_f64)
  with False range vol show ?thesis by (auto simp flip: l)
qed

end
