(* ===== verification/Tasks.thy ===== *)
theory Tasks
  imports Requests
begin

text \<open>
  The background tasks of \<open>client.rs\<close>: \<open>reader_loop\<close> and \<open>writer_loop\<close>. Each is driven by the bytes
  or messages that reach it; \<open>others\<close> is what the other tasks did to the shared state before each
  of its steps, and a cancellation of its token wins the \<open>select\<close> where the argument says so. A reader
  whose handle is aborted (\<open>TaskHandles::shutdown\<close>) just ends.
\<close>

section \<open>The reader\<close>

definition reader_cancelled :: "'a shared_scheme \<Rightarrow> 'a shared_scheme" where
  "reader_cancelled s = on_tracker tracker_clear s"

definition reader_failed :: "error \<Rightarrow> 'a shared_scheme \<Rightarrow> 'a shared_scheme" where
  "reader_failed e s =
     (let s1 = s\<lparr>alive := False\<rparr>;
          s2 = (if e = ErrDisconnected then send_event (EvDisconnected None) s1
                else send_event (EvDisconnected (Some (error_display e))) s1);
          s3 = watch_connection ConnDisconnected s2
      in on_tracker tracker_clear s3)"

definition reader_received ::
    "parser \<Rightarrow> render \<Rightarrow> nat \<Rightarrow> cast_message \<Rightarrow> 'a shared_scheme \<Rightarrow> 'a shared_scheme" where
  "reader_received parse render now msg s = route parse render msg (touch now s)"

text \<open>Besides the end of its stream, the reader ends when it notices the cancellation of its token, or when
  it is aborted before that: then nothing of it runs any more, its \<open>clear\<close> included.\<close>

datatype reader_stop = TokenCancelled | Aborted

definition stop_at :: "(nat \<times> reader_stop) option \<Rightarrow> nat \<Rightarrow> reader_stop option" where
  "stop_at stop k = (case stop of Some (n, how) \<Rightarrow> if n = k then Some how else None | None \<Rightarrow> None)"

lemma stop_at_simps [simp]: "stop_at None k = None" "stop_at (Some (k, how)) k = Some how"
  by (simp_all add: stop_at_def)

text \<open>The loop: \<open>clock k\<close> is the time message \<open>k\<close> arrives, and \<open>stop\<close> the number of messages after
  which it is stopped, if it is, and how.\<close>

function reader_loop ::
    "parser \<Rightarrow> render \<Rightarrow> (u8 list \<Rightarrow> string + cast_message) \<Rightarrow> (nat \<Rightarrow> nat)
      \<Rightarrow> (nat \<Rightarrow> 'a shared_scheme \<Rightarrow> 'a shared_scheme) \<Rightarrow> (nat \<times> reader_stop) option \<Rightarrow> nat \<Rightarrow> reader
      \<Rightarrow> 'a shared_scheme \<Rightarrow> 'a shared_scheme" where
  "reader_loop parse render decode clock others stop k r s =
     (let s = others k s
      in case stop_at stop k of
           Some TokenCancelled \<Rightarrow> reader_cancelled s
         | Some Aborted \<Rightarrow> s
         | None \<Rightarrow>
             (case read_message decode r of
                Inr (msg, r') \<Rightarrow>
                  reader_loop parse render decode clock others stop (Suc k) r'
                    (reader_received parse render (clock k) msg s)
              | Inl e \<Rightarrow> reader_failed e s))"
  by pat_completeness auto
termination
  by (relation "measure (\<lambda>(_, _, _, _, _, _, _, r, _). length (rd_bytes r))")
    (auto dest: read_message_shrinks)

declare reader_loop.simps [simp del]

text \<open>The ways a turn of the loop goes.\<close>

lemma reader_loop_cancelled:
  "stop_at stop k = Some TokenCancelled \<Longrightarrow>
     reader_loop parse render decode clock others stop k r s = reader_cancelled (others k s)"
  by (subst reader_loop.simps) (simp add: Let_def)

lemma reader_loop_aborted:
  "stop_at stop k = Some Aborted \<Longrightarrow>
     reader_loop parse render decode clock others stop k r s = others k s"
  by (subst reader_loop.simps) (simp add: Let_def)

lemma reader_loop_failed:
  "stop_at stop k = None \<Longrightarrow> read_message decode r = Inl e \<Longrightarrow>
     reader_loop parse render decode clock others stop k r s = reader_failed e (others k s)"
  by (subst reader_loop.simps) (simp add: Let_def)

lemma reader_loop_received:
  "stop_at stop k = None \<Longrightarrow> read_message decode r = Inr (msg, r') \<Longrightarrow>
     reader_loop parse render decode clock others stop k r s =
       reader_loop parse render decode clock others stop (Suc k) r'
         (reader_received parse render (clock k) msg (others k s))"
  by (subst reader_loop.simps) (simp add: Let_def)

section \<open>The writer\<close>

datatype writer_wake = WriterRecv write_outcome | WriterCancelled

text \<open>A task that ends drops its receiver.\<close>

definition close_writer :: "'a shared_scheme \<Rightarrow> 'a shared_scheme" where
  "close_writer s = s\<lparr>write_ch := (write_ch s)\<lparr>rx_held := False\<rparr>\<rparr>"

definition writer_failed :: "'a shared_scheme \<Rightarrow> 'a shared_scheme" where
  "writer_failed s = close_writer (watch_connection ConnDisconnected (s\<lparr>alive := False\<rparr>))"

text \<open>The loop, with the bytes on the stream so far; it also tells whether the task still runs.\<close>

fun writer_loop ::
    "(cast_message \<Rightarrow> u8 list) \<Rightarrow> (('a shared_scheme \<Rightarrow> 'a shared_scheme) \<times> writer_wake) list
      \<Rightarrow> u8 list \<Rightarrow> 'a shared_scheme \<Rightarrow> bool \<times> u8 list \<times> 'a shared_scheme" where
  "writer_loop encode [] w s = (True, w, s)"
| "writer_loop encode ((others, WriterCancelled) # ws) w s = (False, w, close_writer (others s))"
| "writer_loop encode ((others, WriterRecv io) # ws) w s =
     (let s = others s
      in case chan_recv (write_ch s) of
           (Item msg, ch) \<Rightarrow>
             (let s1 = s\<lparr>write_ch := ch\<rparr>
              in case write_message encode io msg w of
                   (Inl e, w') \<Rightarrow> (False, w', writer_failed s1)
                 | (Inr _, w') \<Rightarrow> writer_loop encode ws w' s1)
         | (Closed, ch) \<Rightarrow> (False, w, close_writer s)
         | (Waiting, ch) \<Rightarrow> writer_loop encode ws w s)"

section \<open>What the reader leaves behind\<close>

lemma no_held_after_clear:
  assumes "tracker_inv t"
  shows "pending (tracker_clear t) = Map.empty \<and> (\<forall>rx. senders (tracker_clear t) rx \<noteq> Some Held)"
proof -
  have "tracker_inv (tracker_clear t)" using assms by (rule tracker_inv_clear)
  moreover have "pending (tracker_clear t) = Map.empty" by (simp add: tracker_clear_def)
  ultimately show ?thesis by (simp add: tracker_inv_def pending_inv_def)
qed

text \<open>A change by other tasks that keeps the tracker's invariant.\<close>

definition keeps_tracker :: "('a shared_scheme \<Rightarrow> 'a shared_scheme) \<Rightarrow> bool" where
  "keeps_tracker f \<longleftrightarrow> (\<forall>s. tracker_inv (request_tracker s) \<longrightarrow> tracker_inv (request_tracker (f s)))"

lemma reader_loop_tracker:
  assumes "tracker_inv (request_tracker s)" and "\<forall>n. keeps_tracker (others n)"
    and "\<forall>n. stop_at stop n \<noteq> Some Aborted"
  shows "\<exists>t. tracker_inv t \<and>
     request_tracker (reader_loop parse render decode clock others stop k r s) = tracker_clear t"
  using assms
proof (induction parse render decode clock others stop k r s rule: reader_loop.induct)
  case (1 parse render decode clock others stop k r s)
  let ?s = "others k s"
  have inv: "tracker_inv (request_tracker ?s)"
    using 1(2,3) by (simp add: keeps_tracker_def)
  show ?case
  proof (cases "stop_at stop k")
    case (Some how)
    then have how: "stop_at stop k = Some TokenCancelled" using 1(4) by (cases how) auto
    have "request_tracker (reader_cancelled ?s) = tracker_clear (request_tracker ?s)"
      by (simp add: reader_cancelled_def)
    with inv show ?thesis
      unfolding reader_loop_cancelled [OF how] by blast
  next
    case None
    show ?thesis
    proof (cases "read_message decode r")
      case (Inl e)
      have "request_tracker (reader_failed e ?s) = tracker_clear (request_tracker ?s)"
        by (simp add: reader_failed_def Let_def)
      with inv show ?thesis
        unfolding reader_loop_failed [OF None Inl] by blast
    next
      case (Inr x)
      obtain msg r' where x: "x = (msg, r')" by (cases x)
      have "tracker_inv (request_tracker (reader_received parse render (clock k) msg ?s))"
        using inv by (simp add: reader_received_def tracker_inv_route)
      from 1(1) [OF refl None Inr [unfolded x] refl this 1(3,4)] show ?thesis
        unfolding reader_loop_received [OF None Inr [unfolded x]] .
    qed
  qed
qed

text \<open>C7. No request hangs when the reader ends of its own accord. However it does (the device closes, the
  stream fails, a message is malformed, it notices that its token is cancelled) and whatever other tasks
  did while it ran, no request waits any more: every oneshot channel has its value or a dropped sender,
  so each pending \<open>wait_for\<close> returns its answer or \<open>Disconnected\<close> at once, never by timeout. Only a reader
  that is aborted is excepted.\<close>

theorem reader_end_wakes_requests:
  assumes "tracker_inv (request_tracker s)" and "\<forall>n. keeps_tracker (others n)"
    and "\<forall>n. stop_at stop n \<noteq> Some Aborted"
    and "request_tracker (reader_loop parse render decode clock others stop 0 r s) = t"
    and "oneshot_promise t rx out"
  shows "pending t = Map.empty \<and>
     (\<exists>v. senders t rx = Some (Sent v) \<and> fst (wait_for i out t) = Inr v \<or>
          fst (wait_for i out t) = Inl ErrDisconnected)"
proof -
  from reader_loop_tracker [OF assms(1-3), where parse = parse and render = render
      and decode = decode and clock = clock and k = 0 and r = r]
  obtain u where u: "tracker_inv u" and t: "t = tracker_clear u"
    unfolding assms(4) by blast
  have "senders t rx \<noteq> Some Held" "pending t = Map.empty"
    unfolding t using no_held_after_clear [OF u] by blast+
  with assms(5) show ?thesis
    by (cases out) (simp_all add: oneshot_promise_def wait_for_def)
qed

theorem reader_end_wakes_requests_witness:
  "fst (wait_for 1 SenderGone (request_tracker (reader_loop sample_parse (\<lambda>_. []) cast_message_decode id
      (\<lambda>_. id) (Some (0, TokenCancelled)) 0 \<lparr>rd_bytes = [], rd_end = IoError UnexpectedEof []\<rparr> one_waiting)))
     = Inl ErrDisconnected"
proof -
  let ?stop = "Some (0, TokenCancelled)"
  let ?t = "request_tracker (reader_loop sample_parse (\<lambda>_. []) cast_message_decode id
      (\<lambda>_. id) ?stop 0 \<lparr>rd_bytes = [], rd_end = IoError UnexpectedEof []\<rparr> one_waiting)"
  have k: "\<forall>n. keeps_tracker ((\<lambda>_. id :: shared \<Rightarrow> shared) n)" by (simp add: keeps_tracker_def)
  have a: "\<forall>n. stop_at ?stop n \<noteq> Some Aborted" by (simp add: stop_at_def)
  have "oneshot_promise ?t 0 SenderGone"
    by (simp add: reader_loop_cancelled reader_cancelled_def oneshot_promise_def tracker_clear_def
        one_waiting_tracker ran_def)
  from reader_end_wakes_requests [OF one_waiting_tracker(1) k a refl this] show ?thesis
    by (auto simp: wait_for_def)
qed

section \<open>What arrives is routed\<close>

lemma touch_ops:
  "send_event e (touch n s) = touch n (send_event e s)"
  "send_write m (touch n s) = (fst (send_write m s), touch n (snd (send_write m s)))"
  "watch_media v (touch n s) = touch n (watch_media v s)"
  "watch_receiver w (touch n s) = touch n (watch_receiver w s)"
  "store_session i (touch n s) = touch n (store_session i s)"
  "on_tracker f (touch n s) = touch n (on_tracker f s)"
  by (simp_all add: touch_def shared_ops chan_send_def)

lemma handle_media_status_touch:
  "handle_media_status st (touch n s) = touch n (handle_media_status st s)"
  by (simp add: handle_media_status_def Let_def touch_ops split: option.split)

lemma resolve_correlated_touch: "resolve_correlated j (touch n s) = touch n (resolve_correlated j s)"
  by (simp add: resolve_correlated_def touch_ops split: option.split)

lemma route_touch: "route parse render msg (touch n s) = touch n (route parse render msg s)"
proof (cases msg rule: namespace_cases)
  case Media
  then show ?thesis
    by (simp add: route_at route_media_def Let_def touch_ops resolve_correlated_touch
        handle_media_status_touch split: option.split media_message_type.split)
qed (simp_all add: route_at route_heartbeat_def route_connection_def route_receiver_def
      route_other_def Let_def touch_ops resolve_correlated_touch split: option.split)

lemma route_all_touch: "route_all parse render ms (touch n s) = touch n (route_all parse render ms s)"
  by (induction ms arbitrary: s) (simp_all add: route_touch)

lemma touch_touch [simp]: "touch m (touch n s) = touch m s"
  by (simp add: touch_def)

lemma reader_failed_touch_frame:
  "request_tracker (reader_failed e s) = tracker_clear (request_tracker s)"
  "write_ch (reader_failed e s) = write_ch s"
  "holder (reader_failed e s) = (holder s)\<lparr>connection := ConnDisconnected\<rparr>"
  "alive (reader_failed e s) = False"
  "event_ch (reader_failed e s) = chan_try_send
     (EvDisconnected (if e = ErrDisconnected then None else Some (error_display e))) (event_ch s)"
  by (simp_all add: reader_failed_def Let_def)

lemma touch_same [simp]: "touch (last_activity s) s = s"
  by (simp add: touch_def)

text \<open>The reader over the frames of messages, no other task interfering, as long as it is not stopped.\<close>

lemma reader_loop_frames:
  assumes "wire_codec encode decode" and "\<forall>m \<in> set ms. length (encode m) \<le> MAX_MESSAGE"
    and "\<forall>j. k \<le> j \<and> j < k + length ms \<longrightarrow> stop_at stop j = None"
  shows "\<exists>n. reader_loop parse render decode clock (\<lambda>_ s. s) stop k
       \<lparr>rd_bytes = concat (map (\<lambda>m. frame (encode m)) ms) @ rest, rd_end = e\<rparr> s =
     reader_loop parse render decode clock (\<lambda>_ s. s) stop (k + length ms)
       \<lparr>rd_bytes = rest, rd_end = e\<rparr> (touch n (route_all parse render ms s))"
  using assms(2,3)
proof (induction ms arbitrary: k s)
  case Nil
  then show ?case by (auto intro!: exI [of _ "last_activity s"])
next
  case (Cons m ms)
  let ?rest = "concat (map (\<lambda>m. frame (encode m)) ms) @ rest"
  have m: "read_message decode \<lparr>rd_bytes = frame (encode m) @ ?rest, rd_end = e\<rparr> =
      Inr (m, \<lparr>rd_bytes = ?rest, rd_end = e\<rparr>)"
    using wire_codec.read_frame [OF assms(1)] Cons.prems by simp
  have "stop_at stop k = None" using Cons.prems(2) by simp
  from reader_loop_received [OF this m, of parse render clock "\<lambda>_ s. s"]
  have step: "reader_loop parse render decode clock (\<lambda>_ s. s) stop k
       \<lparr>rd_bytes = concat (map (\<lambda>m. frame (encode m)) (m # ms)) @ rest, rd_end = e\<rparr> s =
     reader_loop parse render decode clock (\<lambda>_ s. s) stop (Suc k) \<lparr>rd_bytes = ?rest, rd_end = e\<rparr>
       (touch (clock k) (route parse render m s))"
    by (simp add: reader_received_def route_touch)
  obtain n where "reader_loop parse render decode clock (\<lambda>_ s. s) stop (Suc k)
       \<lparr>rd_bytes = ?rest, rd_end = e\<rparr> (touch (clock k) (route parse render m s)) =
     reader_loop parse render decode clock (\<lambda>_ s. s) stop (Suc k + length ms)
       \<lparr>rd_bytes = rest, rd_end = e\<rparr>
       (touch n (route_all parse render ms (touch (clock k) (route parse render m s))))"
    using Cons.IH [of "Suc k" "touch (clock k) (route parse render m s)"] Cons.prems by auto
  then show ?case
    using step by (auto simp: route_all_touch intro!: exI [of _ n])
qed

lemma reader_stream_end:
  assumes "wire_codec encode decode" and "\<forall>m \<in> set ms. length (encode m) \<le> MAX_MESSAGE"
    and "io_kind e = UnexpectedEof"
  shows "\<exists>n. reader_loop parse render decode clock (\<lambda>_ s. s) None 0
            \<lparr>rd_bytes = snd (write_messages encode ms []), rd_end = e\<rparr> s =
     reader_failed ErrDisconnected (touch n (route_all parse render ms s))"
proof -
  have w: "snd (write_messages encode ms []) = concat (map (\<lambda>m. frame (encode m)) ms) @ []"
    using wire_codec.write_messages_frames [OF assms(1,2), of "[]"] by simp
  have eof: "read_message decode \<lparr>rd_bytes = [], rd_end = e\<rparr> = Inl ErrDisconnected"
    using assms(3) by (simp add: read_message_def read_exact_def read_failure_def)
  obtain n where "reader_loop parse render decode clock (\<lambda>_ s. s) None 0
      \<lparr>rd_bytes = snd (write_messages encode ms []), rd_end = e\<rparr> s =
    reader_loop parse render decode clock (\<lambda>_ s. s) None (0 + length ms)
      \<lparr>rd_bytes = [], rd_end = e\<rparr> (touch n (route_all parse render ms s))"
    using reader_loop_frames [OF assms(1,2), of 0 None parse render clock "[]" e s] unfolding w by auto
  then show ?thesis
    using reader_loop_failed [OF _ eof, of None] by (intro exI [of _ n]) simp
qed

text \<open>C9. What the device sends is routed, and its hang-up is reported. When the device writes any
  messages of at most 64 KiB and closes the connection, the reader routes exactly those messages in
  order, then clears the alive flag, offers one \<open>Disconnected(None)\<close> event, shows watchers the lost
  connection, and drops every request that still waits.\<close>

theorem reader_routes_stream:
  assumes "wire_codec encode decode" and "\<forall>m \<in> set ms. length (encode m) \<le> MAX_MESSAGE"
    and "io_kind e = UnexpectedEof"
    and "s' = reader_loop parse render decode clock (\<lambda>_ s. s) None 0
            \<lparr>rd_bytes = snd (write_messages encode ms []), rd_end = e\<rparr> s"
  shows "request_tracker s' = tracker_clear (request_tracker (route_all parse render ms s)) \<and>
     event_ch s' = chan_try_send (EvDisconnected None) (event_ch (route_all parse render ms s)) \<and>
     write_ch s' = write_ch (route_all parse render ms s) \<and>
     holder s' = (holder (route_all parse render ms s))\<lparr>connection := ConnDisconnected\<rparr> \<and>
     \<not> alive s'"
proof -
  obtain n where "s' = reader_failed ErrDisconnected (touch n (route_all parse render ms s))"
    using reader_stream_end [OF assms(1-3), of parse render clock s] unfolding assms(4) by blast
  then show ?thesis by (simp add: reader_failed_touch_frame)
qed

lemma short_message:
  "length (cast_message_encode (build_message NS_RECEIVER ''a'' ''b'' ''one'')) \<le> MAX_MESSAGE"
  by (simp add: cast_message_encode_def cast_message_fields_def build_message_def string_bytes_def
      NS_RECEIVER_def MAX_MESSAGE_def varint.simps)

theorem reader_routes_stream_witness:
  "\<not> alive (reader_loop sample_parse (\<lambda>_. []) cast_message_decode id (\<lambda>_ s. s) None 0
      \<lparr>rd_bytes = snd (write_messages cast_message_encode [build_message NS_RECEIVER ''a'' ''b'' ''one''] []),
       rd_end = IoError UnexpectedEof []\<rparr> one_waiting)"
proof -
  have len: "\<forall>m \<in> set [build_message NS_RECEIVER ''a'' ''b'' ''one''].
      length (cast_message_encode m) \<le> MAX_MESSAGE"
    by (simp add: short_message)
  have "io_kind (IoError UnexpectedEof []) = UnexpectedEof" by simp
  from reader_routes_stream [OF protobuf.wire_codec_axioms len this refl] show ?thesis by blast
qed

lemma route_all_vital:
  "alive (route_all parse render ms s) = alive s"
  "connection (holder (route_all parse render ms s)) = connection (holder s)"
  by (induction ms arbitrary: s) (simp_all add: holder_route_parts)

text \<open>C8. An aborted reader leaves its requests waiting. When the reader is aborted after it has routed some
  messages, nothing it would do at its end is done: the flag and the connection shown stay as they are,
  no event says that the connection is lost, and a request those messages do not answer goes on waiting;
  unless somebody else clears the tracker, nothing but its timeout ends it.\<close>

theorem aborted_reader_leaves_requests:
  assumes "wire_codec encode decode" and "\<forall>m \<in> set ms. length (encode m) \<le> MAX_MESSAGE"
    and "tracker_inv (request_tracker s)" and "pending (request_tracker s) i = Some rx"
    and "answer_among parse ms i = None"
    and "s' = reader_loop parse render decode clock (\<lambda>_ s. s) (Some (length ms, Aborted)) 0
            \<lparr>rd_bytes = concat (map (\<lambda>m. frame (encode m)) ms) @ rest, rd_end = e\<rparr> s"
  shows "alive s' = alive s \<and> connection (holder s') = connection (holder s) \<and>
     event_ch s' = event_ch (route_all parse render ms s) \<and>
     senders (request_tracker s') rx = Some Held \<and>
     (oneshot_promise (request_tracker s') rx out \<longrightarrow>
        fst (wait_for i out (request_tracker s')) = Inl (ErrTimeout (timeout (request_tracker s))))"
proof -
  obtain n where n: "s' = touch n (route_all parse render ms s)"
    using reader_loop_frames [OF assms(1,2), of 0 "Some (length ms, Aborted)" parse render clock rest e s]
    by (auto simp: assms(6) stop_at_def reader_loop_aborted)
  have held: "senders (request_tracker s') rx = Some Held"
    using registry.first_answer_wins [OF assms(3,4), of "List.map_filter (answer_of parse) ms"] assms(5)
    by (simp add: n request_tracker_route_all answer_among_def)
  moreover have "timeout (request_tracker s') = timeout (request_tracker s)"
    by (simp add: n request_tracker_route_all)
  ultimately show ?thesis
    by (cases out) (simp_all add: n oneshot_promise_def wait_for_def route_all_vital)
qed

text \<open>The device has sent a message nobody waits for when the reader is aborted.\<close>

theorem aborted_reader_leaves_requests_witness:
  "senders (request_tracker (reader_loop (\<lambda>_. None) (\<lambda>_. []) cast_message_decode id (\<lambda>_ s. s)
      (Some (1, Aborted)) 0 \<lparr>rd_bytes = frame (cast_message_encode (build_message NS_RECEIVER ''a'' ''b'' ''one'')),
       rd_end = IoError UnexpectedEof []\<rparr> one_waiting)) 0 = Some Held"
proof -
  let ?ms = "[build_message NS_RECEIVER ''a'' ''b'' ''one'']"
  have len: "\<forall>m \<in> set ?ms. length (cast_message_encode m) \<le> MAX_MESSAGE" by (simp add: short_message)
  have p: "pending (request_tracker one_waiting) 1 = Some 0" by (simp add: one_waiting_tracker)
  have "answer_among (\<lambda>_. None) ?ms 1 = None"
    by (simp add: answer_among_def answer_of_def map_filter_simps)
  from aborted_reader_leaves_requests [OF protobuf.wire_codec_axioms len one_waiting_tracker(1) p this refl,
      of "\<lambda>_. []" id "[]" "IoError UnexpectedEof []"]
  show ?thesis by simp
qed

section \<open>What is queued is written\<close>

lemma chan_recv_Cons: "buf c = x # xs \<Longrightarrow> chan_recv c = (Item x, c\<lparr>buf := xs\<rparr>)"
  by (simp add: chan_recv_def)

lemma write_message_ok:
  "length (encode m) \<le> MAX_MESSAGE \<Longrightarrow>
     write_message encode WriteOk m w = (Inr (), w @ frame (encode m))"
  by (simp add: write_message_def frame_def Let_def)

lemma writer_drains:
  assumes "\<forall>m \<in> set ms. length (encode m) \<le> MAX_MESSAGE" and "buf (write_ch s) = ms"
  shows "writer_loop encode (replicate (length ms) (\<lambda>s. s, WriterRecv WriteOk)) w s =
     (True, w @ concat (map (\<lambda>m. frame (encode m)) ms), s\<lparr>write_ch := (write_ch s)\<lparr>buf := []\<rparr>\<rparr>)"
  using assms
proof (induction ms arbitrary: w s)
  case (Cons m ms)
  let ?s = "s\<lparr>write_ch := (write_ch s)\<lparr>buf := ms\<rparr>\<rparr>"
  have "writer_loop encode (replicate (length ms) (\<lambda>s. s, WriterRecv WriteOk)) (w @ frame (encode m)) ?s =
      (True, (w @ frame (encode m)) @ concat (map (\<lambda>m. frame (encode m)) ms),
       ?s\<lparr>write_ch := (write_ch ?s)\<lparr>buf := []\<rparr>\<rparr>)"
    using Cons.prems by (intro Cons.IH) simp_all
  with Cons.prems show ?case
    by (simp add: chan_recv_Cons write_message_ok Let_def)
qed simp

text \<open>C10. What the client queues is what the device reads. When no queued message encodes to more than
  64 KiB, the writer gets its turns and the stream accepts its bytes, a device that reads the stream with the same framing receives exactly
  the queued messages, each once and in the order they were queued, and the queue is empty then.\<close>

theorem queued_messages_arrive:
  assumes "wire_codec encode decode" and "\<forall>m \<in> set (buf (write_ch s)). length (encode m) \<le> MAX_MESSAGE"
    and "io_kind e = UnexpectedEof"
    and "writer_loop encode (replicate (length (buf (write_ch s))) (\<lambda>s. s, WriterRecv WriteOk)) [] s
           = (running, w, s')"
  shows "running \<and> read_stream decode \<lparr>rd_bytes = w, rd_end = e\<rparr> = (buf (write_ch s), ErrDisconnected) \<and>
     buf (write_ch s') = []"
proof -
  have "running \<and> w = concat (map (\<lambda>m. frame (encode m)) (buf (write_ch s))) \<and> buf (write_ch s') = []"
    using writer_drains [OF assms(2) refl, of "[]"] assms(4) by auto
  then show ?thesis
    using wire_codec.stream_roundtrip(2) [OF assms(1,2,3)]
      wire_codec.write_messages_frames [OF assms(1,2), of "[]"] by simp
qed

text \<open>A connection with messages in its write channel.\<close>

definition with_queue :: "cast_message list \<Rightarrow> shared" where
  "with_queue ms = (fresh_shared 8 10 0)\<lparr>write_ch := (channel 64)\<lparr>buf := ms\<rparr>\<rparr>"

lemma with_queue_simps [simp]:
  "buf (write_ch (with_queue ms)) = ms" "rx_held (write_ch (with_queue ms))"
  by (simp_all add: with_queue_def)

theorem queued_messages_arrive_witness:
  "\<exists>w. read_stream cast_message_decode \<lparr>rd_bytes = w, rd_end = IoError UnexpectedEof []\<rparr> =
     ([build_message NS_RECEIVER ''a'' ''b'' ''one''], ErrDisconnected)"
proof -
  let ?s = "with_queue [build_message NS_RECEIVER ''a'' ''b'' ''one'']"
  obtain running w s' where run: "writer_loop cast_message_encode
      (replicate (length (buf (write_ch ?s))) (\<lambda>s. s, WriterRecv WriteOk)) [] ?s = (running, w, s')"
    using prod_cases3 by blast
  have "\<forall>m \<in> set (buf (write_ch ?s)). length (cast_message_encode m) \<le> MAX_MESSAGE"
    by (simp add: short_message)
  from queued_messages_arrive [OF protobuf.wire_codec_axioms this io_error.sel(1) run]
  show ?thesis by auto
qed

text \<open>A write error ends the connection. When the stream refuses a message, the writer clears the
  alive flag, shows watchers the lost connection and drops its receiver, so every later \<open>send\<close>
  fails with \<open>Disconnected\<close>; messages behind the failed one are not written.\<close>

theorem write_error_ends_connection:
  assumes "buf (write_ch s) = m # ms" and "write_message encode io m w = (Inl e, w')"
    and "writer_loop encode ((\<lambda>s. s, WriterRecv io) # ws) w s = (running, w'', s')"
  shows "\<not> running \<and> w'' = w' \<and> \<not> alive s' \<and> connection (holder s') = ConnDisconnected \<and>
     buf (write_ch s') = ms \<and> fst (send_write m' s') = Refused"
  using assms
  by (auto simp: chan_recv_Cons Let_def writer_failed_def close_writer_def)

theorem write_error_ends_connection_witness:
  "fst (send_write (pong (\<lambda>_. [])) (snd (snd (writer_loop (\<lambda>_. [1])
      [(\<lambda>s. s, WriterRecv (WriteFails 0 (IoError BrokenPipe [])))] [] (with_queue [ping (\<lambda>_. [])]))))) = Refused"
proof -
  let ?io = "WriteFails 0 (IoError BrokenPipe [])"
  obtain running w s' where run:
    "writer_loop (\<lambda>_. [1]) [(\<lambda>s. s, WriterRecv ?io)] [] (with_queue [ping (\<lambda>_. [])]) = (running, w, s')"
    using prod_cases3 by blast
  have "write_message (\<lambda>_. [1]) ?io (ping (\<lambda>_. [])) [] = (Inl ErrDisconnected, [])"
    by (simp add: write_message_def MAX_MESSAGE_def)
  from write_error_ends_connection [OF _ this run] run show ?thesis by simp
qed

text \<open>One oversized message ends the connection. A message that encodes to more than 64 KiB is
  rejected before a single byte is written, but the writer treats the rejection like a broken
  stream: it stops, and the connection counts as lost.\<close>

theorem oversized_message_ends_connection:
  assumes "buf (write_ch s) = m # ms" and "length (encode m) > MAX_MESSAGE"
    and "writer_loop encode ((\<lambda>s. s, WriterRecv io) # ws) w s = (running, w', s')"
  shows "w' = w \<and> \<not> running \<and> \<not> alive s' \<and> connection (holder s') = ConnDisconnected"
  using assms
  by (auto simp: chan_recv_Cons Let_def writer_failed_def close_writer_def write_message_def)

theorem oversized_message_ends_connection_witness:
  "\<not> alive (snd (snd (writer_loop (\<lambda>_. replicate 65537 0) [(\<lambda>s. s, WriterRecv WriteOk)] []
      (with_queue [build_message NS_RECEIVER ''a'' ''b'' ''one'']))))"
proof -
  let ?s = "with_queue [build_message NS_RECEIVER ''a'' ''b'' ''one'']"
  let ?enc = "\<lambda>_ :: cast_message. replicate 65537 (0 :: u8)"
  obtain running w s' where run:
    "writer_loop ?enc [(\<lambda>s. s, WriterRecv WriteOk)] [] ?s = (running, w, s')"
    using prod_cases3 by blast
  have b: "buf (write_ch ?s) = build_message NS_RECEIVER ''a'' ''b'' ''one'' # []"
    by (rule with_queue_simps)
  have "length (?enc (build_message NS_RECEIVER ''a'' ''b'' ''one'')) > MAX_MESSAGE"
    by (simp only: length_replicate MAX_MESSAGE_def)
  from oversized_message_ends_connection [OF b this run] show ?thesis
    unfolding run by simp
qed

end
