(* ===== verification/Lifecycle.thy ===== *)
theory Lifecycle
  imports Tasks
begin

text \<open>
  The life of a connection in \<open>client.rs\<close>: \<open>from_builder\<close>, \<open>TaskHandles::shutdown\<close>, \<open>disconnect\<close>,
  \<open>reconnect_with_attempt\<close> and the attempts of \<open>spawn_auto_reconnect\<close> (their delays are in \<open>AutoReconnect\<close>). The TLS
  connection (\<open>client/connection.rs\<close>) is the result it gives, an argument; what the tasks and the other
  callers do while an operation awaits, and between its stores, is an argument too.
\<close>

section \<open>Tasks\<close>

definition task_handles_new :: task_handles where
  "task_handles_new =
     \<lparr>token_cancelled = False, reader_task = False, writer_task = False, heartbeat_task = False\<rparr>"

definition all_spawned :: task_handles where
  "all_spawned =
     \<lparr>token_cancelled = False, reader_task = True, writer_task = True, heartbeat_task = True\<rparr>"

text \<open>\<open>shutdown\<close> cancels the token, then aborts and awaits each task whose handle is held. The
  writer's receiver is gone with it.\<close>

definition shutdown_tasks :: "client \<Rightarrow> client" where
  "shutdown_tasks c =
     (let c1 = c\<lparr>tasks := (tasks c)\<lparr>token_cancelled := True\<rparr>\<rparr>;
          c2 = (if reader_task (tasks c1) then c1\<lparr>tasks := (tasks c1)\<lparr>reader_task := False\<rparr>\<rparr> else c1);
          c3 = (if writer_task (tasks c2)
                then close_writer (c2\<lparr>tasks := (tasks c2)\<lparr>writer_task := False\<rparr>\<rparr>) else c2)
      in if heartbeat_task (tasks c3) then c3\<lparr>tasks := (tasks c3)\<lparr>heartbeat_task := False\<rparr>\<rparr> else c3)"

section \<open>Connecting\<close>

text \<open>The places where others act while a client is connected or reconnected: at each await, and, on a
  runtime with several threads, between any two of the operations on the state that is shared.\<close>

datatype gap =
  AfterFlag | AfterAlive | AfterState | AfterEvent | Dialing | AfterRecheck
| AfterSwap | AfterRevive | AfterUnflag | AfterClear | AfterSpawn | AfterStore
| AfterConnect | AfterRejoin | AfterShow

text \<open>A channel without room, or with more than the semaphore of the runtime counts, cannot be made, and an
  interval of zero cannot tick: these panic, the last in the heartbeat task. \<open>None\<close> is the panic of
  \<open>connect\<close> itself.\<close>

definition WRITE_CAPACITY :: nat where "WRITE_CAPACITY = 64"

definition MAX_PERMITS :: nat where "MAX_PERMITS = 2 ^ 61 - 1"

definition first_shared :: "builder \<Rightarrow> nat \<Rightarrow> shared" where
  "first_shared b now =
     \<lparr>request_tracker = tracker_new (request_timeout b), event_ch = channel (event_buffer_size b),
      write_ch = channel WRITE_CAPACITY, holder = new_state, alive = True, last_activity = now\<rparr>"

definition client_of :: "builder \<Rightarrow> shared \<Rightarrow> client" where
  "client_of b s =
     \<lparr>request_tracker = request_tracker s, event_ch = event_ch s, write_ch = write_ch s, holder = holder s,
      alive = alive s, last_activity = last_activity s,
      shutting_down = False, tasks = all_spawned, config = config_of b,
      transport_id = None, session_id = None\<rparr>"

text \<open>The tasks run from the moment they are spawned, before the client is told to anybody.\<close>

definition from_builder ::
    "render \<Rightarrow> builder \<Rightarrow> error + unit \<Rightarrow> (gap \<Rightarrow> shared \<Rightarrow> shared) \<Rightarrow> nat \<Rightarrow> (error + client) option" where
  "from_builder render b tls meanwhile now =
     (case tls of
        Inl e \<Rightarrow> Some (Inl e)
      | Inr _ \<Rightarrow>
          if event_buffer_size b = 0 \<or> MAX_PERMITS < event_buffer_size b then None
          else
            (let s1 = meanwhile AfterSpawn (first_shared b now)
             in case send_then (connect_msg render ''receiver-0'') (meanwhile AfterConnect) s1 of
                  (Inl e, s2) \<Rightarrow> Some (Inl e)
                | (Inr _, s2) \<Rightarrow>
                    (let s3 = meanwhile AfterShow (send_event EvConnected s2)
                     in Some (Inr (client_of b (watch_connection ConnConnected s3))))))"

section \<open>Disconnecting\<close>

text \<open>The farewell runs under a timeout of two seconds: it completes, or is dropped while
  \<open>stop_media\<close> waits for its answer.\<close>

definition farewell :: "render \<Rightarrow> await \<Rightarrow> client \<Rightarrow> client" where
  "farewell render await c =
     snd (send (close_msg render ''receiver-0'') (snd (stop_media render await c)))"

definition farewell_cut :: "render \<Rightarrow> await \<Rightarrow> client \<Rightarrow> client" where
  "farewell_cut render await c =
     (case (get_transport_id c, get_media_session_id c) of
        (Inr tid, Inr msid) \<Rightarrow>
          (case register (request_tracker c) of
             ((i, rx), t) \<Rightarrow>
               (case send (media_stop_msg render i tid msid) (c\<lparr>request_tracker := t\<rparr>) of
                  (Inr _, c1) \<Rightarrow> snd (await i rx c1)
                | (Inl _, c1) \<Rightarrow> snd (send (close_msg render ''receiver-0'') c1)))
      | _ \<Rightarrow> snd (send (close_msg render ''receiver-0'') c))"

definition drop_event_sender :: "client \<Rightarrow> client" where
  "drop_event_sender c = c\<lparr>event_ch := (event_ch c)\<lparr>tx_held := False\<rparr>\<rparr>"

definition disconnect :: "render \<Rightarrow> bool \<Rightarrow> await \<Rightarrow> unit io" where
  "disconnect render in_time await c =
     (let c1 = c\<lparr>shutting_down := True\<rparr>;
          c2 = (if in_time then farewell render await c1 else farewell_cut render await c1);
          c3 = c2\<lparr>alive := False\<rparr>;
          c4 = shutdown_tasks c3;
          c5 = on_tracker tracker_clear c4;
          c6 = watch_connection ConnDisconnected c5;
          c7 = send_event (EvDisconnected None) c6
      in (Inr (), drop_event_sender c7))"

section \<open>Reconnecting\<close>

text \<open>\<open>tls\<close> is the outcome of the new connection and \<open>others\<close> what happens in the gaps; \<open>Dialing\<close> is the
  one in which the connection is made. The tasks of the new connection run from \<open>AfterClear\<close> on.\<close>

definition rejoin :: "render \<Rightarrow> (gap \<Rightarrow> client \<Rightarrow> client) \<Rightarrow> unit io" where
  "rejoin render others =
     bind_io (send_then (connect_msg render ''receiver-0'') (others AfterConnect)) (\<lambda>_ c.
       (case transport_id c of
          Some tid \<Rightarrow> send_then (connect_msg render tid) (others AfterRejoin) c
        | None \<Rightarrow> (Inr (), others AfterRejoin c)))"

definition fresh_connection :: "nat \<Rightarrow> (gap \<Rightarrow> client \<Rightarrow> client) \<Rightarrow> client \<Rightarrow> client" where
  "fresh_connection now others c =
     (let c1 = others AfterSwap (c\<lparr>write_ch := channel WRITE_CAPACITY\<rparr>);
          c2 = others AfterRevive (c1\<lparr>alive := True\<rparr>);
          c3 = others AfterUnflag (c2\<lparr>shutting_down := False\<rparr>);
          c4 = others AfterClear (on_tracker tracker_clear c3);
          c5 = others AfterSpawn (touch now c4)
      in others AfterStore (c5\<lparr>tasks := all_spawned\<rparr>))"

definition announce_attempt :: "u32 \<Rightarrow> (gap \<Rightarrow> client \<Rightarrow> client) \<Rightarrow> client \<Rightarrow> client" where
  "announce_attempt attempt others c =
     others AfterEvent (send_event (EvReconnecting attempt)
       (others AfterState (watch_connection (ConnReconnecting attempt) (others AfterAlive c))))"

definition reconnect_with_attempt ::
    "render \<Rightarrow> u32 \<Rightarrow> error + unit \<Rightarrow> (gap \<Rightarrow> client \<Rightarrow> client) \<Rightarrow> nat \<Rightarrow> unit io" where
  "reconnect_with_attempt render attempt tls others now c =
     (if shutting_down c then (Inl ErrDisconnected, c)
      else
        (let c0 = others AfterFlag c
         in if alive c0 then (Inr (), c0)
            else
              (let c1 = announce_attempt attempt others c0;
                   c2 = others Dialing (shutdown_tasks c1)
               in case tls of
                    Inl e \<Rightarrow> (Inl e, c2)
                  | Inr _ \<Rightarrow>
                      if shutting_down c2 then (Inl ErrDisconnected, c2)
                      else
                        bind_io (rejoin render others) (\<lambda>_ c3.
                          (let c4 = others AfterShow (watch_connection ConnConnected c3)
                           in (Inr (), send_event EvReconnected c4)))
                          (fresh_connection now others (others AfterRecheck c2)))))"

definition reconnect :: "render \<Rightarrow> error + unit \<Rightarrow> (gap \<Rightarrow> client \<Rightarrow> client) \<Rightarrow> nat \<Rightarrow> unit io" where
  "reconnect render = reconnect_with_attempt render 1"

section \<open>Automatic attempts\<close>

text \<open>One attempt's surroundings.\<close>

record attempt_env =
  env_sleep :: "client \<Rightarrow> client"
  env_tls :: "error + unit"
  env_others :: "gap \<Rightarrow> client \<Rightarrow> client"
  env_now :: nat

datatype attempts_end = Recovered | GaveUp | Unfinished

text \<open>\<open>for attempt in 1..=max\<close>, the number of the next attempt as the argument.\<close>

fun auto_attempts ::
    "render \<Rightarrow> u32 \<Rightarrow> u32 \<Rightarrow> attempt_env list \<Rightarrow> client \<Rightarrow> attempts_end \<times> client" where
  "auto_attempts render max_n attempt [] c = (Unfinished, c)"
| "auto_attempts render max_n attempt (env # envs) c =
     (case reconnect_with_attempt render attempt (env_tls env) (env_others env) (env_now env)
             (env_sleep env c) of
        (Inr _, c1) \<Rightarrow> (Recovered, c1)
      | (Inl e, c1) \<Rightarrow>
          if attempt = max_n then
            (GaveUp, send_event (EvDisconnected (Some ''reconnect failed''))
                       (watch_connection ConnDisconnected c1))
          else auto_attempts render max_n (attempt + 1) envs c1)"

text \<open>One wake-up of the monitoring task: whether it goes on, and the state.\<close>

definition auto_reconnect_wake ::
    "render \<Rightarrow> attempt_env list \<Rightarrow> client \<Rightarrow> bool \<times> client" where
  "auto_reconnect_wake render envs c =
     (if shutting_down c then (False, c)
      else if connection (holder c) = ConnDisconnected then
        (case auto_attempts render (max_reconnect_attempts (config c)) 1 envs c of
           (GaveUp, c1) \<Rightarrow> (False, c1) | (_, c1) \<Rightarrow> (True, c1))
      else (True, c))"

text \<open>Whether \<open>spawn_auto_reconnect\<close> starts the task at all.\<close>

definition auto_reconnect_enabled :: "client_config \<Rightarrow> bool" where
  "auto_reconnect_enabled cfg \<longleftrightarrow> auto_reconnect cfg \<and> max_reconnect_attempts cfg \<noteq> 0"

section \<open>Frames\<close>

lemma send_snd [simp]: "snd (send m c) = snd (send_write m c)"
  by (simp add: send_def split: prod.splits send_result.splits)

lemma send_fst [simp]: "fst (send m c) = (if rx_held (write_ch c) then Inr () else Inl ErrDisconnected)"
  by (simp add: send_def send_write_def chan_send_def)

text \<open>The operations on the shared state leave the client's own fields alone.\<close>

lemma client_frame [simp]:
  "shutting_down (send_event e c) = shutting_down c" "config (send_event e c) = config c" "transport_id (send_event e c) = transport_id c"
  "session_id (send_event e c) = session_id c" "tasks (send_event e c) = tasks c"
  "shutting_down (snd (send_write m c)) = shutting_down c" "config (snd (send_write m c)) = config c" "transport_id (snd (send_write m c)) = transport_id c"
  "session_id (snd (send_write m c)) = session_id c" "tasks (snd (send_write m c)) = tasks c"
  "shutting_down (watch_connection v c) = shutting_down c" "config (watch_connection v c) = config c" "transport_id (watch_connection v c) = transport_id c"
  "session_id (watch_connection v c) = session_id c" "tasks (watch_connection v c) = tasks c"
  "shutting_down (on_tracker f c) = shutting_down c" "config (on_tracker f c) = config c" "transport_id (on_tracker f c) = transport_id c"
  "session_id (on_tracker f c) = session_id c" "tasks (on_tracker f c) = tasks c"
  "shutting_down (touch n c) = shutting_down c" "config (touch n c) = config c" "transport_id (touch n c) = transport_id c"
  "session_id (touch n c) = session_id c" "tasks (touch n c) = tasks c"
  "shutting_down (close_writer c) = shutting_down c" "config (close_writer c) = config c" "transport_id (close_writer c) = transport_id c"
  "session_id (close_writer c) = session_id c" "tasks (close_writer c) = tasks c"
  "shutting_down (store_session i c) = shutting_down c" "config (store_session i c) = config c" "transport_id (store_session i c) = transport_id c"
  "session_id (store_session i c) = session_id c" "tasks (store_session i c) = tasks c"
  for c :: client
  by (simp_all add: shared_ops chan_send_def touch_def close_writer_def)

lemma close_writer_frame [simp]:
  "request_tracker (close_writer s) = request_tracker s" "event_ch (close_writer s) = event_ch s"
  "holder (close_writer s) = holder s" "alive (close_writer s) = alive s"
  "\<not> rx_held (write_ch (close_writer s))" "last_activity (close_writer s) = last_activity s"
  by (simp_all add: close_writer_def)

lemma shutdown_tasks_frame [simp]:
  "request_tracker (shutdown_tasks c) = request_tracker c" "event_ch (shutdown_tasks c) = event_ch c"
  "holder (shutdown_tasks c) = holder c" "alive (shutdown_tasks c) = alive c"
  "shutting_down (shutdown_tasks c) = shutting_down c" "config (shutdown_tasks c) = config c"
  "transport_id (shutdown_tasks c) = transport_id c" "session_id (shutdown_tasks c) = session_id c"
  "rx_held (write_ch (shutdown_tasks c)) \<longleftrightarrow> rx_held (write_ch c) \<and> \<not> writer_task (tasks c)"
  "tasks (shutdown_tasks c) =
     \<lparr>token_cancelled = True, reader_task = False, writer_task = False, heartbeat_task = False\<rparr>"
  by (simp_all add: shutdown_tasks_def Let_def)

section \<open>Disconnecting is final\<close>

text \<open>A writer that takes messages has its handle held.\<close>

definition client_inv :: "client \<Rightarrow> bool" where
  "client_inv c \<longleftrightarrow>
     tracker_inv (request_tracker c) \<and> (rx_held (write_ch c) \<longrightarrow> writer_task (tasks c))"

text \<open>What happens during a wait keeps the invariant, and no reconnect is under way, so nothing takes
  the shutdown flag back.\<close>

definition keeps_down :: "await \<Rightarrow> bool" where
  "keeps_down await \<longleftrightarrow>
     (\<forall>i rx c. client_inv c \<and> shutting_down c \<longrightarrow>
        client_inv (snd (await i rx c)) \<and> shutting_down (snd (await i rx c)))"

lemma client_inv_queued: "client_inv c \<Longrightarrow> client_inv (queued mk c)"
  by (simp add: client_inv_def queued_def tracker_inv_register)

lemma client_inv_send: "client_inv c \<Longrightarrow> client_inv (snd (send_write m c))"
  by (simp add: client_inv_def)

lemma request_keeps_down:
  assumes "keeps_down await" and "client_inv c" and "shutting_down c"
  shows "client_inv (snd (request mk await c)) \<and> shutting_down (snd (request mk await c))"
proof (cases "rx_held (write_ch c)")
  case True
  obtain out c2 where a: "await (next_id (counter (request_tracker c))) (next_chan (request_tracker c))
      (queued mk c) = (out, c2)"
    by fastforce
  have "client_inv c2 \<and> shutting_down c2"
    using assms a client_inv_queued [OF assms(2), of mk] unfolding keeps_down_def
    by (metis client_only_frame(3) snd_conv)
  then show ?thesis
    by (simp add: request_await [OF True] a Let_def client_inv_def tracker_inv_wait_for waited_def)
next
  case False
  with assms show ?thesis
    by (simp add: request_writer_gone client_inv_def tracker_inv_register)
qed

lemma stop_media_keeps_down:
  assumes "keeps_down await" and "client_inv c" and "shutting_down c"
  shows "client_inv (snd (stop_media render await c)) \<and> shutting_down (snd (stop_media render await c))"
proof -
  have "client_inv (store_session 0 c')" if "client_inv c'" for c'
    using that by (simp add: client_inv_def)
  then show ?thesis
    using assms request_keeps_down [OF assms]
    by (simp add: stop_media_def get_transport_id_def get_media_session_id_def bind_io_unfold Let_def
        answered_status_def ok_or_def bind_io_def [of "lift _"] lift_def
        split: option.split sum.split)
qed

lemma farewell_keeps_down:
  assumes "keeps_down await" and "client_inv c" and "shutting_down c"
  shows "client_inv (farewell render await c) \<and> shutting_down (farewell render await c)"
    and "client_inv (farewell_cut render await c) \<and> shutting_down (farewell_cut render await c)"
proof -
  show "client_inv (farewell render await c) \<and> shutting_down (farewell render await c)"
    using stop_media_keeps_down [OF assms] by (simp add: farewell_def client_inv_send)
  have sent: "client_inv (snd (send_write m c1)) \<and> shutting_down (snd (send_write m c1))"
    if "client_inv c1" "shutting_down c1" for m and c1 :: client
    using that by (simp add: client_inv_send)
  have reg: "client_inv (c\<lparr>request_tracker := snd (register (request_tracker c))\<rparr>)"
    "shutting_down (c\<lparr>request_tracker := snd (register (request_tracker c))\<rparr>)"
    using assms(2,3) by (simp_all add: client_inv_def tracker_inv_register)
  show "client_inv (farewell_cut render await c) \<and> shutting_down (farewell_cut render await c)"
    using assms sent [OF reg] sent [OF assms(2,3)] sent
    unfolding farewell_cut_def keeps_down_def
    by (auto simp: split_beta register_eq prod_eq_iff split: sum.split prod.split)
qed

lemma disconnect_result:
  assumes "keeps_down await" and "client_inv c"
  shows "\<exists>c2. client_inv c2 \<and> shutting_down c2 \<and>
     disconnect render in_time await c =
       (Inr (), drop_event_sender (send_event (EvDisconnected None) (watch_connection ConnDisconnected
          (on_tracker tracker_clear (shutdown_tasks (c2\<lparr>alive := False\<rparr>))))))"
proof -
  let ?c1 = "c\<lparr>shutting_down := True\<rparr>"
  let ?c2 = "if in_time then farewell render await ?c1 else farewell_cut render await ?c1"
  have "client_inv ?c1" "shutting_down ?c1"
    using assms(2) by (simp_all add: client_inv_def)
  then have "client_inv ?c2 \<and> shutting_down ?c2"
    using farewell_keeps_down [OF assms(1)] by simp
  then show ?thesis
    unfolding disconnect_def Let_def by blast
qed

lemma drop_event_sender_frame [simp]:
  "request_tracker (drop_event_sender c) = request_tracker c"
  "write_ch (drop_event_sender c) = write_ch c" "holder (drop_event_sender c) = holder c"
  "alive (drop_event_sender c) = alive c" "shutting_down (drop_event_sender c) = shutting_down c"
  "tasks (drop_event_sender c) = tasks c" "buf (event_ch (drop_event_sender c)) = buf (event_ch c)"
  "\<not> tx_held (event_ch (drop_event_sender c))"
  by (simp_all add: drop_event_sender_def)

text \<open>C5. \<open>disconnect\<close> is final. Whatever happens while it says goodbye (no reconnect being under
  way), it succeeds and leaves a dead client: not alive, shutting down, watchers see
  \<open>Disconnected\<close>, no task runs, nothing can be written, no request waits and none still holds a
  sender. From then on \<open>reconnect\<close> fails with \<open>Disconnected\<close> without changing anything, and the
  automatic reconnect stops at its next wake-up.\<close>

theorem disconnect_is_final:
  assumes "keeps_down await" and "client_inv c"
    and "disconnect render in_time await c = (r, c')"
  shows "r = Inr () \<and> \<not> alive c' \<and> shutting_down c' \<and> connection (holder c') = ConnDisconnected \<and>
     tasks c' = \<lparr>token_cancelled = True, reader_task = False, writer_task = False, heartbeat_task = False\<rparr> \<and>
     \<not> rx_held (write_ch c') \<and> pending (request_tracker c') = Map.empty \<and>
     (\<forall>rx. senders (request_tracker c') rx \<noteq> Some Held) \<and>
     reconnect render tls others now c' = (Inl ErrDisconnected, c') \<and>
     auto_reconnect_wake render envs c' = (False, c')"
proof -
  from disconnect_result [OF assms(1,2), of render in_time] assms(3) obtain c2 where
    c2: "client_inv c2" "shutting_down c2" and r: "r = Inr ()" and
    c': "c' = drop_event_sender (send_event (EvDisconnected None) (watch_connection ConnDisconnected
          (on_tracker tracker_clear (shutdown_tasks (c2\<lparr>alive := False\<rparr>)))))"
    by auto
  have "pending (request_tracker c') = Map.empty" "\<forall>rx. senders (request_tracker c') rx \<noteq> Some Held"
    using no_held_after_clear [of "request_tracker c2"] c2(1) unfolding c' client_inv_def by simp_all
  then show ?thesis
    using c2 r
    by (simp add: c' client_inv_def reconnect_def reconnect_with_attempt_def auto_reconnect_wake_def)
qed

theorem disconnect_is_final_witness:
  "fst (reconnect (\<lambda>_. []) (Inr ()) (\<lambda>_. id) 0
     (snd (disconnect (\<lambda>_. []) True (\<lambda>_ _ c. (TimedOut, c)) sample_client))) = Inl ErrDisconnected"
proof -
  have "keeps_down (\<lambda>_ _ c. (TimedOut, c))" by (simp add: keeps_down_def)
  moreover have "client_inv sample_client"
    by (simp add: client_inv_def tracker_inv_new sample_client_def)
  ultimately have "reconnect (\<lambda>_. []) (Inr ()) (\<lambda>_. id) 0
      (snd (disconnect (\<lambda>_. []) True (\<lambda>_ _ c. (TimedOut, c)) sample_client)) =
    (Inl ErrDisconnected, snd (disconnect (\<lambda>_. []) True (\<lambda>_ _ c. (TimedOut, c)) sample_client))"
    using disconnect_is_final [OF _ _ prod.collapse [symmetric]] by blast
  then show ?thesis by simp
qed

text \<open>The results of \<open>n\<close> calls of \<open>next_event\<close>.\<close>

fun take_events :: "nat \<Rightarrow> client \<Rightarrow> cast_event recv list" where
  "take_events 0 c = []"
| "take_events (Suc n) c = (case next_event c of (r, c1) \<Rightarrow> r # take_events n c1)"

lemma take_events_closed:
  assumes "\<not> tx_held (event_ch c)"
  shows "take_events (length (buf (event_ch c)) + k) c =
     map Item (buf (event_ch c)) @ replicate k Closed"
  using assms
proof (induction "buf (event_ch c)" arbitrary: c)
  case Nil
  have "take_events k c = replicate k Closed"
    using Nil by (induction k) (simp_all add: next_event_def chan_recv_def)
  with Nil(1) show ?case by (metis append_Nil list.size(3) add_0 list.map(1))
next
  case (Cons e es)
  let ?c = "c\<lparr>event_ch := (event_ch c)\<lparr>buf := es\<rparr>\<rparr>"
  have n: "next_event c = (Item e, ?c)"
    by (simp add: next_event_def chan_recv_Cons [OF Cons(2) [symmetric]])
  have "take_events (length (buf (event_ch ?c)) + k) ?c =
      map Item (buf (event_ch ?c)) @ replicate k Closed"
    by (rule Cons(1)) (use Cons(3) in simp_all)
  then show ?case
    using Cons(2) n by (simp flip: Cons(2))
qed

text \<open>The event stream ends. After \<open>disconnect\<close>, \<open>next_event\<close> gives the events still in the
  channel in order, the last of them \<open>Disconnected(None)\<close> when the channel had room for it, and
  then \<open>None\<close> for ever: a loop on \<open>next_event\<close> terminates.\<close>

theorem event_stream_ends:
  assumes "keeps_down await" and "client_inv c"
    and "disconnect render in_time await c = (r, c')"
  shows "take_events (length (buf (event_ch c')) + k) c' =
     map Item (buf (event_ch c')) @ replicate k Closed"
proof (rule take_events_closed)
  show "\<not> tx_held (event_ch c')"
    using disconnect_result [OF assms(1,2), of render in_time] assms(3) by auto
qed

theorem event_stream_ends_witness:
  "take_events 2 (snd (disconnect (\<lambda>_. []) True (\<lambda>_ _ c. (TimedOut, c))
     (sample_client\<lparr>holder := new_state\<rparr>))) = [Item (EvDisconnected None), Closed]"
proof -
  let ?c = "sample_client\<lparr>holder := new_state\<rparr>"
  let ?d = "disconnect (\<lambda>_. []) True (\<lambda>_ _ c. (TimedOut, c)) ?c"
  have k: "keeps_down (\<lambda>_ _ c. (TimedOut, c))" by (simp add: keeps_down_def)
  have i: "client_inv ?c"
    by (simp add: client_inv_def tracker_inv_new sample_client_def)
  have s: "stop_media (\<lambda>_. []) (\<lambda>_ _ c. (TimedOut, c)) (?c\<lparr>shutting_down := True\<rparr>) =
      (Inl ErrNoMediaSession, ?c\<lparr>shutting_down := True\<rparr>)"
    by (simp add: stop_media_def get_transport_id_def get_media_session_id_def bind_io_def lift_def
        new_state_def)
  have "event_ch (snd ?d) = (channel 8)\<lparr>buf := [EvDisconnected None], tx_held := False\<rparr>"
    by (simp add: disconnect_def farewell_def s Let_def drop_event_sender_def chan_try_send_def)
  then show ?thesis
    using event_stream_ends [OF k i prod.collapse [symmetric], of "\<lambda>_. []" True 1]
    by (simp add: numeral_2_eq_2)
qed

section \<open>Reconnecting\<close>

text \<open>The client when the new connection has been made, or has failed.\<close>

definition reconnecting :: "u32 \<Rightarrow> (gap \<Rightarrow> client \<Rightarrow> client) \<Rightarrow> client \<Rightarrow> client" where
  "reconnecting attempt others c =
     others Dialing (shutdown_tasks (announce_attempt attempt others (others AfterFlag c)))"

lemma announce_attempt_alone [simp]:
  "announce_attempt n (\<lambda>_. id) c = send_event (EvReconnecting n) (watch_connection (ConnReconnecting n) c)"
  by (simp add: announce_attempt_def)

text \<open>Once a lost client is dialing.\<close>

lemma reconnect_dialed:
  assumes "\<not> shutting_down c" and "\<not> alive (others AfterFlag c)"
  shows "reconnect_with_attempt render attempt tls others now c =
     (let c2 = reconnecting attempt others c
      in case tls of
           Inl e \<Rightarrow> (Inl e, c2)
         | Inr _ \<Rightarrow>
             if shutting_down c2 then (Inl ErrDisconnected, c2)
             else
               bind_io (rejoin render others) (\<lambda>_ c3.
                 (let c4 = others AfterShow (watch_connection ConnConnected c3)
                  in (Inr (), send_event EvReconnected c4)))
                 (fresh_connection now others (others AfterRecheck c2)))"
  using assms by (simp add: reconnect_with_attempt_def reconnecting_def Let_def)

section \<open>Undisturbed\<close>

text \<open>What may happen to the requests while a reconnect finishes: they are registered, answered, given up or
  cleared, but a oneshot channel that has its value or has lost its sender keeps it so.\<close>

definition settles :: "tracker \<Rightarrow> tracker \<Rightarrow> bool" where
  "settles t t' \<longleftrightarrow>
     (tracker_inv t \<longrightarrow> tracker_inv t' \<and>
        (\<forall>rx. senders t rx \<noteq> None \<longrightarrow> senders t' rx \<noteq> None \<and>
               (senders t rx \<noteq> Some Held \<longrightarrow> senders t' rx \<noteq> Some Held)))"

lemma settles_refl [simp]: "settles t t"
  by (simp add: settles_def)

lemma settles_trans: "settles t t' \<Longrightarrow> settles t' t'' \<Longrightarrow> settles t t''"
  unfolding settles_def by metis

lemma settles_clear [simp]: "settles t (tracker_clear t)"
  using tracker_inv_clear [of t] by (auto simp: settles_def tracker_clear_def)

lemma settles_register [simp]: "settles t (snd (register t))"
proof -
  have "senders t (next_chan t) = None" if "tracker_inv t"
    using that unfolding tracker_inv_def pending_inv_def by (metis less_irrefl)
  then show ?thesis
    using tracker_inv_register [of t] by (auto simp: settles_def register_eq split: option.splits if_splits)
qed

text \<open>The requests, the addresses of the app and the event channel after a change by others.\<close>

definition same_session :: "client \<Rightarrow> client \<Rightarrow> bool" where
  "same_session c c' \<longleftrightarrow>
     transport_id c' = transport_id c \<and> session_id c' = session_id c \<and>
     cap (event_ch c') = cap (event_ch c) \<and> tx_held (event_ch c') = tx_held (event_ch c) \<and>
     rx_held (event_ch c') = rx_held (event_ch c) \<and> settles (request_tracker c) (request_tracker c')"

text \<open>Besides, the connection is not lost, nobody disconnects, and no other reconnect runs.\<close>

definition stays_up :: "client \<Rightarrow> client \<Rightarrow> bool" where
  "stays_up c c' \<longleftrightarrow>
     same_session c c' \<and> alive c' = alive c \<and> shutting_down c' = shutting_down c \<and> tasks c' = tasks c \<and>
     rx_held (write_ch c') = rx_held (write_ch c) \<and> connection (holder c') = connection (holder c)"

fun late :: "gap \<Rightarrow> bool" where
  "late AfterSwap \<longleftrightarrow> True" | "late AfterRevive \<longleftrightarrow> True" | "late AfterUnflag \<longleftrightarrow> True"
| "late AfterClear \<longleftrightarrow> True" | "late AfterSpawn \<longleftrightarrow> True" | "late AfterStore \<longleftrightarrow> True"
| "late AfterConnect \<longleftrightarrow> True" | "late AfterRejoin \<longleftrightarrow> True" | "late AfterShow \<longleftrightarrow> True"
| "late _ \<longleftrightarrow> False"

definition undisturbed :: "(gap \<Rightarrow> client \<Rightarrow> client) \<Rightarrow> bool" where
  "undisturbed others \<longleftrightarrow> (\<forall>g c. late g \<longrightarrow> stays_up c (others g c))"

definition only_queues :: "(gap \<Rightarrow> client \<Rightarrow> client) \<Rightarrow> bool" where
  "only_queues others \<longleftrightarrow> (\<forall>g c. late g \<longrightarrow> prefix (buf (write_ch c)) (buf (write_ch (others g c))))"

lemma stays_up_refl [simp]: "stays_up c c" by (simp add: stays_up_def same_session_def)

lemma undisturbed_alone [simp]: "undisturbed (\<lambda>_. id)" "only_queues (\<lambda>_. id)"
  by (simp_all add: undisturbed_def only_queues_def)

lemma same_session_trans: "same_session c c' \<Longrightarrow> same_session c' c'' \<Longrightarrow> same_session c c''"
  unfolding same_session_def by (auto intro: settles_trans)

text \<open>The stores of the reconnect itself.\<close>

lemma same_session_own [simp]:
  "same_session x (c\<lparr>write_ch := w\<rparr>) = same_session x c" "same_session x (c\<lparr>alive := a\<rparr>) = same_session x c"
  "same_session x (c\<lparr>shutting_down := a\<rparr>) = same_session x c" "same_session x (c\<lparr>tasks := ts\<rparr>) = same_session x c"
  "same_session x (touch now c) = same_session x c" "same_session x (snd (send_write m c)) = same_session x c"
  "same_session x (watch_connection v c) = same_session x c"
  by (simp_all add: same_session_def)

lemma same_session_clear: "same_session x c \<Longrightarrow> same_session x (on_tracker tracker_clear c)"
  by (auto simp: same_session_def intro: settles_trans settles_clear)

lemma stays_up_session: "same_session x c \<Longrightarrow> stays_up c c' \<Longrightarrow> same_session x c'"
  unfolding stays_up_def by (blast intro: same_session_trans)

text \<open>Every request of \<open>c\<close> has settled in \<open>c'\<close>.\<close>

definition all_settled :: "client \<Rightarrow> client \<Rightarrow> bool" where
  "all_settled c c' \<longleftrightarrow>
     tracker_inv (request_tracker c') \<and>
     (\<forall>rx. senders (request_tracker c) rx \<noteq> None \<longrightarrow>
        senders (request_tracker c') rx \<noteq> None \<and> senders (request_tracker c') rx \<noteq> Some Held)"

lemma all_settled_clear:
  assumes "same_session x c" and "tracker_inv (request_tracker x)"
  shows "all_settled x (on_tracker tracker_clear c)"
proof -
  have inv: "tracker_inv (request_tracker c)" and dom: "senders (request_tracker c) rx \<noteq> None"
    if "senders (request_tracker x) rx \<noteq> None" for rx
    using assms that by (auto simp: same_session_def settles_def)
  have "tracker_inv (request_tracker c)" using assms by (auto simp: same_session_def settles_def)
  with no_held_after_clear [OF this] tracker_inv_clear [OF this] dom show ?thesis
    by (auto simp: all_settled_def tracker_clear_def)
qed

lemma all_settled_own [simp]:
  "all_settled x (touch now c) = all_settled x c" "all_settled x (c\<lparr>tasks := ts\<rparr>) = all_settled x c"
  "all_settled x (snd (send_write m c)) = all_settled x c"
  "all_settled x (watch_connection v c) = all_settled x c" "all_settled x (send_event e c) = all_settled x c"
  by (simp_all add: all_settled_def)

lemma all_settled_up: "all_settled x c \<Longrightarrow> stays_up c c' \<Longrightarrow> all_settled x c'"
  unfolding all_settled_def stays_up_def same_session_def settles_def by metis

text \<open>An undisturbed client with the new connection, and its \<open>CONNECT\<close> messages.\<close>

definition fresh_up :: "client \<Rightarrow> client \<Rightarrow> bool" where
  "fresh_up x c \<longleftrightarrow> same_session x c \<and> all_settled x c \<and> alive c \<and> \<not> shutting_down c \<and>
     tasks c = all_spawned \<and> rx_held (write_ch c)"

lemma fresh_up_up: "fresh_up x c \<Longrightarrow> stays_up c c' \<Longrightarrow> fresh_up x c'"
  using stays_up_session all_settled_up by (fastforce simp: fresh_up_def stays_up_def)

lemma fresh_up_own [simp]:
  "fresh_up x (snd (send_write m c)) = fresh_up x c" "fresh_up x (watch_connection v c) = fresh_up x c"
  by (simp_all add: fresh_up_def)

lemma fresh_connection_up:
  assumes "undisturbed others" and "tracker_inv (request_tracker c)"
  shows "fresh_up c (fresh_connection now others c)"
proof -
  have u: "stays_up x (others g x)" if "late g" for g x using assms(1) that by (simp add: undisturbed_def)
  define c1 where "c1 = others AfterSwap (c\<lparr>write_ch := channel WRITE_CAPACITY\<rparr>)"
  define c2 where "c2 = others AfterRevive (c1\<lparr>alive := True\<rparr>)"
  define c3 where "c3 = others AfterUnflag (c2\<lparr>shutting_down := False\<rparr>)"
  define c4 where "c4 = others AfterClear (on_tracker tracker_clear c3)"
  define c5 where "c5 = others AfterSpawn (touch now c4)"
  define c6 where "c6 = others AfterStore (c5\<lparr>tasks := all_spawned\<rparr>)"
  have c1: "same_session c c1" "rx_held (write_ch c1)"
    using u [of AfterSwap "c\<lparr>write_ch := channel WRITE_CAPACITY\<rparr>"] stays_up_session [of c]
    by (auto simp: c1_def stays_up_def same_session_def)
  have c2: "same_session c c2" "rx_held (write_ch c2)" "alive c2"
    using u [of AfterRevive "c1\<lparr>alive := True\<rparr>"] stays_up_session [of c "c1\<lparr>alive := True\<rparr>"] c1
    by (simp_all add: c2_def) (simp_all add: stays_up_def)
  have c3: "same_session c c3" "rx_held (write_ch c3)" "alive c3" "\<not> shutting_down c3"
    using u [of AfterUnflag "c2\<lparr>shutting_down := False\<rparr>"] stays_up_session [of c "c2\<lparr>shutting_down := False\<rparr>"] c2
    by (simp_all add: c3_def) (simp_all add: stays_up_def)
  let ?cl = "on_tracker tracker_clear c3"
  have cl: "same_session c ?cl" "all_settled c ?cl"
    using same_session_clear [OF c3(1)] all_settled_clear [OF c3(1) assms(2)] by simp_all
  have c4: "same_session c c4" "all_settled c c4" "rx_held (write_ch c4)" "alive c4" "\<not> shutting_down c4"
    using u [of AfterClear ?cl] stays_up_session [OF cl(1)] all_settled_up [OF cl(2)] c3(2-4)
    by (simp_all add: c4_def) (simp_all add: stays_up_def)
  have c5: "same_session c c5" "all_settled c c5" "rx_held (write_ch c5)" "alive c5" "\<not> shutting_down c5"
    using u [of AfterSpawn "touch now c4"] stays_up_session [of c "touch now c4"]
      all_settled_up [of c "touch now c4"] c4
    by (simp_all add: c5_def) (simp_all add: stays_up_def)
  have "fresh_up c (c5\<lparr>tasks := all_spawned\<rparr>)" using c5 by (simp add: fresh_up_def)
  then have "fresh_up c c6" unfolding c6_def by (rule fresh_up_up) (simp add: u)
  then show ?thesis
    by (simp add: fresh_connection_def Let_def c1_def c2_def c3_def c4_def c5_def c6_def)
qed

lemma send_then_open:
  assumes "rx_held (write_ch c)" and "stays_up (snd (send_write m c)) (others (snd (send_write m c)))"
  shows "send_then m others c = (Inr (), others (snd (send_write m c)))"
proof -
  have "rx_held (write_ch (others (snd (send_write m c))))" using assms by (simp add: stays_up_def)
  then have "\<not> send_starved m c (others (snd (send_write m c)))" by (simp add: send_starved_def)
  with assms(1) show ?thesis
    by (simp add: send_then_def Let_def split: prod.split send_result.split) (auto simp: send_write_def chan_send_def)
qed

text \<open>Nobody else at all.\<close>

definition alone :: "(gap \<Rightarrow> client \<Rightarrow> client) \<Rightarrow> bool" where
  "alone others \<longleftrightarrow> (\<forall>g. late g \<longrightarrow> others g = id)"

lemma alone_id [simp]: "alone (\<lambda>_. id)" by (simp add: alone_def)

lemma fresh_connection_alone:
  assumes "alone others"
  shows "fresh_connection now others c =
     (touch now (on_tracker tracker_clear
        (c\<lparr>write_ch := channel WRITE_CAPACITY, alive := True, shutting_down := False\<rparr>)))\<lparr>tasks := all_spawned\<rparr>"
  using assms by (simp add: alone_def fresh_connection_def Let_def)

lemma send_then_alone: "rx_held (write_ch c) \<Longrightarrow> send_then m id c = (Inr (), snd (send_write m c))"
  for c :: client
  using send_then_open [of c m id] by simp

lemma rejoin_alone:
  assumes "alone others" and "rx_held (write_ch c)"
  shows "rejoin render others c =
     (Inr (), let c1 = snd (send_write (connect_msg render ''receiver-0'') c)
              in case transport_id c of None \<Rightarrow> c1 | Some tid \<Rightarrow> snd (send_write (connect_msg render tid) c1))"
proof -
  have o: "others AfterConnect = id" "others AfterRejoin = id" using assms(1) by (simp_all add: alone_def)
  show ?thesis
    using assms(2) by (simp add: rejoin_def bind_io_def o send_then_alone Let_def split: option.split)
qed

text \<open>The client after the \<open>CONNECT\<close> messages.\<close>

definition rejoined :: "render \<Rightarrow> (gap \<Rightarrow> client \<Rightarrow> client) \<Rightarrow> client \<Rightarrow> client" where
  "rejoined render others c =
     (let c1 = others AfterConnect (snd (send_write (connect_msg render ''receiver-0'') c))
      in others AfterRejoin
           (case transport_id c1 of None \<Rightarrow> c1 | Some tid \<Rightarrow> snd (send_write (connect_msg render tid) c1)))"

lemma rejoin_up:
  assumes "undisturbed others" and "fresh_up x c"
  shows "rejoin render others c = (Inr (), rejoined render others c)" and "fresh_up x (rejoined render others c)"
proof -
  have u: "stays_up y (others g y)" if "late g" for g y using assms(1) that by (simp add: undisturbed_def)
  let ?c1 = "others AfterConnect (snd (send_write (connect_msg render ''receiver-0'') c))"
  have c1: "fresh_up x ?c1" by (rule fresh_up_up [OF _ u]) (simp_all add: assms(2))
  have s1: "send_then (connect_msg render ''receiver-0'') (others AfterConnect) c = (Inr (), ?c1)"
    using assms(2) u by (intro send_then_open) (simp_all add: fresh_up_def)
  have s2: "send_then (connect_msg render tid) (others AfterRejoin) ?c1 =
      (Inr (), others AfterRejoin (snd (send_write (connect_msg render tid) ?c1)))" for tid
    using c1 u by (intro send_then_open) (simp_all add: fresh_up_def)
  show "rejoin render others c = (Inr (), rejoined render others c)"
    by (simp add: rejoin_def rejoined_def bind_io_def s1 s2 Let_def split: option.split)
  have "fresh_up x (case transport_id ?c1 of None \<Rightarrow> ?c1 | Some tid \<Rightarrow> snd (send_write (connect_msg render tid) ?c1))"
    using c1 by (simp split: option.split)
  from fresh_up_up [OF this u, of AfterRejoin] show "fresh_up x (rejoined render others c)"
    by (simp add: rejoined_def Let_def)
qed

lemma prefix_parts: "prefix xs ys \<Longrightarrow> \<exists>zs. ys = xs @ zs" by (auto simp: prefix_def)

text \<open>The queue of the new connection as long as its writer has not taken anything: the two \<open>CONNECT\<close>
  messages in order, among what others have queued.\<close>

lemma rejoined_queue:
  assumes "undisturbed others" and "only_queues others" and "fresh_up x c"
  shows "\<exists>xs ys zs. buf (write_ch (rejoined render others c)) =
     xs @ connect_msg render ''receiver-0'' # ys @
       (case transport_id x of None \<Rightarrow> [] | Some tid \<Rightarrow> [connect_msg render tid]) @ zs"
proof -
  have u: "stays_up y (others g y)" if "late g" for g y using assms(1) that by (simp add: undisturbed_def)
  have q: "\<exists>zs. buf (write_ch (others g y)) = buf (write_ch y) @ zs" if "late g" for g y
    using assms(2) that prefix_parts unfolding only_queues_def by blast
  let ?c1 = "others AfterConnect (snd (send_write (connect_msg render ''receiver-0'') c))"
  have c1: "fresh_up x ?c1" by (rule fresh_up_up [OF _ u]) (simp_all add: assms(3))
  then have tid: "transport_id ?c1 = transport_id x" and rx: "rx_held (write_ch ?c1)"
    by (simp_all add: fresh_up_def same_session_def)
  obtain ys where ys: "buf (write_ch ?c1) = buf (write_ch c) @ connect_msg render ''receiver-0'' # ys"
    using q [of AfterConnect "snd (send_write (connect_msg render ''receiver-0'') c)"] assms(3)
    by (auto simp: fresh_up_def)
  show ?thesis
  proof (cases "transport_id x")
    case None
    obtain zs where "buf (write_ch (others AfterRejoin ?c1)) = buf (write_ch ?c1) @ zs" using q [of AfterRejoin ?c1] by auto
    with ys None tid show ?thesis by (auto simp: rejoined_def Let_def)
  next
    case (Some t)
    let ?c2 = "snd (send_write (connect_msg render t) ?c1)"
    obtain zs where "buf (write_ch (others AfterRejoin ?c2)) = buf (write_ch ?c2) @ zs" using q [of AfterRejoin ?c2] by auto
    with ys rx Some tid show ?thesis by (auto simp: rejoined_def Let_def)
  qed
qed

lemma reconnect_through:
  assumes "\<not> shutting_down c" and "\<not> alive (others AfterFlag c)"
    and "\<not> shutting_down (reconnecting attempt others c)"
    and "others AfterRecheck (reconnecting attempt others c) = c4" and "undisturbed others"
    and "tracker_inv (request_tracker c4)"
    and "reconnect_with_attempt render attempt (Inr ()) others now c = (r, c')"
  shows "r = Inr () \<and> fresh_up c4 (c'\<lparr>event_ch := event_ch c4\<rparr>) \<and> all_settled c4 c' \<and>
     connection (holder c') = ConnConnected \<and>
     (\<exists>ch. event_ch c' = chan_try_send EvReconnected ch \<and> cap ch = cap (event_ch c4) \<and>
        tx_held ch = tx_held (event_ch c4) \<and> rx_held ch = rx_held (event_ch c4)) \<and>
     (only_queues others \<longrightarrow> (\<exists>xs ys zs. buf (write_ch c') =
        xs @ connect_msg render ''receiver-0'' # ys @
          (case transport_id c4 of None \<Rightarrow> [] | Some tid \<Rightarrow> [connect_msg render tid]) @ zs))"
proof -
  let ?f = "fresh_connection now others c4"
  let ?r = "rejoined render others ?f"
  let ?s = "others AfterShow (watch_connection ConnConnected ?r)"
  have f: "fresh_up c4 ?f" by (rule fresh_connection_up) fact+
  note j = rejoin_up [OF assms(5) f, of render]
  have show_up: "stays_up (watch_connection ConnConnected ?r) ?s"
    using assms(5) by (simp add: undisturbed_def)
  have s: "fresh_up c4 ?s" by (rule fresh_up_up [OF _ show_up]) (simp add: j(2))
  have conn: "connection (holder ?s) = ConnConnected" using show_up by (simp add: stays_up_def)
  have res: "r = Inr ()" "c' = send_event EvReconnected ?s"
    using assms(7) reconnect_dialed [where others = others, OF assms(1,2), of render attempt "Inr ()" now] assms(3,4)
    by (simp_all add: Let_def bind_io_def j(1))
  have queue: "\<exists>xs ys zs. buf (write_ch c') =
      xs @ connect_msg render ''receiver-0'' # ys @
        (case transport_id c4 of None \<Rightarrow> [] | Some tid \<Rightarrow> [connect_msg render tid]) @ zs"
    if q: "only_queues others"
  proof -
    obtain xs ys zs where "buf (write_ch ?r) = xs @ connect_msg render ''receiver-0'' # ys @
        (case transport_id c4 of None \<Rightarrow> [] | Some tid \<Rightarrow> [connect_msg render tid]) @ zs"
      using rejoined_queue [OF assms(5) q f] by blast
    moreover obtain vs where "buf (write_ch ?s) = buf (write_ch ?r) @ vs"
      using q [unfolded only_queues_def, rule_format, of AfterShow "watch_connection ConnConnected ?r"]
      by (auto simp: prefix_def)
    ultimately show ?thesis by (auto simp: res(2))
  qed
  have "fresh_up c4 (c'\<lparr>event_ch := event_ch c4\<rparr>)"
    using s by (simp add: res(2) fresh_up_def same_session_def all_settled_def)
  moreover have "all_settled c4 c'" using s by (simp add: res(2) fresh_up_def)
  moreover have "\<exists>ch. event_ch c' = chan_try_send EvReconnected ch \<and> cap ch = cap (event_ch c4) \<and>
      tx_held ch = tx_held (event_ch c4) \<and> rx_held ch = rx_held (event_ch c4)"
    using s by (intro exI [of _ "event_ch ?s"]) (simp add: res(2) fresh_up_def same_session_def)
  ultimately show ?thesis using queue conn res by simp
qed

text \<open>C6. A reconnect that gets through restores the session. When the client was lost and not shut
  down, the new connection succeeds, no \<open>disconnect\<close> was noticed while it was made, and from the swap of
  the write channel on the others leave the connection up (it is not lost again, nobody disconnects, and
  the app is not changed), whatever else they do then, \<open>reconnect\<close> succeeds: the client is alive and
  \<open>Connected\<close>, three fresh tasks run, no request of the old connection waits any more, its app is kept,
  and the same event channel is offered \<open>Reconnected\<close> last. If the new writer has not taken a message yet,
  its queue holds the \<open>CONNECT\<close> to the receiver and, behind it, the one to the app that was running, if
  any. Without the hypothesis on the others the new connection may be lost before it is announced.\<close>

theorem reconnect_restores_session:
  assumes "\<not> shutting_down c" and "\<not> alive (others AfterFlag c)"
    and "\<not> shutting_down (reconnecting attempt others c)"
    and "others AfterRecheck (reconnecting attempt others c) = c4" and "undisturbed others"
    and "tracker_inv (request_tracker c4)"
    and "reconnect_with_attempt render attempt (Inr ()) others now c = (r, c')"
  shows "r = Inr () \<and> alive c' \<and> \<not> shutting_down c' \<and> connection (holder c') = ConnConnected \<and>
     tasks c' = all_spawned \<and> rx_held (write_ch c') \<and>
     (\<forall>rx. senders (request_tracker c4) rx \<noteq> None \<longrightarrow> senders (request_tracker c') rx \<noteq> Some Held) \<and>
     transport_id c' = transport_id c4 \<and> session_id c' = session_id c4 \<and>
     (\<exists>ch. event_ch c' = chan_try_send EvReconnected ch \<and> cap ch = cap (event_ch c4) \<and>
        tx_held ch = tx_held (event_ch c4) \<and> rx_held ch = rx_held (event_ch c4)) \<and>
     (only_queues others \<longrightarrow> (\<exists>xs ys zs. buf (write_ch c') =
        xs @ connect_msg render ''receiver-0'' # ys @
          (case transport_id c4 of None \<Rightarrow> [] | Some tid \<Rightarrow> [connect_msg render tid]) @ zs))"
  using reconnect_through [OF assms]
  by (simp add: fresh_up_def same_session_def all_settled_def)

text \<open>A request made on the new connection before its \<open>CONNECT\<close> is sent.\<close>

lemma queued_stays_up: "stays_up c (queued mk c)"
proof -
  have "settles (request_tracker c) (snd (register (request_tracker c)))" by (rule settles_register)
  moreover have "tasks (queued mk c) = tasks c" by (simp add: queued_def)
  ultimately show ?thesis by (simp add: stays_up_def same_session_def)
qed

theorem reconnect_restores_session_witness:
  "\<exists>xs ys zs. buf (write_ch (snd (reconnect (\<lambda>_. []) (Inr ())
      ((\<lambda>_. id)(AfterStore := queued (\<lambda>_. build_message [] [] [] []))) 7 (sample_client\<lparr>alive := False\<rparr>)))) =
     xs @ connect_msg (\<lambda>_. []) ''receiver-0'' # ys @ [connect_msg (\<lambda>_. []) ''web-5''] @ zs"
proof -
  let ?c = "sample_client\<lparr>alive := False\<rparr>"
  let ?o = "(\<lambda>_. id)(AfterStore := queued (\<lambda>_. build_message [] [] [] []))"
  let ?c4 = "?o AfterRecheck (reconnecting 1 ?o ?c)"
  have "announce_attempt 1 ?o ?c = announce_attempt 1 (\<lambda>_. id) ?c" by (simp add: announce_attempt_def)
  then have r: "reconnecting 1 ?o ?c = shutdown_tasks (announce_attempt 1 (\<lambda>_. id) ?c)"
    by (simp add: reconnecting_def)
  have c: "\<not> shutting_down ?c" "\<not> alive (?o AfterFlag ?c)" "\<not> shutting_down (reconnecting 1 ?o ?c)"
    unfolding r by (simp_all add: sample_client_def)
  have t: "transport_id ?c4 = Some ''web-5''" "tracker_inv (request_tracker ?c4)"
    unfolding r by (simp_all add: tracker_inv_new)
  have up: "undisturbed ?o" using queued_stays_up by (simp add: undisturbed_def)
  have "only_queues ?o" by (simp add: only_queues_def)
  with reconnect_restores_session [OF c refl up t(2) prod.collapse [symmetric], of "\<lambda>_. []" 7] t(1)
  show ?thesis by (simp add: reconnect_def)
qed

text \<open>C37. A reconnect can undo a disconnect. If \<open>disconnect\<close> runs to its end after
  \<open>reconnect\<close> has looked at the shutdown flag for the second time and before it swaps the write
  channel, \<open>reconnect\<close> takes the flag back: the client is alive again, its tasks run and its watchers
  see \<open>Connected\<close>, although \<open>disconnect\<close> returned successfully; and its event stream has
  ended, so the user sees none of it.\<close>

theorem reconnect_undoes_disconnect:
  assumes "\<not> shutting_down c" and "\<not> alive c"
    and "reconnect_with_attempt render attempt (Inr ())
           ((\<lambda>_. id)(AfterRecheck := (\<lambda>c. snd (disconnect render in_time await c)))) now c = (r, c')"
  shows "r = Inr () \<and> alive c' \<and> \<not> shutting_down c' \<and> tasks c' = all_spawned \<and>
     connection (holder c') = ConnConnected \<and> \<not> tx_held (event_ch c')"
proof -
  let ?o = "(\<lambda>_. id)(AfterRecheck := (\<lambda>c. snd (disconnect render in_time await c)))"
  let ?c2 = "reconnecting attempt ?o c"
  have alone: "alone ?o" by (simp add: alone_def)
  have "\<not> shutting_down ?c2" using assms(1) by (simp add: reconnecting_def announce_attempt_def)
  moreover have "\<not> tx_held (event_ch (snd (disconnect render in_time await ?c2)))"
    by (simp add: disconnect_def Let_def)
  ultimately show ?thesis
    using assms reconnect_dialed [OF assms(1), of ?o render attempt "Inr ()" now]
    by (auto simp: Let_def bind_io_def alone rejoin_alone [OF alone] fresh_connection_alone [OF alone]
        alone_def split: option.splits)
qed

theorem reconnect_undoes_disconnect_witness:
  "alive (snd (reconnect_with_attempt (\<lambda>_. []) 1 (Inr ())
     ((\<lambda>_. id)(AfterRecheck := (\<lambda>c. snd (disconnect (\<lambda>_. []) True (\<lambda>_ _ c. (TimedOut, c)) c)))) 7
     (sample_client\<lparr>alive := False\<rparr>)))"
proof -
  have "\<not> shutting_down (sample_client\<lparr>alive := False\<rparr>)" "\<not> alive (sample_client\<lparr>alive := False\<rparr>)"
    by (simp_all add: sample_client_def)
  from reconnect_undoes_disconnect [OF this prod.collapse [symmetric]] show ?thesis by blast
qed

text \<open>A failed \<open>reconnect\<close> strands the client. When the connection of a manual \<open>reconnect\<close> fails,
  the error is returned, but the watchers go on seeing \<open>Reconnecting\<close>, which the automatic reconnect
  does not act on: its next wake-up leaves everything as it is.\<close>

theorem failed_reconnect_strands:
  assumes "\<not> shutting_down c" and "\<not> alive c"
    and "reconnect render (Inl e) (\<lambda>_. id) now c = (r, c')"
  shows "r = Inl e \<and> \<not> alive c' \<and> connection (holder c') = ConnReconnecting 1 \<and>
     auto_reconnect_wake render envs c' = (True, c')"
  using assms by (auto simp: reconnect_def reconnect_with_attempt_def auto_reconnect_wake_def Let_def)

theorem failed_reconnect_strands_witness:
  "fst (reconnect (\<lambda>_. []) (Inl (ErrTls [])) (\<lambda>_. id) 7 (sample_client\<lparr>alive := False\<rparr>)) = Inl (ErrTls [])"
proof -
  have "\<not> shutting_down (sample_client\<lparr>alive := False\<rparr>)" "\<not> alive (sample_client\<lparr>alive := False\<rparr>)"
    by (simp_all add: sample_client_def)
  from failed_reconnect_strands [OF this prod.collapse [symmetric]] show ?thesis by blast
qed

section \<open>Connecting\<close>

text \<open>The tasks of a connection that is not lost while the client is put together. Nobody takes an event
  yet; the writer may or may not take messages.\<close>

definition tasks_keep_up :: "(gap \<Rightarrow> shared \<Rightarrow> shared) \<Rightarrow> bool" where
  "tasks_keep_up meanwhile \<longleftrightarrow>
     (\<forall>g s. alive (meanwhile g s) = alive s \<and> rx_held (write_ch (meanwhile g s)) = rx_held (write_ch s) \<and>
        cap (event_ch (meanwhile g s)) = cap (event_ch s) \<and>
        tx_held (event_ch (meanwhile g s)) = tx_held (event_ch s) \<and>
        rx_held (event_ch (meanwhile g s)) = rx_held (event_ch s) \<and>
        prefix (buf (event_ch s)) (buf (event_ch (meanwhile g s))) \<and>
        (tracker_inv (request_tracker s) \<longrightarrow> tracker_inv (request_tracker (meanwhile g s))))"

definition writer_idle :: "(gap \<Rightarrow> shared \<Rightarrow> shared) \<Rightarrow> bool" where
  "writer_idle meanwhile \<longleftrightarrow> (\<forall>g s. prefix (buf (write_ch s)) (buf (write_ch (meanwhile g s))))"

lemma tasks_keep_up_id [simp]: "tasks_keep_up (\<lambda>_. id)" "writer_idle (\<lambda>_. id)"
  by (simp_all add: tasks_keep_up_def writer_idle_def)

text \<open>The \<open>CONNECT\<close> is sent unless the writer is gone already.\<close>

lemma send_then_result:
  "fst (send_then m f s) = Inr () \<or> fst (send_then m f s) = Inl ErrDisconnected"
  "fst (send_then m f s) = Inr () \<Longrightarrow> snd (send_then m f s) = f (snd (send_write m s)) \<and> rx_held (write_ch s)"
  "rx_held (write_ch s) \<Longrightarrow> rx_held (write_ch (f (snd (send_write m s)))) \<Longrightarrow> fst (send_then m f s) = Inr ()"
  by (auto simp: send_then_def send_starved_def send_write_def chan_send_def Let_def split: if_splits)

text \<open>Whatever the tasks do, what the client is told of the connection at the end is \<open>Connected\<close>.\<close>

lemma built_client_any:
  "case from_builder render b tls meanwhile now of
     None \<Rightarrow> tls = Inr () \<and> (event_buffer_size b = 0 \<or> MAX_PERMITS < event_buffer_size b)
   | Some (Inl e) \<Rightarrow> tls = Inl e \<or> tls = Inr () \<and> e = ErrDisconnected
   | Some (Inr c) \<Rightarrow>
       tls = Inr () \<and> event_buffer_size b \<noteq> 0 \<and> event_buffer_size b \<le> MAX_PERMITS \<and>
       \<not> shutting_down c \<and> tasks c = all_spawned \<and> config c = config_of b \<and>
       connection (holder c) = ConnConnected \<and> transport_id c = None \<and> session_id c = None"
proof -
  have "fst (send_then (connect_msg render ''receiver-0'') (meanwhile AfterConnect)
      (meanwhile AfterSpawn (first_shared b now))) \<in> {Inr (), Inl ErrDisconnected}"
    using send_then_result(1) by auto
  then show ?thesis
    by (auto simp: from_builder_def client_of_def Let_def split: sum.split prod.split)
qed

lemma built_client:
  assumes "tasks_keep_up meanwhile"
  shows "case from_builder render b tls meanwhile now of
     None \<Rightarrow> tls = Inr () \<and> (event_buffer_size b = 0 \<or> MAX_PERMITS < event_buffer_size b)
   | Some (Inl e) \<Rightarrow> tls = Inl e
   | Some (Inr c) \<Rightarrow>
       client_inv c \<and> alive c \<and> rx_held (write_ch c) \<and>
       (writer_idle meanwhile \<longrightarrow> connect_msg render ''receiver-0'' \<in> set (buf (write_ch c))) \<and>
       cap (event_ch c) = event_buffer_size b \<and>
       (\<exists>es es'. buf (event_ch c) = buf (chan_try_send EvConnected ((channel (event_buffer_size b))\<lparr>buf := es\<rparr>)) @ es')"
proof (cases "tls = Inr () \<and> event_buffer_size b \<noteq> 0 \<and> event_buffer_size b \<le> MAX_PERMITS")
  case True
  note k = assms [unfolded tasks_keep_up_def, rule_format]
  let ?m = "connect_msg render ''receiver-0''"
  let ?s1 = "meanwhile AfterSpawn (first_shared b now)"
  let ?s2 = "meanwhile AfterConnect (snd (send_write ?m ?s1))"
  let ?s3 = "meanwhile AfterShow (send_event EvConnected ?s2)"
  have s1: "rx_held (write_ch ?s1)" "alive ?s1" "tracker_inv (request_tracker ?s1)"
    "cap (event_ch ?s1) = event_buffer_size b" "tx_held (event_ch ?s1)" "rx_held (event_ch ?s1)"
    using k [of AfterSpawn "first_shared b now"] by (simp_all add: first_shared_def tracker_inv_new)
  have s2: "rx_held (write_ch ?s2)" "alive ?s2" "tracker_inv (request_tracker ?s2)"
    "cap (event_ch ?s2) = event_buffer_size b" "tx_held (event_ch ?s2)" "rx_held (event_ch ?s2)"
    using k [of AfterConnect "snd (send_write ?m ?s1)"] s1 by simp_all
  have s3: "rx_held (write_ch ?s3)" "alive ?s3" "tracker_inv (request_tracker ?s3)"
    "cap (event_ch ?s3) = event_buffer_size b"
    using k [of AfterShow "send_event EvConnected ?s2"] s2 by simp_all
  have queued: "?m \<in> set (buf (write_ch ?s3))" if "writer_idle meanwhile"
  proof -
    have "?m \<in> set (buf (write_ch (snd (send_write ?m ?s1))))" using s1(1) by simp
    then have "?m \<in> set (buf (write_ch ?s2))"
      using that set_mono_prefix unfolding writer_idle_def by blast
    then have "?m \<in> set (buf (write_ch (send_event EvConnected ?s2)))" by simp
    then show ?thesis using that set_mono_prefix unfolding writer_idle_def by blast
  qed
  obtain es' where es': "buf (event_ch ?s3) = buf (chan_try_send EvConnected (event_ch ?s2)) @ es'"
    using k [of AfterShow "send_event EvConnected ?s2"] by (auto simp: prefix_def)
  have ch: "(channel (event_buffer_size b))\<lparr>buf := buf (event_ch ?s2)\<rparr> = event_ch ?s2"
    using s2 by (simp add: channel_def)
  have sent: "send_then ?m (meanwhile AfterConnect) ?s1 = (Inr (), ?s2)"
    using send_then_result(2,3) [where m = ?m and s = ?s1 and f = "meanwhile AfterConnect"] s1(1) s2(1)
    by (simp add: prod_eq_iff)
  have "from_builder render b tls meanwhile now = Some (Inr (client_of b (watch_connection ConnConnected ?s3)))"
    using True by (simp add: from_builder_def sent Let_def)
  then show ?thesis
    using s3 queued es' ch
    by (simp add: client_of_def client_inv_def all_spawned_def) metis
next
  case False
  then show ?thesis by (cases tls) (auto simp: from_builder_def)
qed

text \<open>With nobody else, exactly this.\<close>

lemma built_client_alone:
  "case from_builder render b tls (\<lambda>_. id) now of
     None \<Rightarrow> tls = Inr () \<and> (event_buffer_size b = 0 \<or> MAX_PERMITS < event_buffer_size b)
   | Some (Inl e) \<Rightarrow> tls = Inl e
   | Some (Inr c) \<Rightarrow>
       buf (event_ch c) = [EvConnected] \<and> buf (write_ch c) = [connect_msg render ''receiver-0''] \<and>
       pending (request_tracker c) = Map.empty \<and> timeout (request_tracker c) = request_timeout b \<and>
       get_media_session_id c = Inl ErrNoMediaSession"
  by (simp add: from_builder_def send_then_def send_starved_def send_write_def chan_send_def chan_full_def
      first_shared_def client_of_def WRITE_CAPACITY_def Let_def new_state_def get_media_session_id_def
      chan_try_send_def split: sum.split)

text \<open>C35. A built client is connected, unless its connection is lost at once. A TLS error is returned; an
  event channel of size 0, or of more than \<open>2 ^ 61 - 1\<close>, panics; and in an \<open>Ok\<close> the last that \<open>connect\<close> itself
  shows is \<open>Connected\<close>, with the builder's configuration and no app. If the tasks, which run already, do not lose the connection
  meanwhile, \<open>connect\<close> fails in no other way, and the client is alive and keeps the invariant, its
  \<open>CONNECT\<close> to the receiver is in the queue unless the writer has taken messages from it, and \<open>Connected\<close>
  is offered to its event channel behind what the tasks have reported so far. If they do nothing at all yet, the queues hold
  exactly the \<open>CONNECT\<close> and the event \<open>Connected\<close>, no request waits and there is no media session.\<close>

theorem connect_outcome:
  "case from_builder render b tls meanwhile now of
     None \<Rightarrow> tls = Inr () \<and> (event_buffer_size b = 0 \<or> MAX_PERMITS < event_buffer_size b)
   | Some (Inl e) \<Rightarrow>
       tls = Inl e \<or> tls = Inr () \<and> e = ErrDisconnected \<and> \<not> tasks_keep_up meanwhile
   | Some (Inr c) \<Rightarrow>
       tls = Inr () \<and> event_buffer_size b \<noteq> 0 \<and> event_buffer_size b \<le> MAX_PERMITS \<and>
       \<not> shutting_down c \<and> tasks c = all_spawned \<and> config c = config_of b \<and>
       connection (holder c) = ConnConnected \<and> transport_id c = None \<and> session_id c = None \<and>
       (tasks_keep_up meanwhile \<longrightarrow>
          client_inv c \<and> alive c \<and> rx_held (write_ch c) \<and>
          (writer_idle meanwhile \<longrightarrow> connect_msg render ''receiver-0'' \<in> set (buf (write_ch c))) \<and>
          cap (event_ch c) = event_buffer_size b \<and>
          (\<exists>es es'. buf (event_ch c) =
             buf (chan_try_send EvConnected ((channel (event_buffer_size b))\<lparr>buf := es\<rparr>)) @ es')) \<and>
       (meanwhile = (\<lambda>_. id) \<longrightarrow>
          buf (event_ch c) = [EvConnected] \<and> buf (write_ch c) = [connect_msg render ''receiver-0''] \<and>
          pending (request_tracker c) = Map.empty \<and> timeout (request_tracker c) = request_timeout b \<and>
          get_media_session_id c = Inl ErrNoMediaSession)"
  using built_client_any [where render = render and b = b and tls = tls and meanwhile = meanwhile and now = now]
    built_client [where render = render and b = b and tls = tls and meanwhile = meanwhile and now = now]
    built_client_alone [where render = render and b = b and tls = tls and now = now]
  by (auto split: option.splits sum.splits)

theorem connect_outcome_witness:
  "\<exists>c. from_builder (\<lambda>_. []) (builder_new ''tv'' 8009) (Inr ()) (\<lambda>_. id) 7 = Some (Inr c) \<and>
     client_inv c \<and> alive c \<and> connection (holder c) = ConnConnected \<and> buf (event_ch c) = [EvConnected]"
proof -
  let ?r = "from_builder (\<lambda>_. []) (builder_new ''tv'' 8009) (Inr ()) (\<lambda>_. id) 7"
  note o = connect_outcome [where render = "\<lambda>_. []" and b = "builder_new ''tv'' 8009" and tls = "Inr ()"
      and meanwhile = "\<lambda>_. id" and now = 7]
  have "event_buffer_size (builder_new ''tv'' 8009) = 64" by (simp add: builder_new_def)
  with o show ?thesis by (cases ?r) (auto simp: MAX_PERMITS_def split: sum.splits)
qed

end
