(* ===== verification/AutoReconnect.thy ===== *)
theory AutoReconnect
  imports Lifecycle
begin

text \<open>
  The delays of \<open>spawn_auto_reconnect\<close> in \<open>client.rs\<close>, and what its loop of attempts guarantees.
\<close>

section \<open>The delay between attempts\<close>

definition MAX_DURATION :: duration where "MAX_DURATION = 2 ^ 64 * 1000000000 - 1"

definition checked_duration :: "duration \<Rightarrow> duration option" where
  "checked_duration d = (if d \<le> MAX_DURATION then Some d else None)"

definition saturating_pow2 :: "u32 \<Rightarrow> nat" where
  "saturating_pow2 n = min (2 ^ unat n) 4294967295"

text \<open>The arithmetic on durations panics when it overflows: \<open>None\<close>. The milliseconds are cut to 64
  bits, and \<open>seed\<close> is the sub-second part of the wall clock.\<close>

definition backoff_delay :: "duration \<Rightarrow> u32 \<Rightarrow> nat \<Rightarrow> duration option" where
  "backoff_delay delay attempt seed =
     Option.bind (checked_duration (delay * saturating_pow2 (attempt - 1))) (\<lambda>base.
       let jitter_range_ms = (base div 1000000 mod 2 ^ 64) div 4
       in if 0 < jitter_range_ms then
            (let raw = seed mod (jitter_range_ms * 2);
                 offset = int raw - int jitter_range_ms
             in if 0 \<le> offset then checked_duration (base + nat offset * 1000000)
                else Some (base - nat (- offset) * 1000000))
          else Some base)"

section \<open>Backing off\<close>

lemma jitter_bounds:
  fixes b j k :: nat
  assumes "0 < j" and "j * 4 \<le> b div 1000000"
  shows "3 * b \<le> 4 * (b - j * 1000000)" and "4 * (b + k * 1000000) \<le> 5 * b \<or> j < k"
proof -
  have j: "4 * (j * 1000000) \<le> b"
    using assms(2) times_div_less_eq_dividend [of 1000000 b] by linarith
  then show "3 * b \<le> 4 * (b - j * 1000000)" by linarith
  show "4 * (b + k * 1000000) \<le> 5 * b \<or> j < k"
  proof (cases "k \<le> j")
    case True
    then have "4 * (k * 1000000) \<le> b" using j by linarith
    then show ?thesis by simp
  qed simp
qed

lemma jitter_choice:
  fixes j raw :: nat
  shows "(let offset = int raw - int j in if 0 \<le> offset then f (nat offset) else g (nat (- offset))) =
     (if j \<le> raw then f (raw - j) else g (j - raw))"
  by (cases "j \<le> raw") (simp_all add: Let_def nat_diff_distrib')

lemma saturating_pow2_small:
  assumes "1 \<le> unat n" and "unat n \<le> 32"
  shows "saturating_pow2 (n - 1) = 2 ^ (unat n - 1)"
proof -
  have "n \<noteq> 0" using assms(1) by auto
  then have "unat (n - 1) = unat n - 1"
    by (metis unat_minus_one)
  moreover have "(2::nat) ^ (unat n - 1) \<le> 2 ^ 31"
    using assms by (intro power_increasing) simp_all
  ultimately show ?thesis
    by (simp add: saturating_pow2_def)
qed

text \<open>C32. The delay doubles, within a quarter. For the first 32 attempts the delay before attempt \<open>n\<close>
  lies within 25 percent of \<open>delay * 2 ^ (n - 1)\<close>, whatever the wall clock says, and it is computed
  without overflow as long as 125 percent of that fits a \<open>Duration\<close>.\<close>

theorem backoff_within_quarter:
  assumes "1 \<le> unat attempt" and "unat attempt \<le> 32"
    and "5 * (delay * 2 ^ (unat attempt - 1)) \<le> 4 * MAX_DURATION"
  shows "\<exists>d. backoff_delay delay attempt seed = Some d \<and>
     3 * (delay * 2 ^ (unat attempt - 1)) \<le> 4 * d \<and> 4 * d \<le> 5 * (delay * 2 ^ (unat attempt - 1))"
proof -
  define base where "base = delay * 2 ^ (unat attempt - 1)"
  define j where "j = (base div 1000000 mod 2 ^ 64) div 4"
  define raw where "raw = seed mod (j * 2)"
  have fits: "base \<le> MAX_DURATION" using assms(3) by (simp add: base_def)
  have b: "backoff_delay delay attempt seed =
      (if 0 < j then (if j \<le> raw then checked_duration (base + (raw - j) * 1000000)
         else Some (base - (j - raw) * 1000000)) else Some base)"
  proof -
    have c: "checked_duration (delay * saturating_pow2 (attempt - 1)) = Some base"
      unfolding saturating_pow2_small [OF assms(1,2)] base_def [symmetric] checked_duration_def
      using fits by (simp only: if_True)
    show ?thesis
      unfolding backoff_delay_def c bind.bind_lunit Let_def [of "_ div 4"] j_def [symmetric]
      unfolding raw_def [symmetric] Let_def [of raw]
        jitter_choice [of raw j "\<lambda>x. checked_duration (base + x * 1000000)"
          "\<lambda>x. Some (base - x * 1000000)"] ..
  qed
  have j4: "j * 4 \<le> base div 1000000"
    unfolding j_def by (metis div_times_less_eq_dividend le_trans mod_less_eq_dividend)
  have "\<exists>d. backoff_delay delay attempt seed = Some d \<and> 3 * base \<le> 4 * d \<and> 4 * d \<le> 5 * base"
  proof (cases "0 < j")
    case True
    then have "raw < j * 2" by (simp add: raw_def)
    then have k: "raw - j \<le> j" "j - raw \<le> j" by auto
    have up: "4 * (base + (raw - j) * 1000000) \<le> 5 * base"
      using jitter_bounds(2) [OF True j4, of "raw - j"] k(1) by auto
    have "4 * (base + (raw - j) * 1000000) \<le> 4 * MAX_DURATION"
      by (rule order_trans [OF up]) (use assms(3) in \<open>simp only: base_def\<close>)
    then have "base + (raw - j) * 1000000 \<le> MAX_DURATION" by simp
    moreover have "3 * base \<le> 4 * (base - (j - raw) * 1000000)"
    proof -
      have "base - j * 1000000 \<le> base - (j - raw) * 1000000"
        using k(2) by (intro diff_le_mono2 mult_le_mono1)
      then show ?thesis using jitter_bounds(1) [OF True j4] by linarith
    qed
    ultimately show ?thesis
      using up by (auto simp: b True checked_duration_def)
  qed (simp add: b)
  then show ?thesis by (simp only: base_def)
qed

theorem backoff_within_quarter_witness:
  "\<exists>d. backoff_delay (secs 2) 3 123456 = Some d \<and> 3 * secs 8 \<le> 4 * d \<and> 4 * d \<le> 5 * secs 8"
  using backoff_within_quarter [of 3 "secs 2" 123456] by (simp add: MAX_DURATION_def)

section \<open>Automatic attempts\<close>

text \<open>Surroundings in which nobody else revives the client.\<close>

definition stays_dead :: "(client \<Rightarrow> client) \<Rightarrow> bool" where
  "stays_dead f \<longleftrightarrow> (\<forall>c. \<not> alive c \<longrightarrow> \<not> alive (f c))"

definition failing :: "attempt_env \<Rightarrow> bool" where
  "failing env \<longleftrightarrow> stays_dead (env_sleep env) \<and>
     (\<forall>g. \<not> late g \<longrightarrow> stays_dead (env_others env g)) \<and> env_tls env \<noteq> Inr ()"

lemma failing_attempt:
  assumes "failing env" and "\<not> alive c"
  shows "\<exists>e c1. reconnect_with_attempt render n (env_tls env) (env_others env)
     (env_now env) (env_sleep env c) = (Inl e, c1) \<and> \<not> alive c1"
proof (cases "env_tls env")
  case (Inl e)
  have dead: "\<not> alive (env_others env g x)" if "\<not> alive x" "\<not> late g" for g x
    using assms(1) that by (simp add: failing_def stays_dead_def)
  have "\<not> alive (env_sleep env c)" using assms by (simp add: failing_def stays_dead_def)
  then have flag: "\<not> alive (env_others env AfterFlag (env_sleep env c))" by (simp add: dead)
  then have "\<not> alive (reconnecting n (env_others env) (env_sleep env c))"
    by (simp add: reconnecting_def announce_attempt_def dead)
  then show ?thesis
    using reconnect_dialed [where c = "env_sleep env c" and others = "env_others env", OF _ flag] Inl
    by (cases "shutting_down (env_sleep env c)")
      (auto simp: reconnect_with_attempt_def [where c = "env_sleep env c"] assms Let_def
        \<open>\<not> alive (env_sleep env c)\<close>)
qed (use assms in \<open>simp add: failing_def\<close>)

lemma next_attempt:
  fixes n max_n :: u32
  assumes "unat n + Suc k \<le> unat max_n"
  shows "n \<noteq> max_n" and "unat (n + 1) + k \<le> unat max_n"
proof -
  have lt: "unat n < unat max_n" using assms by simp
  then show "n \<noteq> max_n" by auto
  have "n + 1 \<noteq> 0"
  proof
    assume "n + 1 = 0"
    then have "n = 4294967295" by (simp add: add_eq_0_iff2)
    with lt unat_u32_less [of max_n] show False by simp
  qed
  then show "unat (n + 1) + k \<le> unat max_n"
    using assms by (simp add: unat_u32_Suc)
qed

lemma failing_attempts:
  assumes "list_all failing envs" and "\<not> alive c" and "unat n + length envs \<le> unat max_n"
  shows "\<exists>c1. \<not> alive c1 \<and>
     auto_attempts render max_n n (envs @ rest) c = auto_attempts render max_n (n + of_nat (length envs)) rest c1"
  using assms
proof (induction envs arbitrary: n c)
  case (Cons env envs)
  from failing_attempt [of env c render n] Cons.prems(1,2) obtain e c1 where
    step: "reconnect_with_attempt render n (env_tls env) (env_others env)
      (env_now env) (env_sleep env c) = (Inl e, c1)" "\<not> alive c1"
    by auto
  have ne: "n \<noteq> max_n" and "unat (n + 1) + length envs \<le> unat max_n"
    using next_attempt [of n "length envs" max_n] Cons.prems(3) by simp_all
  from Cons.IH [OF _ step(2) this(2)] Cons.prems(1) show ?case
    using step(1) ne by (simp add: add.assoc [symmetric] add.commute)
qed auto

text \<open>C29. The automatic reconnect tries as often as configured, then gives up. When every attempt
  fails, fewer than \<open>max_reconnect_attempts\<close> of them leave the loop running, and exactly that many
  end it: no further attempt is made whatever follows, watchers see \<open>Disconnected\<close> and the event
  \<open>Disconnected("reconnect failed")\<close> is offered last.\<close>

theorem attempts_are_exhausted:
  assumes "list_all failing envs" and "\<not> alive c" and "length envs = unat max_n" and "0 < unat max_n"
  shows "(\<forall>k < unat max_n. fst (auto_attempts render max_n 1 (take k envs) c) = Unfinished) \<and>
     (\<exists>c1. auto_attempts render max_n 1 (envs @ rest) c =
        (GaveUp, send_event (EvDisconnected (Some ''reconnect failed''))
                   (watch_connection ConnDisconnected c1)) \<and> \<not> alive c1)"
proof (intro conjI allI impI)
  fix k assume k: "k < unat max_n"
  have "list_all failing (take k envs)"
    using assms(1) by (auto simp: list_all_iff dest: in_set_takeD)
  moreover have "unat (1 :: u32) + length (take k envs) \<le> unat max_n" using k assms(3) by simp
  ultimately obtain c1 where
    "auto_attempts render max_n 1 (take k envs @ []) c = auto_attempts render max_n (1 + of_nat (length (take k envs))) [] c1"
    using failing_attempts [OF _ assms(2)] by blast
  then show "fst (auto_attempts render max_n 1 (take k envs) c) = Unfinished" by simp
next
  obtain envs' env where envs: "envs = envs' @ [env]"
    using assms(3,4) by (metis length_greater_0_conv rev_exhaust)
  have len: "unat (1 :: u32) + length envs' \<le> unat max_n" using assms(3) envs by simp
  have "list_all failing envs'" "failing env" using assms(1) envs by simp_all
  from failing_attempts [OF this(1) assms(2) len, of render "env # rest"] obtain c1 where
    c1: "\<not> alive c1" "auto_attempts render max_n 1 (envs @ rest) c =
      auto_attempts render max_n (1 + of_nat (length envs')) (env # rest) c1"
    using envs by auto
  have "unat max_n = Suc (length envs')" using assms(3) envs by simp
  then have "of_nat (unat max_n) = (of_nat (Suc (length envs')) :: u32)" by (rule arg_cong)
  then have "1 + of_nat (length envs') = max_n" by simp
  then show "\<exists>c1. auto_attempts render max_n 1 (envs @ rest) c =
        (GaveUp, send_event (EvDisconnected (Some ''reconnect failed''))
                   (watch_connection ConnDisconnected c1)) \<and> \<not> alive c1"
    using failing_attempt [OF \<open>failing env\<close> c1(1), of render max_n] c1(2) by auto
qed

text \<open>One attempt that fails in surroundings that change nothing.\<close>

definition quiet_env :: "error + unit \<Rightarrow> attempt_env" where
  "quiet_env tls = \<lparr>env_sleep = id, env_tls = tls, env_others = (\<lambda>_. id), env_now = 0\<rparr>"

theorem attempts_are_exhausted_witness:
  "fst (auto_attempts (\<lambda>_. []) 2 1 (replicate 2 (quiet_env (Inl (ErrTls []))) @ [quiet_env (Inr ())])
     (sample_client\<lparr>alive := False\<rparr>)) = GaveUp"
proof -
  have "list_all failing (replicate 2 (quiet_env (Inl (ErrTls []))))"
    by (simp add: numeral_2_eq_2 failing_def stays_dead_def quiet_env_def)
  moreover have "\<not> alive (sample_client\<lparr>alive := False\<rparr>)" by simp
  moreover have "length (replicate 2 (quiet_env (Inl (ErrTls [])))) = unat (2 :: u32)" by simp
  moreover have "0 < unat (2 :: u32)" by simp
  ultimately show ?thesis
    using attempts_are_exhausted [where render = "\<lambda>_. []" and rest = "[quiet_env (Inr ())]"]
    by (metis fst_conv)
qed

text \<open>Surroundings that leave the two flags alone and keep the requests well formed.\<close>

definition keeps_flags :: "(client \<Rightarrow> client) \<Rightarrow> bool" where
  "keeps_flags f \<longleftrightarrow>
     (\<forall>c. alive (f c) = alive c \<and> shutting_down (f c) = shutting_down c \<and>
        (tracker_inv (request_tracker c) \<longrightarrow> tracker_inv (request_tracker (f c))))"

definition quiet :: "attempt_env \<Rightarrow> bool" where
  "quiet env \<longleftrightarrow> keeps_flags (env_sleep env) \<and> (\<forall>g. \<not> late g \<longrightarrow> keeps_flags (env_others env g)) \<and>
     undisturbed (env_others env)"

definition lost_client :: "client \<Rightarrow> bool" where
  "lost_client c \<longleftrightarrow> \<not> alive c \<and> \<not> shutting_down c \<and> tracker_inv (request_tracker c)"

lemma keeps_lost: "keeps_flags f \<Longrightarrow> lost_client c \<Longrightarrow> lost_client (f c)"
  by (simp add: keeps_flags_def lost_client_def)

lemma quiet_reconnecting:
  assumes "quiet env" and "lost_client c"
  shows "lost_client (env_sleep env c)" "lost_client (env_others env AfterFlag (env_sleep env c))"
    and "lost_client (reconnecting n (env_others env) (env_sleep env c))"
    and "lost_client (env_others env AfterRecheck (reconnecting n (env_others env) (env_sleep env c)))"
proof -
  have g: "lost_client (env_others env g x)" if "lost_client x" "\<not> late g" for g x
    using assms(1) that keeps_lost [of "env_others env g" x] by (simp add: quiet_def)
  have own: "lost_client (watch_connection v x) = lost_client x" "lost_client (send_event e x) = lost_client x"
    "lost_client (shutdown_tasks x) = lost_client x" for v e x
    by (simp_all add: lost_client_def)
  show s: "lost_client (env_sleep env c)" using assms keeps_lost [of "env_sleep env" c] by (simp add: quiet_def)
  then show "lost_client (env_others env AfterFlag (env_sleep env c))" by (simp add: g)
  show r: "lost_client (reconnecting n (env_others env) (env_sleep env c))"
    using s by (simp add: reconnecting_def announce_attempt_def g own)
  then show "lost_client (env_others env AfterRecheck (reconnecting n (env_others env) (env_sleep env c)))"
    by (simp add: g)
qed

lemma quiet_failure:
  assumes "quiet env" and "env_tls env = Inl e" and "lost_client c"
  shows "\<exists>c1. reconnect_with_attempt render n (env_tls env) (env_others env)
     (env_now env) (env_sleep env c) = (Inl e, c1) \<and> lost_client c1"
  using quiet_reconnecting [OF assms(1,3)]
    reconnect_dialed [where c = "env_sleep env c" and others = "env_others env"] assms(2)
  by (simp add: lost_client_def)

lemma quiet_success:
  assumes "quiet env" and "env_tls env = Inr ()" and "lost_client c"
  shows "\<exists>c1. reconnect_with_attempt render n (env_tls env) (env_others env)
     (env_now env) (env_sleep env c) = (Inr (), c1) \<and> alive c1 \<and> \<not> shutting_down c1 \<and>
       connection (holder c1) = ConnConnected \<and> tasks c1 = all_spawned"
proof -
  note lost = quiet_reconnecting [OF assms(1,3), unfolded lost_client_def]
  have up: "undisturbed (env_others env)" using assms(1) by (simp add: quiet_def)
  obtain r c1 where step: "reconnect_with_attempt render n (Inr ()) (env_others env) (env_now env) (env_sleep env c) = (r, c1)"
    by fastforce
  show ?thesis
    using reconnect_through [OF _ _ _ refl up _ step] lost step assms(2)
    by (simp add: fresh_up_def)
qed

text \<open>C30. The automatic reconnect recovers as soon as it can. Let a lost client not be shut down, and let
  nobody touch its two flags during the attempts (no \<open>disconnect\<close>, no other reconnect) nor lose the new
  connection before it is announced. When the first attempts fail and the next one, still within the
  configured number, gets its connection, the loop ends there with the client alive, \<open>Connected\<close> and
  fresh tasks spawned.\<close>

theorem attempts_recover:
  assumes "\<forall>env \<in> set envs. quiet env \<and> env_tls env \<noteq> Inr ()" and "quiet env" and "env_tls env = Inr ()"
    and "unat n + length envs \<le> unat max_n" and "lost_client c"
  shows "\<exists>c1. auto_attempts render max_n n (envs @ env # rest) c = (Recovered, c1) \<and> alive c1 \<and>
     \<not> shutting_down c1 \<and> connection (holder c1) = ConnConnected \<and> tasks c1 = all_spawned"
  using assms
proof (induction envs arbitrary: n c)
  case Nil
  from quiet_success [OF Nil(2,3,5), where render = render and n = n] show ?case by auto
next
  case (Cons env' envs)
  obtain e where e: "env_tls env' = Inl e" "quiet env'"
    using Cons.prems(1) by (cases "env_tls env'") auto
  from quiet_failure [OF e(2,1) Cons.prems(5), where render = render and n = n] obtain c1 where
    step: "reconnect_with_attempt render n (env_tls env') (env_others env')
      (env_now env') (env_sleep env' c) = (Inl e, c1)" "lost_client c1"
    by blast
  have next_n: "n \<noteq> max_n" "unat (n + 1) + length envs \<le> unat max_n"
    using next_attempt [of n "length envs" max_n] Cons.prems(4) by simp_all
  have "\<exists>c2. auto_attempts render max_n (n + 1) (envs @ env # rest) c1 = (Recovered, c2) \<and> alive c2 \<and>
     \<not> shutting_down c2 \<and> connection (holder c2) = ConnConnected \<and> tasks c2 = all_spawned"
    by (rule Cons.IH) (use Cons.prems next_n step in auto)
  then show ?case using step(1) next_n(1) by simp
qed

theorem attempts_recover_witness:
  "fst (auto_attempts (\<lambda>_. []) 5 1 ([quiet_env (Inl (ErrTls []))] @ quiet_env (Inr ()) # [])
     (sample_client\<lparr>alive := False\<rparr>)) = Recovered"
proof -
  have "\<forall>env \<in> set [quiet_env (Inl (ErrTls []))]. quiet env \<and> env_tls env \<noteq> Inr ()"
    "quiet (quiet_env (Inr ()))" "env_tls (quiet_env (Inr ())) = Inr ()"
    by (simp_all add: quiet_def quiet_env_def keeps_flags_def)
  moreover have "unat (1 :: u32) + length [quiet_env (Inl (ErrTls []))] \<le> unat (5 :: u32)" by simp
  moreover have "lost_client (sample_client\<lparr>alive := False\<rparr>)"
    by (simp add: lost_client_def tracker_inv_new) (simp add: sample_client_def)
  ultimately show ?thesis
    using attempts_recover [where render = "\<lambda>_. []" and rest = "[]"] by (metis fst_conv)
qed

end
