(* ===== verification/Interleaving.thy ===== *)
theory Interleaving
  imports Lifecycle
begin

text \<open>
  The tasks of \<open>client.rs\<close> side by side, as a step relation. \<open>reconnect_with_attempt\<close> and \<open>disconnect\<close> are
  cut into phases at their await points and between any two of their stores to what is shared; between two
  phases the reader, the writer, the heartbeat, the user and the automatic reconnect make any steps of
  their own, each of which, a whole turn of a task's loop, is one step. There is one \<open>disconnect\<close> at a
  time. Without a break, the phases of a reconnect make up \<open>reconnect_with_attempt\<close> of \<open>Lifecycle\<close>.
\<close>

section \<open>States\<close>

text \<open>The phase of the reconnect that holds \<open>reconnect_lock\<close>, if any: what it does next.\<close>

datatype reconnect_phase =
  Free | Looked | Showing | Emitting u32 | Stopping | Handshaking | Swapping | Reviving | Unflagging
| Clearing | Spawning | Storing | Greeting | Rejoining | Announcing | Finishing

text \<open>The phase of a \<open>disconnect\<close> under way.\<close>

datatype disconnect_phase =
  NoDisconnect | Farewell | Killing | Forgetting | Telling | Parting | Closing

record world =
  cl :: client
  lock :: reconnect_phase
  bye :: disconnect_phase
  reader_up :: bool
  writer_up :: bool
  beat_up :: bool
  finished :: bool  \<comment> \<open>some \<open>disconnect\<close> has returned\<close>

definition connected_world :: "client \<Rightarrow> world" where
  "connected_world c =
     \<lparr>cl = c, lock = Free, bye = NoDisconnect, reader_up = True, writer_up = True, beat_up = True,
      finished = False\<rparr>"

section \<open>Phases\<close>

definition swap_writer :: "client \<Rightarrow> client" where
  "swap_writer c = c\<lparr>write_ch := channel WRITE_CAPACITY\<rparr>"

definition rejoin_app :: "render \<Rightarrow> unit io" where
  "rejoin_app render c =
     (case transport_id c of
        Some tid \<Rightarrow> send (connect_msg render tid) c
      | None \<Rightarrow> (Inr (), c))"

text \<open>A \<open>send\<close> that fails ends the reconnect and releases its lock.\<close>

definition unless_failed :: "error + unit \<Rightarrow> reconnect_phase \<Rightarrow> reconnect_phase" where
  "unless_failed r p = (case r of Inl _ \<Rightarrow> Free | Inr _ \<Rightarrow> p)"

text \<open>Several phases together: what comes before the handshake, between it and the spawning, and at the
  end.\<close>

definition told_attempt :: "u32 \<Rightarrow> client \<Rightarrow> client" where
  "told_attempt n c = send_event (EvReconnecting n) (watch_connection (ConnReconnecting n) c)"

definition revive :: "client \<Rightarrow> client" where
  "revive c = c\<lparr>alive := True, shutting_down := False\<rparr>"

definition respawned :: "u32 \<Rightarrow> nat \<Rightarrow> client \<Rightarrow> client" where
  "respawned n now c =
     (touch now (on_tracker tracker_clear (revive (swap_writer (shutdown_tasks (told_attempt n c))))))
       \<lparr>tasks := all_spawned\<rparr>"

definition greet :: "render \<Rightarrow> client \<Rightarrow> client" where
  "greet render c =
     send_event EvReconnected (watch_connection ConnConnected
       (snd (rejoin_app render (snd (send (connect_msg render ''receiver-0'') c)))))"

text \<open>Run without a break, the phases are the operation.\<close>

lemma reconnect_phases:
  assumes "\<not> shutting_down c" and "\<not> alive c"
  shows "snd (reconnect_with_attempt render n (Inr ()) (\<lambda>_. id) now c) = greet render (respawned n now c)"
proof -
  let ?f = "respawned n now c"
  have f: "fresh_connection now (\<lambda>_. id) (shutdown_tasks (told_attempt n c)) = ?f"
    by (simp add: fresh_connection_alone respawned_def revive_def swap_writer_def)
  have "rx_held (write_ch ?f)" by (simp add: respawned_def revive_def swap_writer_def touch_def)
  from rejoin_alone [OF alone_id this] show ?thesis
    using assms f
    by (simp add: reconnect_with_attempt_def told_attempt_def bind_io_def greet_def rejoin_app_def Let_def
        split: option.split)
qed

section \<open>Steps\<close>

text \<open>A turn of the reader, the writer or the heartbeat. Whether the heartbeat waits for its \<open>send\<close> is not
  part of the state: it may do what it does in either case.\<close>

inductive task_step :: "parser \<Rightarrow> render \<Rightarrow> world \<Rightarrow> world \<Rightarrow> bool" for parse render where
  routed: "reader_up w \<Longrightarrow>
     task_step parse render w (w\<lparr>cl := reader_received parse render now msg (cl w)\<rparr>)"
| read_failed: "reader_up w \<Longrightarrow>
     task_step parse render w (w\<lparr>cl := reader_failed e (cl w), reader_up := False\<rparr>)"
| written: "writer_up w \<Longrightarrow>
     task_step parse render w (w\<lparr>cl := (cl w)\<lparr>write_ch := snd (chan_recv (write_ch (cl w)))\<rparr>\<rparr>)"
| write_failed: "writer_up w \<Longrightarrow>
     task_step parse render w
       (w\<lparr>cl := writer_failed ((cl w)\<lparr>write_ch := snd (chan_recv (write_ch (cl w)))\<rparr>),
          writer_up := False\<rparr>)"
| ticked: "beat_up w \<Longrightarrow>
     heartbeat_step render (heartbeat_timeout (config (cl w))) Running (Tick now) (cl w) = (st, c') \<Longrightarrow>
     task_step parse render w (w\<lparr>cl := c', beat_up := (st \<noteq> Stopped)\<rparr>)"
| resumed: "beat_up w \<Longrightarrow>
     heartbeat_step render (heartbeat_timeout (config (cl w))) Blocked (Resumed now) (cl w) = (st, c') \<Longrightarrow>
     task_step parse render w (w\<lparr>cl := c', beat_up := (st \<noteq> Stopped)\<rparr>)"

text \<open>What the operations of the user do between two awaits.\<close>

inductive user_step :: "world \<Rightarrow> world \<Rightarrow> bool" where
  requested: "user_step w (w\<lparr>cl := queued mk (cl w)\<rparr>)"
| answered: "user_step w (w\<lparr>cl := waited i out (cl w)\<rparr>)"
| message_sent: "user_step w (w\<lparr>cl := snd (send msg (cl w))\<rparr>)"
| event_taken: "user_step w (w\<lparr>cl := snd (next_event (cl w))\<rparr>)"
| session_stored: "user_step w (w\<lparr>cl := store_session i (cl w)\<rparr>)"
| app_changed: "user_step w (w\<lparr>cl := (cl w)\<lparr>transport_id := tid, session_id := sid\<rparr>\<rparr>)"

text \<open>Stopping the tasks: the reader may see the cancellation before it is aborted.\<close>

definition stop_tasks :: "bool \<Rightarrow> world \<Rightarrow> world" where
  "stop_tasks noticed w =
     w\<lparr>cl := shutdown_tasks (if noticed \<and> reader_up w then reader_cancelled (cl w) else cl w),
       reader_up := False, writer_up := False, beat_up := False\<rparr>"

text \<open>A \<open>send\<close> that waits in a full channel fails when the receiver goes away (\<open>starves\<close>); that the phases
  after it may begin while it still waits is more than the code does. The wait for the handles in
  \<open>stores\<close> is one only beside a \<open>disconnect\<close>. The failed attempts of the automatic reconnect end with
  \<open>gives_up\<close> and \<open>laments\<close>.\<close>

inductive reconnect_step :: "render \<Rightarrow> world \<Rightarrow> world \<Rightarrow> bool" for render where
  looks: "lock w = Free \<Longrightarrow> \<not> shutting_down (cl w) \<Longrightarrow> reconnect_step render w (w\<lparr>lock := Looked\<rparr>)"
| skips: "lock w = Looked \<Longrightarrow> alive (cl w) \<Longrightarrow> reconnect_step render w (w\<lparr>lock := Free\<rparr>)"
| lost: "lock w = Looked \<Longrightarrow> \<not> alive (cl w) \<Longrightarrow> reconnect_step render w (w\<lparr>lock := Showing\<rparr>)"
| shows_attempt: "lock w = Showing \<Longrightarrow>
     reconnect_step render w (w\<lparr>cl := watch_connection (ConnReconnecting n) (cl w), lock := Emitting n\<rparr>)"
| emits: "lock w = Emitting n \<Longrightarrow>
     reconnect_step render w (w\<lparr>cl := send_event (EvReconnecting n) (cl w), lock := Stopping\<rparr>)"
| stops: "lock w = Stopping \<Longrightarrow> reconnect_step render w ((stop_tasks noticed w)\<lparr>lock := Handshaking\<rparr>)"
| handshake_failed: "lock w = Handshaking \<Longrightarrow> reconnect_step render w (w\<lparr>lock := Free\<rparr>)"
| handshake_done: "lock w = Handshaking \<Longrightarrow> \<not> shutting_down (cl w) \<Longrightarrow>
     reconnect_step render w (w\<lparr>lock := Swapping\<rparr>)"
| swaps: "lock w = Swapping \<Longrightarrow>
     reconnect_step render w (w\<lparr>cl := swap_writer (cl w), lock := Reviving\<rparr>)"
| revives: "lock w = Reviving \<Longrightarrow>
     reconnect_step render w (w\<lparr>cl := (cl w)\<lparr>alive := True\<rparr>, lock := Unflagging\<rparr>)"
| unflags: "lock w = Unflagging \<Longrightarrow>
     reconnect_step render w (w\<lparr>cl := (cl w)\<lparr>shutting_down := False\<rparr>, lock := Clearing\<rparr>)"
| clears: "lock w = Clearing \<Longrightarrow>
     reconnect_step render w (w\<lparr>cl := on_tracker tracker_clear (cl w), lock := Spawning\<rparr>)"
| spawns: "lock w = Spawning \<Longrightarrow>
     reconnect_step render w
       (w\<lparr>cl := touch now (cl w), lock := Storing, reader_up := True, writer_up := True, beat_up := True\<rparr>)"
| stores: "lock w = Storing \<Longrightarrow>
     reconnect_step render w (w\<lparr>cl := (cl w)\<lparr>tasks := all_spawned\<rparr>, lock := Greeting\<rparr>)"
| greets: "lock w = Greeting \<Longrightarrow> send (connect_msg render ''receiver-0'') (cl w) = (r, c') \<Longrightarrow>
     reconnect_step render w (w\<lparr>cl := c', lock := unless_failed r Rejoining\<rparr>)"
| rejoins: "lock w = Rejoining \<Longrightarrow> rejoin_app render (cl w) = (r, c') \<Longrightarrow>
     reconnect_step render w (w\<lparr>cl := c', lock := unless_failed r Announcing\<rparr>)"
| starves: "lock w \<in> {Rejoining, Announcing} \<Longrightarrow> \<not> rx_held (write_ch (cl w)) \<Longrightarrow>
     chan_parked (write_ch (cl w)) \<noteq> [] \<Longrightarrow> reconnect_step render w (w\<lparr>lock := Free\<rparr>)"
| announces: "lock w = Announcing \<Longrightarrow>
     reconnect_step render w (w\<lparr>cl := watch_connection ConnConnected (cl w), lock := Finishing\<rparr>)"
| finishes: "lock w = Finishing \<Longrightarrow>
     reconnect_step render w (w\<lparr>cl := send_event EvReconnected (cl w), lock := Free\<rparr>)"
| gives_up: "reconnect_step render w (w\<lparr>cl := watch_connection ConnDisconnected (cl w)\<rparr>)"
| laments: "reconnect_step render w
     (w\<lparr>cl := send_event (EvDisconnected (Some ''reconnect failed'')) (cl w)\<rparr>)"

text \<open>While a reconnect has not stored the handles of the tasks it has spawned, a \<open>disconnect\<close> finds
  those of the old connection, which are taken already.\<close>

inductive disconnect_step :: "render \<Rightarrow> world \<Rightarrow> world \<Rightarrow> bool" for render where
  shuts: "bye w = NoDisconnect \<Longrightarrow>
     disconnect_step render w (w\<lparr>cl := (cl w)\<lparr>shutting_down := True\<rparr>, bye := Farewell\<rparr>)"
| kills: "bye w = Farewell \<Longrightarrow>
     disconnect_step render w (w\<lparr>cl := (cl w)\<lparr>alive := False\<rparr>, bye := Killing\<rparr>)"
| ends_tasks: "bye w = Killing \<Longrightarrow> lock w \<noteq> Storing \<Longrightarrow>
     disconnect_step render w ((stop_tasks noticed w)\<lparr>bye := Forgetting\<rparr>)"
| finds_none: "bye w = Killing \<Longrightarrow> lock w = Storing \<Longrightarrow> disconnect_step render w (w\<lparr>bye := Forgetting\<rparr>)"
| forgets: "bye w = Forgetting \<Longrightarrow>
     disconnect_step render w (w\<lparr>cl := on_tracker tracker_clear (cl w), bye := Telling\<rparr>)"
| tells: "bye w = Telling \<Longrightarrow>
     disconnect_step render w (w\<lparr>cl := watch_connection ConnDisconnected (cl w), bye := Parting\<rparr>)"
| parts: "bye w = Parting \<Longrightarrow>
     disconnect_step render w (w\<lparr>cl := send_event (EvDisconnected None) (cl w), bye := Closing\<rparr>)"
| closes: "bye w = Closing \<Longrightarrow>
     disconnect_step render w
       (w\<lparr>cl := drop_event_sender (cl w), bye := NoDisconnect, finished := True\<rparr>)"

definition online_step :: "parser \<Rightarrow> render \<Rightarrow> world \<Rightarrow> world \<Rightarrow> bool" where
  "online_step parse render w w' \<longleftrightarrow>
     task_step parse render w w' \<or> user_step w w' \<or> reconnect_step render w w'"

definition world_step :: "parser \<Rightarrow> render \<Rightarrow> world \<Rightarrow> world \<Rightarrow> bool" where
  "world_step parse render w w' \<longleftrightarrow> online_step parse render w w' \<or> disconnect_step render w w'"

section \<open>What the steps leave alone\<close>

text \<open>The client's own fields are those a task of the connection cannot reach.\<close>

lemma more_ops [simp]:
  "shared.more (send_event e s) = shared.more s" "shared.more (snd (send_write m s)) = shared.more s"
  "shared.more (watch_connection v s) = shared.more s" "shared.more (watch_media mm s) = shared.more s"
  "shared.more (watch_receiver rr s) = shared.more s" "shared.more (store_session i s) = shared.more s"
  "shared.more (on_tracker f s) = shared.more s" "shared.more (touch now s) = shared.more s"
  by (simp_all add: shared_ops touch_def split: prod.split)

lemma more_route [simp]: "shared.more (route parse render msg s) = shared.more s"
  by (cases msg rule: namespace_cases)
    (simp_all add: route_at route_heartbeat_def route_connection_def route_receiver_def route_media_def
      route_other_def handle_media_status_def resolve_correlated_eq Let_def
      split: option.split media_message_type.split)

lemma more_client:
  fixes c c' :: client
  assumes "shared.more c = shared.more c'"
  shows "shutting_down c = shutting_down c'"
  using assms by (cases c; cases c') simp

lemma offer_held [simp]: "tx_held (offer es c) = tx_held c" "rx_held (offer es c) = rx_held c"
  by (induction es arbitrary: c) simp_all

lemma chan_ops_held [simp]:
  "rx_held (snd (chan_send m c)) = rx_held c" "tx_held (snd (chan_send m c)) = tx_held c"
  "rx_held (snd (chan_recv c)) = rx_held c" "tx_held (snd (chan_recv c)) = tx_held c"
  by (simp_all add: chan_send_def chan_recv_def split: list.split)

text \<open>A turn of the reader, the writer or the heartbeat can only take the alive flag and the shown
  connection down, and never the shutdown flag.\<close>

lemma received_vital [simp]:
  "alive (reader_received parse render now msg s) = alive s"
  "rx_held (write_ch (reader_received parse render now msg s)) = rx_held (write_ch s)"
  "connection (holder (reader_received parse render now msg s)) = connection (holder s)"
  "tx_held (event_ch (reader_received parse render now msg s)) = tx_held (event_ch s)"
  by (simp_all add: reader_received_def event_ch_route holder_route_parts)

lemma failed_vital [simp]:
  "\<not> alive (reader_failed e s)" "rx_held (write_ch (reader_failed e s)) = rx_held (write_ch s)"
  "connection (holder (reader_failed e s)) = ConnDisconnected"
  "tx_held (event_ch (reader_failed e s)) = tx_held (event_ch s)"
  "\<not> alive (writer_failed s)" "\<not> rx_held (write_ch (writer_failed s))"
  "connection (holder (writer_failed s)) = ConnDisconnected"
  "tx_held (event_ch (writer_failed s)) = tx_held (event_ch s)"
  by (simp_all add: reader_failed_def writer_failed_def Let_def)

lemma task_shutting_down [simp]:
  fixes c :: client
  shows "shutting_down (reader_received parse render now msg c) = shutting_down c"
    "shutting_down (reader_failed e c) = shutting_down c"
    "shutting_down (writer_failed c) = shutting_down c"
    "shutting_down (reader_cancelled c) = shutting_down c"
proof -
  show "shutting_down (reader_received parse render now msg c) = shutting_down c"
    by (rule more_client) (simp add: reader_received_def)
qed (simp_all add: reader_failed_def writer_failed_def reader_cancelled_def Let_def)

lemma tick_vital:
  fixes c :: client
  assumes "heartbeat_step render limit status wake c = (st, c')"
  shows "rx_held (write_ch c') = rx_held (write_ch c)" "tx_held (event_ch c') = tx_held (event_ch c)"
    "shutting_down c' = shutting_down c"
    "alive c' \<longrightarrow> alive c" "connection (holder c') \<in> {connection (holder c), ConnDisconnected}"
    "alive c' \<and> status \<noteq> Stopped \<and> (\<exists>now. wake \<in> {Tick now, Resumed now}) \<longrightarrow> st \<noteq> Stopped \<or> \<not> rx_held (write_ch c)"
    "request_tracker c' = request_tracker c" "tasks c' = tasks c"
proof -
  have sent: "write_ch s1 = snd (chan_send m (write_ch c)) \<and> event_ch s1 = event_ch c \<and> alive s1 = alive c \<and>
      holder s1 = holder c \<and> request_tracker s1 = request_tracker c \<and> shared.more s1 = shared.more c \<and>
      (r = Refused \<longrightarrow> \<not> rx_held (write_ch c))"
    if "send_write m c = (r, s1)" for m r s1
    using that by (auto simp: send_write_def chan_send_def split: if_splits)
  have more: "shutting_down s1 = shutting_down c \<and> tasks s1 = tasks c" if "shared.more s1 = shared.more c" for s1 :: client
    using that by (cases s1; cases c) simp
  show "rx_held (write_ch c') = rx_held (write_ch c)" "tx_held (event_ch c') = tx_held (event_ch c)"
    "shutting_down c' = shutting_down c"
    "alive c' \<longrightarrow> alive c" "connection (holder c') \<in> {connection (holder c), ConnDisconnected}"
    "alive c' \<and> status \<noteq> Stopped \<and> (\<exists>now. wake \<in> {Tick now, Resumed now}) \<longrightarrow> st \<noteq> Stopped \<or> \<not> rx_held (write_ch c)"
    "request_tracker c' = request_tracker c" "tasks c' = tasks c"
    using assms
    by (cases "(render, limit, status, wake, c)" rule: heartbeat_step.cases;
        auto simp: check_liveness_def declare_dead_def split: prod.splits send_result.splits if_splits
          dest!: sent dest: more)+
qed

text \<open>The phases of a reconnect, and the steps of the user.\<close>

lemma phase_vital [simp]:
  "alive (told_attempt n c) = alive c" "shutting_down (told_attempt n c) = shutting_down c"
  "rx_held (write_ch (told_attempt n c)) = rx_held (write_ch c)" "tasks (told_attempt n c) = tasks c"
  "tx_held (event_ch (told_attempt n c)) = tx_held (event_ch c)"
  "request_tracker (told_attempt n c) = request_tracker c"
  "alive (swap_writer c) = alive c" "shutting_down (swap_writer c) = shutting_down c"
  "rx_held (write_ch (swap_writer c))" "event_ch (swap_writer c) = event_ch c" "holder (swap_writer c) = holder c"
  "request_tracker (swap_writer c) = request_tracker c" "tasks (swap_writer c) = tasks c"
  "alive (revive c)" "\<not> shutting_down (revive c)" "write_ch (revive c) = write_ch c"
  "request_tracker (revive c) = request_tracker c" "tasks (revive c) = tasks c"
  "alive (touch now c) = alive c" "write_ch (touch now c) = write_ch c" "holder (touch now c) = holder c"
  "event_ch (touch now c) = event_ch c" "request_tracker (touch now c) = request_tracker c"
  by (simp_all add: told_attempt_def swap_writer_def revive_def touch_def)

lemma rejoin_app_vital [simp]:
  "alive (snd (rejoin_app render c)) = alive c" "shutting_down (snd (rejoin_app render c)) = shutting_down c"
  "rx_held (write_ch (snd (rejoin_app render c))) = rx_held (write_ch c)"
  "event_ch (snd (rejoin_app render c)) = event_ch c" "holder (snd (rejoin_app render c)) = holder c"
  "request_tracker (snd (rejoin_app render c)) = request_tracker c"
  by (simp_all add: rejoin_app_def split: option.split)

lemma rejoin_app_result:
  assumes "rejoin_app render c = (r, c')"
  shows "alive c' = alive c \<and> shutting_down c' = shutting_down c \<and>
     rx_held (write_ch c') = rx_held (write_ch c) \<and> event_ch c' = event_ch c \<and> holder c' = holder c \<and>
     request_tracker c' = request_tracker c"
  using rejoin_app_vital [of render c] unfolding assms snd_conv by blast

lemma unless_failed_cases: "unless_failed r p \<in> {Free, p}"
  by (simp add: unless_failed_def split: sum.split)

lemma send_eq: "send m c = (if rx_held (write_ch c) then Inr () else Inl ErrDisconnected, snd (send_write m c))"
  by (metis prod.collapse send_fst send_snd)

lemma greet_vital [simp]:
  "alive (greet render c) = alive c" "shutting_down (greet render c) = shutting_down c"
  "rx_held (write_ch (greet render c)) = rx_held (write_ch c)"
  "connection (holder (greet render c)) = ConnConnected"
  by (simp_all add: greet_def)

text \<open>The last phases, one after the other.\<close>

lemma reconnect_online: "reconnect_step render w w' \<Longrightarrow> online_step parse render w w'"
  by (simp add: online_step_def)

lemma reconnects_online:
  "(reconnect_step render)\<^sup>*\<^sup>* w w' \<Longrightarrow> (online_step parse render)\<^sup>*\<^sup>* w w'"
  by (erule rtranclp_mono [THEN predicate2D, rotated]) (auto intro: reconnect_online)

lemma then_reconnect:
  "(reconnect_step render)\<^sup>*\<^sup>* w w1 \<Longrightarrow> reconnect_step render w1 w2 \<Longrightarrow>
     (reconnect_step render)\<^sup>*\<^sup>* w w2"
  by (rule rtranclp.rtrancl_into_rtrancl)

lemma run_greeting:
  assumes "lock w = Greeting" and "rx_held (write_ch (cl w))"
  shows "(reconnect_step render)\<^sup>*\<^sup>* w (w\<lparr>cl := greet render (cl w), lock := Free\<rparr>)"
proof -
  let ?c1 = "snd (send (connect_msg render ''receiver-0'') (cl w))"
  let ?c2 = "snd (rejoin_app render ?c1)"
  let ?c3 = "watch_connection ConnConnected ?c2"
  have ok: "fst (rejoin_app render ?c1) = Inr ()"
    using assms(2) by (simp add: rejoin_app_def split: option.split)
  have "reconnect_step render w (w\<lparr>cl := ?c1, lock := unless_failed (Inr ()) Rejoining\<rparr>)"
    by (rule greets [OF assms(1)]) (simp add: send_eq assms(2))
  then have "(reconnect_step render)\<^sup>*\<^sup>* w (w\<lparr>cl := ?c1, lock := Rejoining\<rparr>)" by (simp add: unless_failed_def)
  then have "(reconnect_step render)\<^sup>*\<^sup>* w (w\<lparr>cl := ?c2, lock := Announcing\<rparr>)"
    by (rule then_reconnect)
      (use rejoins [of "w\<lparr>cl := ?c1, lock := Rejoining\<rparr>" render "Inr ()" ?c2] ok
       in \<open>cases w; simp add: prod_eq_iff unless_failed_def\<close>)
  then have "(reconnect_step render)\<^sup>*\<^sup>* w (w\<lparr>cl := ?c3, lock := Finishing\<rparr>)"
    by (rule then_reconnect) (use announces [of "w\<lparr>cl := ?c2, lock := Announcing\<rparr>" render] in \<open>cases w; simp\<close>)
  then show ?thesis
    unfolding greet_def
    by (rule then_reconnect) (use finishes [of "w\<lparr>cl := ?c3, lock := Finishing\<rparr>" render] in \<open>cases w; simp\<close>)
qed

lemma next_event_vital [simp]:
  "alive (snd (next_event c)) = alive c" "shutting_down (snd (next_event c)) = shutting_down c"
  "write_ch (snd (next_event c)) = write_ch c" "holder (snd (next_event c)) = holder c"
  "tx_held (event_ch (snd (next_event c))) = tx_held (event_ch c)"
  by (simp_all add: next_event_def chan_recv_def split: list.split)

lemma user_vital:
  assumes "user_step w w'"
  shows "lock w' = lock w \<and> bye w' = bye w \<and> reader_up w' = reader_up w \<and>
     writer_up w' = writer_up w \<and> beat_up w' = beat_up w \<and> finished w' = finished w \<and>
     alive (cl w') = alive (cl w) \<and> shutting_down (cl w') = shutting_down (cl w) \<and>
     rx_held (write_ch (cl w')) = rx_held (write_ch (cl w)) \<and>
     tx_held (event_ch (cl w')) = tx_held (event_ch (cl w)) \<and>
     connection (holder (cl w')) = connection (holder (cl w))"
  using assms by cases simp_all

section \<open>An alive client runs\<close>

text \<open>While nobody disconnects, the alive flag tells the truth: outside the phases between the store of
  the flag and the start of the tasks, all three tasks run.\<close>

definition reviving_phases :: "reconnect_phase set" where
  "reviving_phases = {Unflagging, Clearing, Spawning}"

fun lost_phase :: "reconnect_phase \<Rightarrow> bool" where
  "lost_phase Showing \<longleftrightarrow> True" | "lost_phase (Emitting n) \<longleftrightarrow> True" | "lost_phase Stopping \<longleftrightarrow> True"
| "lost_phase Handshaking \<longleftrightarrow> True" | "lost_phase Swapping \<longleftrightarrow> True" | "lost_phase Reviving \<longleftrightarrow> True"
| "lost_phase _ \<longleftrightarrow> False"

definition running_inv :: "world \<Rightarrow> bool" where
  "running_inv w \<longleftrightarrow>
     (alive (cl w) \<longrightarrow> lock w \<in> reviving_phases \<or> reader_up w \<and> writer_up w \<and> beat_up w) \<and>
     (writer_up w \<longrightarrow> rx_held (write_ch (cl w))) \<and>
     (lock w \<in> insert Reviving reviving_phases \<longrightarrow> rx_held (write_ch (cl w))) \<and>
     (lock w \<in> {Handshaking, Swapping, Reviving} \<union> reviving_phases \<longrightarrow>
        \<not> reader_up w \<and> \<not> writer_up w \<and> \<not> beat_up w) \<and>
     (lost_phase (lock w) \<longrightarrow> \<not> alive (cl w))"

lemma stop_tasks_vital [simp]:
  "alive (cl (stop_tasks b w)) = alive (cl w)" "shutting_down (cl (stop_tasks b w)) = shutting_down (cl w)"
  "\<not> reader_up (stop_tasks b w)" "\<not> writer_up (stop_tasks b w)" "\<not> beat_up (stop_tasks b w)"
  "lock (stop_tasks b w) = lock w" "bye (stop_tasks b w) = bye w" "finished (stop_tasks b w) = finished w"
  "connection (holder (cl (stop_tasks b w))) = connection (holder (cl w))"
  "tx_held (event_ch (cl (stop_tasks b w))) = tx_held (event_ch (cl w))"
  by (simp_all add: stop_tasks_def reader_cancelled_def)

lemma running_inv_task:
  assumes "task_step parse render w w'" and "running_inv w"
  shows "running_inv w'"
  using assms
proof cases
  case (ticked now st c')
  then show ?thesis
    using assms(2) tick_vital [OF ticked(3)] by (auto simp: running_inv_def)
next
  case (resumed now st c')
  then show ?thesis
    using assms(2) tick_vital [OF resumed(3)] by (auto simp: running_inv_def)
qed (use assms(2) in \<open>auto simp: running_inv_def\<close>)

text \<open>A phase after the tasks are started that keeps what the invariant looks at.\<close>

lemma running_inv_phase:
  assumes "running_inv w" and "lock w \<notin> reviving_phases"
    and "p \<notin> {Handshaking, Swapping, Reviving} \<union> reviving_phases" and "\<not> lost_phase p"
    and "alive c' = alive (cl w)" and "rx_held (write_ch c') = rx_held (write_ch (cl w))"
  shows "running_inv (w\<lparr>cl := c', lock := p\<rparr>)"
  using assms by (simp add: running_inv_def)

lemma unless_failed_quiet:
  assumes "p \<in> {Rejoining, Announcing}"
  shows "unless_failed r p \<notin> {Handshaking, Swapping, Reviving} \<union> reviving_phases" "\<not> lost_phase (unless_failed r p)"
  using unless_failed_cases [of r p] assms by (auto simp: reviving_phases_def)

lemma running_inv_reconnect:
  assumes "reconnect_step render w w'" and "running_inv w"
  shows "running_inv w'"
  using assms
proof cases
  case (greets r c')
  then show ?thesis
    using running_inv_phase [OF assms(2) _ unless_failed_quiet [of Rejoining r]]
    by (auto simp: send_eq reviving_phases_def)
next
  case (rejoins r c')
  then show ?thesis
    using running_inv_phase [OF assms(2) _ unless_failed_quiet [of Announcing r]]
      rejoin_app_result [OF rejoins(3)] by (simp add: reviving_phases_def)
qed (use assms(2) in \<open>auto simp: running_inv_def reviving_phases_def\<close>)

lemma running_inv_user: "user_step w w' \<Longrightarrow> running_inv w \<Longrightarrow> running_inv w'"
  by (drule user_vital) (simp add: running_inv_def)

lemma running_inv_online: "online_step parse render w w' \<Longrightarrow> running_inv w \<Longrightarrow> running_inv w'"
  unfolding online_step_def
  by (elim disjE) (auto intro: running_inv_task running_inv_user running_inv_reconnect)

lemma running_inv_reachable:
  "(online_step parse render)\<^sup>*\<^sup>* w w' \<Longrightarrow> running_inv w \<Longrightarrow> running_inv w'"
  by (induction rule: rtranclp_induct) (auto intro: running_inv_online)

section \<open>A reconnect on its own\<close>

lemma respawned_vital [simp]:
  "alive (respawned n now c)" "\<not> shutting_down (respawned n now c)" "rx_held (write_ch (respawned n now c))"
  by (simp_all add: respawned_def)

text \<open>Undisturbed, the phases lead from a lost client to the last ones.\<close>

lemma run_to_showing:
  assumes "lock w = Free" and "\<not> shutting_down (cl w)" and "\<not> alive (cl w)"
  shows "(reconnect_step render)\<^sup>*\<^sup>* w (w\<lparr>lock := Showing\<rparr>)"
proof -
  have "(reconnect_step render)\<^sup>*\<^sup>* w (w\<lparr>lock := Looked\<rparr>)" by (rule r_into_rtranclp) (rule looks, fact+)
  then show ?thesis
    by (rule then_reconnect) (use lost [of "w\<lparr>lock := Looked\<rparr>" render] assms in \<open>cases w; simp\<close>)
qed

lemma run_to_stopping:
  assumes "lock w = Showing"
  shows "(reconnect_step render)\<^sup>*\<^sup>* w (w\<lparr>cl := told_attempt n (cl w), lock := Stopping\<rparr>)"
proof -
  let ?c = "watch_connection (ConnReconnecting n) (cl w)"
  have "(reconnect_step render)\<^sup>*\<^sup>* w (w\<lparr>cl := ?c, lock := Emitting n\<rparr>)"
    by (rule r_into_rtranclp) (rule shows_attempt, fact)
  then show ?thesis
    unfolding told_attempt_def
    by (rule then_reconnect) (use emits [of "w\<lparr>cl := ?c, lock := Emitting n\<rparr>" n render] in \<open>cases w; simp\<close>)
qed

lemma run_to_clearing:
  assumes "lock w = Free" and "\<not> shutting_down (cl w)" and "\<not> alive (cl w)"
  shows "(reconnect_step render)\<^sup>*\<^sup>* w
     (w\<lparr>cl := revive (swap_writer (shutdown_tasks (told_attempt n (cl w)))), lock := Clearing,
        reader_up := False, writer_up := False, beat_up := False\<rparr>)"
proof -
  let ?c1 = "told_attempt n (cl w)"
  let ?c2 = "shutdown_tasks ?c1"
  let ?c3 = "swap_writer ?c2"
  let ?down = "w\<lparr>reader_up := False, writer_up := False, beat_up := False\<rparr>"
  have "(reconnect_step render)\<^sup>*\<^sup>* w (w\<lparr>cl := ?c1, lock := Stopping\<rparr>)"
    using rtranclp_trans [OF run_to_showing [OF assms, of render] run_to_stopping [of _ render n]] by simp
  then have "(reconnect_step render)\<^sup>*\<^sup>* w (?down\<lparr>cl := ?c2, lock := Handshaking\<rparr>)"
    by (rule then_reconnect) (use stops [of "w\<lparr>cl := ?c1, lock := Stopping\<rparr>" render False] in \<open>cases w; simp add: stop_tasks_def\<close>)
  then have "(reconnect_step render)\<^sup>*\<^sup>* w (?down\<lparr>cl := ?c2, lock := Swapping\<rparr>)"
    by (rule then_reconnect) (use handshake_done [of "?down\<lparr>cl := ?c2, lock := Handshaking\<rparr>" render] assms(2) in \<open>cases w; simp\<close>)
  then have "(reconnect_step render)\<^sup>*\<^sup>* w (?down\<lparr>cl := ?c3, lock := Reviving\<rparr>)"
    by (rule then_reconnect) (use swaps [of "?down\<lparr>cl := ?c2, lock := Swapping\<rparr>" render] in \<open>cases w; simp\<close>)
  then have "(reconnect_step render)\<^sup>*\<^sup>* w (?down\<lparr>cl := ?c3\<lparr>alive := True\<rparr>, lock := Unflagging\<rparr>)"
    by (rule then_reconnect) (use revives [of "?down\<lparr>cl := ?c3, lock := Reviving\<rparr>" render] in \<open>cases w; simp\<close>)
  then show ?thesis
    unfolding revive_def
    by (rule then_reconnect)
      (use unflags [of "?down\<lparr>cl := ?c3\<lparr>alive := True\<rparr>, lock := Unflagging\<rparr>" render] in \<open>cases w; simp\<close>)
qed

lemma run_to_greeting:
  assumes "lock w = Free" and "\<not> shutting_down (cl w)" and "\<not> alive (cl w)"
  shows "(reconnect_step render)\<^sup>*\<^sup>* w
     (w\<lparr>cl := respawned n now (cl w), lock := Greeting, reader_up := True, writer_up := True,
        beat_up := True\<rparr>)"
proof -
  let ?c4 = "revive (swap_writer (shutdown_tasks (told_attempt n (cl w))))"
  let ?c5 = "on_tracker tracker_clear ?c4"
  let ?down = "w\<lparr>reader_up := False, writer_up := False, beat_up := False\<rparr>"
  let ?up = "w\<lparr>reader_up := True, writer_up := True, beat_up := True\<rparr>"
  have "(reconnect_step render)\<^sup>*\<^sup>* w (?down\<lparr>cl := ?c4, lock := Clearing\<rparr>)"
    using run_to_clearing [OF assms, of render n] by (cases w) simp
  then have "(reconnect_step render)\<^sup>*\<^sup>* w (?down\<lparr>cl := ?c5, lock := Spawning\<rparr>)"
    by (rule then_reconnect) (use clears [of "?down\<lparr>cl := ?c4, lock := Clearing\<rparr>" render] in \<open>cases w; simp\<close>)
  then have "(reconnect_step render)\<^sup>*\<^sup>* w (?up\<lparr>cl := touch now ?c5, lock := Storing\<rparr>)"
    by (rule then_reconnect) (use spawns [of "?down\<lparr>cl := ?c5, lock := Spawning\<rparr>" render now] in \<open>cases w; simp\<close>)
  then show ?thesis
    unfolding respawned_def
    by (rule then_reconnect)
      (use stores [of "?up\<lparr>cl := touch now ?c5, lock := Storing\<rparr>" render] in \<open>cases w; simp\<close>)
qed

text \<open>Hence to the state \<open>reconnect_with_attempt\<close> leaves.\<close>

lemma reconnect_run:
  assumes "lock w = Free" and "\<not> shutting_down (cl w)" and "\<not> alive (cl w)"
  shows "(reconnect_step render)\<^sup>*\<^sup>* w
     (w\<lparr>cl := snd (reconnect_with_attempt render n (Inr ()) (\<lambda>_. id) now (cl w)), lock := Free,
        reader_up := True, writer_up := True, beat_up := True\<rparr>)"
proof -
  let ?g = "w\<lparr>cl := respawned n now (cl w), lock := Greeting, reader_up := True, writer_up := True,
      beat_up := True\<rparr>"
  have "(reconnect_step render)\<^sup>*\<^sup>* ?g (?g\<lparr>cl := greet render (cl ?g), lock := Free\<rparr>)"
    by (rule run_greeting) simp_all
  then show ?thesis
    using rtranclp_trans [OF run_to_greeting [OF assms, of render n now]] reconnect_phases [OF assms(2,3)]
    by (cases w) simp
qed

inductive_cases reconnect_stepE: "reconnect_step render w w'"
inductive_cases task_stepE: "task_step parse render w w'"
inductive_cases disconnect_stepE: "disconnect_step render w w'"

section \<open>After a disconnect\<close>

text \<open>The phases of a reconnect that is not past its second look at the shutdown flag, and among them those
  in which it has not told its watchers yet.\<close>

fun early_phase :: "reconnect_phase \<Rightarrow> bool" where
  "early_phase Free \<longleftrightarrow> True" | "early_phase Looked \<longleftrightarrow> True" | "early_phase Showing \<longleftrightarrow> True"
| "early_phase (Emitting n) \<longleftrightarrow> True" | "early_phase Stopping \<longleftrightarrow> True" | "early_phase Handshaking \<longleftrightarrow> True"
| "early_phase _ \<longleftrightarrow> False"

definition unshown_phase :: "reconnect_phase \<Rightarrow> bool" where
  "unshown_phase p \<longleftrightarrow> p = Looked \<or> p = Showing"

lemma unshown_phase_simps [simp]:
  "unshown_phase Looked" "unshown_phase Showing" "\<not> unshown_phase Free" "\<not> unshown_phase (Emitting n)"
  "\<not> unshown_phase Stopping" "\<not> unshown_phase Handshaking"
  by (simp_all add: unshown_phase_def)

text \<open>What holds from the store of the shutdown flag on in such a phase; \<open>shown\<close> is whether the reconnect
  had told its watchers then.\<close>

definition leaving_inv :: "bool \<Rightarrow> world \<Rightarrow> bool" where
  "leaving_inv shown w \<longleftrightarrow>
     shutting_down (cl w) \<and> early_phase (lock w) \<and> (shown \<longrightarrow> \<not> unshown_phase (lock w)) \<and>
     (bye w \<in> {Killing, Forgetting, Telling, Parting, Closing} \<or> finished w \<longrightarrow> \<not> alive (cl w)) \<and>
     (bye w \<in> {Forgetting, Telling, Parting, Closing} \<or> finished w \<longrightarrow>
        \<not> reader_up w \<and> \<not> writer_up w \<and> \<not> beat_up w) \<and>
     (bye w \<in> {Parting, Closing} \<or> finished w \<longrightarrow> shown \<longrightarrow> connection (holder (cl w)) = ConnDisconnected) \<and>
     (finished w \<longrightarrow> \<not> tx_held (event_ch (cl w)))"

lemma leaving_inv_task:
  assumes "task_step parse render w w'" and "leaving_inv shown w"
  shows "leaving_inv shown w'"
  using assms
proof cases
  case (ticked now st c')
  then show ?thesis
    using assms(2) tick_vital [OF ticked(3)] by (auto simp: leaving_inv_def)
next
  case (resumed now st c')
  then show ?thesis
    using assms(2) tick_vital [OF resumed(3)] by (auto simp: leaving_inv_def)
qed (use assms(2) in \<open>auto simp: leaving_inv_def\<close>)

lemma leaving_inv_user: "user_step w w' \<Longrightarrow> leaving_inv shown w \<Longrightarrow> leaving_inv shown w'"
  by (drule user_vital) (simp add: leaving_inv_def)

lemma leaving_inv_reconnect:
  assumes "reconnect_step render w w'" and "leaving_inv shown w"
  shows "leaving_inv shown w'"
  using assms by cases (auto simp: leaving_inv_def)

lemma leaving_inv_disconnect:
  assumes "disconnect_step render w w'" and "leaving_inv shown w"
  shows "leaving_inv shown w'"
  using assms by cases (auto simp: leaving_inv_def)

lemma leaving_inv_reachable:
  "(world_step parse render)\<^sup>*\<^sup>* w w' \<Longrightarrow> leaving_inv shown w \<Longrightarrow> leaving_inv shown w'"
proof (induction rule: rtranclp_induct)
  case (step y z)
  then show ?case
    unfolding world_step_def online_step_def
    by (elim disjE) (auto intro: leaving_inv_task leaving_inv_user leaving_inv_reconnect leaving_inv_disconnect)
qed

section \<open>The tracker under every interleaving\<close>

lemma failed_tracker [simp]:
  "request_tracker (reader_failed e s) = tracker_clear (request_tracker s)"
  "request_tracker (reader_cancelled s) = tracker_clear (request_tracker s)"
  "request_tracker (writer_failed s) = request_tracker s"
  by (simp_all add: reader_failed_def reader_cancelled_def writer_failed_def Let_def)

lemma stop_tasks_tracker:
  "request_tracker (cl (stop_tasks noticed w)) =
     (if noticed \<and> reader_up w then tracker_clear (request_tracker (cl w)) else request_tracker (cl w))"
  by (simp add: stop_tasks_def)

lemma tracker_inv_task:
  assumes "task_step parse render w w'" and "tracker_inv (request_tracker (cl w))"
  shows "tracker_inv (request_tracker (cl w'))"
  using assms
proof cases
  case (ticked now st c')
  then show ?thesis using assms(2) tick_vital(7) [OF ticked(3)] by simp
next
  case (resumed now st c')
  then show ?thesis using assms(2) tick_vital(7) [OF resumed(3)] by simp
qed (use assms(2) in \<open>auto simp: reader_received_def tracker_inv_route tracker_inv_clear\<close>)

lemma tracker_inv_user:
  assumes "user_step w w'" and "tracker_inv (request_tracker (cl w))"
  shows "tracker_inv (request_tracker (cl w'))"
  using assms
  by cases (auto simp: tracker_inv_register tracker_inv_wait_for next_event_def split: prod.split)

lemma tracker_inv_world:
  assumes "world_step parse render w w'" and "tracker_inv (request_tracker (cl w))"
  shows "tracker_inv (request_tracker (cl w'))"
proof -
  have "tracker_inv (request_tracker (cl w'))" if "reconnect_step render w w'"
    using that assms(2)
  proof cases
    case (rejoins r c')
    then show ?thesis using assms(2) rejoin_app_result [OF rejoins(3)] by simp
  qed (auto simp: stop_tasks_tracker tracker_inv_clear send_eq)
  moreover have "tracker_inv (request_tracker (cl w'))" if "disconnect_step render w w'"
    using that assms(2) by (elim disconnect_stepE) (auto simp: stop_tasks_tracker tracker_inv_clear)
  ultimately show ?thesis
    using assms tracker_inv_task tracker_inv_user unfolding world_step_def online_step_def by blast
qed

lemma tracker_inv_reachable:
  "(world_step parse render)\<^sup>*\<^sup>* w w' \<Longrightarrow> tracker_inv (request_tracker (cl w)) \<Longrightarrow>
     tracker_inv (request_tracker (cl w'))"
  by (induction rule: rtranclp_induct) (auto intro: tracker_inv_world)

section \<open>Correctness\<close>

text \<open>C12. No waiting request is orphaned. In every state the tasks, the user, reconnects and disconnects
  can bring about, the pending map is well formed: no entry has identifier 0, and each oneshot channel
  that is still without a value has its sender in exactly one entry, so an answer, a timeout or a clear
  can still reach it.\<close>

theorem requests_stay_wellformed:
  assumes "tracker_inv (request_tracker c)" and "(world_step parse render)\<^sup>*\<^sup>* (connected_world c) w"
    and "senders (request_tracker (cl w)) rx = Some Held"
  shows "tracker_inv (request_tracker (cl w)) \<and>
     (\<exists>!i. pending (request_tracker (cl w)) i = Some rx) \<and> pending (request_tracker (cl w)) 0 = None"
proof -
  have inv: "tracker_inv (request_tracker (cl w))"
    by (rule tracker_inv_reachable [OF assms(2)]) (simp add: connected_world_def assms(1))
  with assms(3) show ?thesis by (auto simp: tracker_inv_def pending_inv_def)
qed

theorem requests_stay_wellformed_witness:
  "\<exists>!i. pending (request_tracker (cl ((connected_world sample_client)\<lparr>cl := queued (\<lambda>_. build_message [] [] [] []) sample_client\<rparr>))) i = Some 0"
proof -
  let ?w = "(connected_world sample_client)\<lparr>cl := queued (\<lambda>_. build_message [] [] [] []) sample_client\<rparr>"
  have "user_step (connected_world sample_client) ?w"
    using requested [of "connected_world sample_client" "\<lambda>_. build_message [] [] [] []"] by (simp add: connected_world_def)
  then have run: "(world_step (\<lambda>_. None) (\<lambda>_. []))\<^sup>*\<^sup>* (connected_world sample_client) ?w"
    by (simp add: world_step_def online_step_def r_into_rtranclp)
  have held: "senders (request_tracker (cl ?w)) 0 = Some Held" by (simp add: register_eq)
  have inv: "tracker_inv (request_tracker sample_client)" by (simp add: tracker_inv_new)
  from requests_stay_wellformed [OF inv run held] show ?thesis by blast
qed

text \<open>A connected client runs. While nobody disconnects, in every state the tasks, the user and any
  number of reconnects can bring about, a client that says \<open>is_connected()\<close> while no reconnect is under
  way has its reader, its writer and its heartbeat running, and what it sends is accepted.\<close>

theorem alive_client_runs:
  assumes "rx_held (write_ch c)" and "(online_step parse render)\<^sup>*\<^sup>* (connected_world c) w"
    and "lock w = Free" and "is_connected (cl w)"
  shows "reader_up w \<and> writer_up w \<and> beat_up w \<and> rx_held (write_ch (cl w))"
proof -
  have "running_inv (connected_world c)"
    using assms(1) by (simp add: running_inv_def reviving_phases_def connected_world_def)
  then have "running_inv w" by (rule running_inv_reachable [OF assms(2)])
  with assms(3,4) show ?thesis by (auto simp: running_inv_def reviving_phases_def is_connected_def)
qed

text \<open>A client whose device hung up.\<close>

definition hung_up :: "client \<Rightarrow> world" where
  "hung_up c = (connected_world c)\<lparr>cl := reader_failed ErrDisconnected c, reader_up := False\<rparr>"

lemma hung_up_reached: "(online_step parse render)\<^sup>*\<^sup>* (connected_world c) (hung_up c)"
proof -
  have "task_step parse render (connected_world c) (hung_up c)"
    using read_failed [of "connected_world c" parse render ErrDisconnected]
    by (simp add: hung_up_def connected_world_def)
  then show ?thesis by (simp add: online_step_def r_into_rtranclp)
qed


lemma hung_up_simps [simp]:
  "lock (hung_up c) = Free" "\<not> alive (cl (hung_up c))"
  "shutting_down (cl (hung_up c)) = shutting_down c"
  by (simp_all add: hung_up_def connected_world_def)

theorem alive_client_runs_witness:
  "\<exists>w. (online_step (\<lambda>_. None) (\<lambda>_. []))\<^sup>*\<^sup>* (hung_up sample_client) w \<and> is_connected (cl w) \<and>
     reader_up w \<and> writer_up w \<and> beat_up w"
proof -
  let ?w = "hung_up sample_client"
  let ?r = "snd (reconnect_with_attempt (\<lambda>_. []) 1 (Inr ()) (\<lambda>_. id) 7 (cl ?w))"
  let ?w' = "?w\<lparr>cl := ?r, lock := Free, reader_up := True, writer_up := True, beat_up := True\<rparr>"
  have down: "\<not> shutting_down (cl ?w)" by (simp add: sample_client_def)
  then have r: "?r = greet (\<lambda>_. []) (respawned 1 7 (cl ?w))"
    by (intro reconnect_phases) simp_all
  have run: "(online_step (\<lambda>_. None) (\<lambda>_. []))\<^sup>*\<^sup>* ?w ?w'"
    using reconnects_online [OF reconnect_run [of ?w "\<lambda>_. []" 1 7]] down by simp
  have "is_connected (cl ?w')" by (simp add: is_connected_def r)
  then show ?thesis
    using alive_client_runs [of sample_client "\<lambda>_. None" "\<lambda>_. []" ?w']
      rtranclp_trans [OF hung_up_reached run] run by auto
qed

text \<open>C14. \<open>disconnect\<close> is final while it runs beside the tasks, the user and reconnects. Let the
  shutdown flag be stored while no reconnect is past its second look at it. Then, in whatever order
  turns of the tasks, operations of the user, phases of reconnects and further disconnects (one at a time)
  go on, once a \<open>disconnect\<close> has returned the client is and stays dead: not connected, no task running,
  the event stream ended. Its watchers stay at \<open>Disconnected\<close>, unless a reconnect had looked at the flag for
  the first time before it was stored and had not told them of its attempt yet.\<close>

theorem disconnect_stays_final:
  assumes "bye w = NoDisconnect" and "\<not> finished w" and "early_phase (lock w)"
    and "(world_step parse render)\<^sup>*\<^sup>* (w\<lparr>cl := (cl w)\<lparr>shutting_down := True\<rparr>, bye := Farewell\<rparr>) w'"
    and "finished w'"
  shows "\<not> is_connected (cl w') \<and> shutting_down (cl w') \<and>
     \<not> reader_up w' \<and> \<not> writer_up w' \<and> \<not> beat_up w' \<and> \<not> tx_held (event_ch (cl w')) \<and>
     (lock w \<notin> {Looked, Showing} \<longrightarrow> connection (holder (cl w')) = ConnDisconnected)"
proof -
  have "leaving_inv (lock w \<notin> {Looked, Showing}) (w\<lparr>cl := (cl w)\<lparr>shutting_down := True\<rparr>, bye := Farewell\<rparr>)"
    using assms(1-3) by (auto simp: leaving_inv_def unshown_phase_def)
  then have "leaving_inv (lock w \<notin> {Looked, Showing}) w'" by (rule leaving_inv_reachable [OF assms(4)])
  with assms(5) show ?thesis by (simp add: leaving_inv_def is_connected_def)
qed

lemma then_disconnect:
  "(world_step parse render)\<^sup>*\<^sup>* w w1 \<Longrightarrow> disconnect_step render w1 w2 \<Longrightarrow>
     (world_step parse render)\<^sup>*\<^sup>* w w2"
  by (erule rtranclp.rtrancl_into_rtrancl) (simp add: world_step_def)

text \<open>A \<open>disconnect\<close> on its own.\<close>

definition disconnected :: "client \<Rightarrow> client" where
  "disconnected c =
     drop_event_sender (send_event (EvDisconnected None) (watch_connection ConnDisconnected
       (on_tracker tracker_clear (shutdown_tasks (c\<lparr>alive := False\<rparr>)))))"

lemma disconnect_run:
  assumes "bye w = Farewell" and "lock w \<noteq> Storing"
  shows "(world_step parse render)\<^sup>*\<^sup>* w
     (w\<lparr>cl := disconnected (cl w), bye := NoDisconnect, reader_up := False, writer_up := False,
        beat_up := False, finished := True\<rparr>)"
proof -
  let ?c1 = "(cl w)\<lparr>alive := False\<rparr>"
  let ?c3 = "on_tracker tracker_clear (shutdown_tasks ?c1)"
  let ?c4 = "watch_connection ConnDisconnected ?c3"
  let ?c5 = "send_event (EvDisconnected None) ?c4"
  let ?w1 = "w\<lparr>cl := ?c1, bye := Killing\<rparr>"
  let ?down = "w\<lparr>reader_up := False, writer_up := False, beat_up := False\<rparr>"
  have "(world_step parse render)\<^sup>*\<^sup>* w ?w1"
    by (rule then_disconnect [OF rtranclp.rtrancl_refl]) (rule kills, fact)
  then have "(world_step parse render)\<^sup>*\<^sup>* w (?down\<lparr>cl := shutdown_tasks ?c1, bye := Forgetting\<rparr>)"
    by (rule then_disconnect) (use ends_tasks [of ?w1 render False] assms(2) in \<open>cases w; simp add: stop_tasks_def\<close>)
  then have "(world_step parse render)\<^sup>*\<^sup>* w (?down\<lparr>cl := ?c3, bye := Telling\<rparr>)"
    by (rule then_disconnect) (use forgets [of "?down\<lparr>cl := shutdown_tasks ?c1, bye := Forgetting\<rparr>" render] in \<open>cases w; simp\<close>)
  then have "(world_step parse render)\<^sup>*\<^sup>* w (?down\<lparr>cl := ?c4, bye := Parting\<rparr>)"
    by (rule then_disconnect) (use tells [of "?down\<lparr>cl := ?c3, bye := Telling\<rparr>" render] in \<open>cases w; simp\<close>)
  then have "(world_step parse render)\<^sup>*\<^sup>* w (?down\<lparr>cl := ?c5, bye := Closing\<rparr>)"
    by (rule then_disconnect) (use parts [of "?down\<lparr>cl := ?c4, bye := Parting\<rparr>" render] in \<open>cases w; simp\<close>)
  then show ?thesis
    unfolding disconnected_def
    by (rule then_disconnect) (use closes [of "?down\<lparr>cl := ?c5, bye := Closing\<rparr>" render] in \<open>cases w; simp\<close>)
qed

lemma disconnected_vital [simp]:
  "\<not> alive (disconnected c)" "shutting_down (disconnected c) = shutting_down c" "\<not> tx_held (event_ch (disconnected c))"
  by (simp_all add: disconnected_def)

lemma disconnect_begins:
  assumes "bye w = NoDisconnect"
  shows "(world_step parse render)\<^sup>*\<^sup>* w (w\<lparr>cl := (cl w)\<lparr>shutting_down := True\<rparr>, bye := Farewell\<rparr>)"
  by (rule then_disconnect [OF rtranclp.rtrancl_refl]) (rule shuts, rule assms)

theorem disconnect_stays_final_witness:
  "\<exists>w'. (world_step (\<lambda>_. None) (\<lambda>_. []))\<^sup>*\<^sup>* (connected_world sample_client) w' \<and> finished w' \<and>
     \<not> is_connected (cl w') \<and> \<not> writer_up w' \<and> connection (holder (cl w')) = ConnDisconnected"
proof -
  let ?w = "connected_world sample_client"
  let ?w1 = "?w\<lparr>cl := (cl ?w)\<lparr>shutting_down := True\<rparr>, bye := Farewell\<rparr>"
  let ?w2 = "?w1\<lparr>cl := disconnected (cl ?w1), bye := NoDisconnect, reader_up := False, writer_up := False,
      beat_up := False, finished := True\<rparr>"
  have start: "bye ?w = NoDisconnect" "\<not> finished ?w" "early_phase (lock ?w)"
    by (simp_all add: connected_world_def)
  have run: "(world_step (\<lambda>_. None) (\<lambda>_. []))\<^sup>*\<^sup>* ?w1 ?w2"
    by (rule disconnect_run) (simp_all add: connected_world_def)
  have "(world_step (\<lambda>_. None) (\<lambda>_. []))\<^sup>*\<^sup>* ?w ?w2"
    using rtranclp_trans [OF disconnect_begins [OF start(1)] run] .
  moreover have "lock ?w \<notin> {Looked, Showing}" "finished ?w2" by (simp_all add: connected_world_def)
  ultimately show ?thesis using disconnect_stays_final [OF start run] by blast
qed



text \<open>C38. A connection lost while a reconnect finishes is shown as connected. If the device hangs up
  again after the new tasks have started and before the reconnect announces its success, the
  announcement overwrites \<open>Disconnected\<close>: the client is not connected, but its watchers see
  \<open>Connected\<close>, and the automatic reconnect does not act on it.\<close>

theorem stale_connected_reachable:
  assumes "\<not> shutting_down c"
  shows "\<exists>w. (online_step parse render)\<^sup>*\<^sup>* (connected_world c) w \<and> lock w = Free \<and>
     \<not> is_connected (cl w) \<and> connection (holder (cl w)) = ConnConnected \<and>
     auto_reconnect_wake render envs (cl w) = (True, cl w)"
proof -
  let ?g = "(hung_up c)\<lparr>cl := respawned 1 0 (cl (hung_up c)), lock := Greeting, reader_up := True,
      writer_up := True, beat_up := True\<rparr>"
  let ?l = "?g\<lparr>cl := reader_failed ErrDisconnected (cl ?g), reader_up := False\<rparr>"
  let ?w = "?l\<lparr>cl := greet render (cl ?l), lock := Free\<rparr>"
  have "(online_step parse render)\<^sup>*\<^sup>* (connected_world c) ?g"
    using rtranclp_trans [OF hung_up_reached reconnects_online [OF run_to_greeting [of "hung_up c"]]] assms by simp
  moreover have "online_step parse render ?g ?l"
    unfolding online_step_def by (rule disjI1, rule read_failed) simp
  moreover have "(online_step parse render)\<^sup>*\<^sup>* ?l ?w"
    by (rule reconnects_online, rule run_greeting) simp_all
  ultimately have "(online_step parse render)\<^sup>*\<^sup>* (connected_world c) ?w"
    by (meson rtranclp.rtrancl_into_rtrancl rtranclp_trans)
  moreover have "connection (holder (cl ?w)) = ConnConnected"
    by simp
  ultimately show ?thesis
    using assms by (intro exI [of _ ?w]) (simp add: is_connected_def auto_reconnect_wake_def)
qed

theorem stale_connected_reachable_witness:
  "\<exists>w. (online_step (\<lambda>_. None) (\<lambda>_. []))\<^sup>*\<^sup>* (connected_world sample_client) w \<and>
     \<not> is_connected (cl w) \<and> connection (holder (cl w)) = ConnConnected"
proof -
  have "\<not> shutting_down sample_client" by (simp add: sample_client_def)
  from stale_connected_reachable [OF this, of "\<lambda>_. None" "\<lambda>_. []" "[]"] show ?thesis by blast
qed

end
