(* ===== verification/Addr.thy ===== *)
theory Addr
  imports Types
begin

text \<open>
  How the standard library prints an IP address (\<open>IpAddr::to_string\<close>), which \<open>serve.rs\<close> and
  \<open>DeviceInfo::connect\<close> of \<open>types.rs\<close> rely on, and how it reads one (\<open>host.parse::<IpAddr>()\<close>), which
  \<open>client/connection.rs\<close> falls back to.
\<close>

definition ipv4_text :: "u32 \<Rightarrow> string" where
  "ipv4_text a =
     decimal (unat a div 16777216 mod 256) @ ''.'' @ decimal (unat a div 65536 mod 256) @ ''.'' @
     decimal (unat a div 256 mod 256) @ ''.'' @ decimal (unat a mod 256)"

definition ipv6_segments :: "128 word \<Rightarrow> nat list" where
  "ipv6_segments a = map (\<lambda>k. unat a div 2 ^ k mod 65536) [112, 96, 80, 64, 48, 32, 16, 0]"

text \<open>The first longest run of zeros, as its start and its length.\<close>

fun zero_span :: "nat \<Rightarrow> nat \<times> nat \<Rightarrow> nat \<times> nat \<Rightarrow> nat list \<Rightarrow> nat \<times> nat" where
  "zero_span i cur longest [] = longest"
| "zero_span i (start, len) longest (seg # segs) =
     (if seg = 0 then
        (let cur = (if len = 0 then i else start, Suc len)
         in zero_span (Suc i) cur (if snd cur > snd longest then cur else longest) segs)
      else zero_span (Suc i) (0, 0) longest segs)"

fun join_segments :: "nat list \<Rightarrow> string" where
  "join_segments [] = []"
| "join_segments [s] = hex s"
| "join_segments (s # t # ss) = hex s @ '':'' @ join_segments (t # ss)"

definition ipv6_text :: "128 word \<Rightarrow> string" where
  "ipv6_text a =
     (let segs = ipv6_segments a
      in if take 6 segs = [0, 0, 0, 0, 0, 65535] then
           ''::ffff:'' @ ipv4_text (of_nat (unat a mod 2 ^ 32))
         else case zero_span 0 (0, 0) (0, 0) segs of (start, len) \<Rightarrow>
           if 1 < len then join_segments (take start segs) @ ''::'' @ join_segments (drop (start + len) segs)
           else join_segments segs)"

definition ip_text :: "ip_addr \<Rightarrow> string" where
  "ip_text a = (case a of V4 w \<Rightarrow> ipv4_text w | V6 w \<Rightarrow> ipv6_text w)"

text \<open>Different IPv4 addresses print differently.\<close>

lemma digit_not_dot: "d < 10 \<Longrightarrow> digit d \<noteq> CHR ''.''"
  using is_digit_digit [of d] by (auto simp: is_digit_def)

lemma dot_not_in_decimal [simp]: "CHR ''.'' \<notin> set (decimal n)"
proof
  assume "CHR ''.'' \<in> set (decimal n)"
  with decimal_digits [of n] have "is_digit (CHR ''.'')" by (auto simp: list_all_iff)
  then show False by (simp add: is_digit_def)
qed

lemma decimal_inject [simp]: "decimal m = decimal n \<longleftrightarrow> m = n"
proof
  assume "decimal m = decimal n"
  then have "radix_val 10 (radix 10 m) = radix_val 10 (radix 10 n)" by (simp add: decimal_def)
  then show "m = n" by (simp add: radix_val_radix)
qed simp

lemma takeWhile_sep: "c \<notin> set xs \<Longrightarrow> takeWhile (\<lambda>x. x \<noteq> c) (xs @ c # us) = xs"
  by (induction xs) auto

lemma append_sep_inject:
  assumes "c \<notin> set xs" and "c \<notin> set ys"
  shows "xs @ c # us = ys @ c # vs \<longleftrightarrow> xs = ys \<and> us = vs"
proof
  assume eq: "xs @ c # us = ys @ c # vs"
  then have "xs = ys"
    using takeWhile_sep [OF assms(1), of us] takeWhile_sep [OF assms(2), of vs] by simp
  with eq show "xs = ys \<and> us = vs" by simp
qed simp

lemma ipv4_text_inject [simp]: "ipv4_text a = ipv4_text b \<longleftrightarrow> a = b"
proof
  assume "ipv4_text a = ipv4_text b"
  then have parts: "unat a div 16777216 mod 256 = unat b div 16777216 mod 256"
    "unat a div 65536 mod 256 = unat b div 65536 mod 256"
    "unat a div 256 mod 256 = unat b div 256 mod 256" "unat a mod 256 = unat b mod 256"
    by (simp_all add: ipv4_text_def append_sep_inject)
  have bound: "unat w < 4294967296" for w :: u32
    using unsigned_less [of w] by simp
  have "unat w mod 4294967296 = unat w" for w :: u32
    by (rule mod_less) (rule bound)
  then have "unat a = unat b"
    using base256_digits [of "unat a"] base256_digits [of "unat b"] parts by metis
  then show "a = b" by (rule unsigned_word_eqI)
qed simp

lemma printed_addresses:
  "ipv4_text 0xC0A80105 = decimal 192 @ ''.'' @ decimal 168 @ ''.'' @ decimal 1 @ ''.'' @ decimal 5"
  "ipv6_text 1 = ''::'' @ hex 1" "ipv6_text 0 = ''::''"
  "ipv6_text 0xFE80000000000000000000000000ABCD = hex 0xFE80 @ ''::'' @ hex 0xABCD"
  by (simp_all add: ipv4_text_def ipv6_text_def ipv6_segments_def Let_def)

section \<open>Reading an address\<close>

text \<open>\<open>char::to_digit\<close>.\<close>

definition to_digit :: "nat \<Rightarrow> char \<Rightarrow> nat option" where
  "to_digit b c =
     (let n = of_char c;
          d = (if 48 \<le> n \<and> n \<le> 57 then n - 48
               else if 97 \<le> n \<and> n \<le> 122 then n - 87
               else if 65 \<le> n \<and> n \<le> 90 then n - 55 else b)
      in if d < b then Some d else None)"

text \<open>The readers of the standard library's parser: what was read, and the input left. A failed
  reader consumes nothing.\<close>

type_synonym 'a scanner = "string \<Rightarrow> ('a \<times> string) option"

definition read_number :: "nat \<Rightarrow> nat \<Rightarrow> bool \<Rightarrow> nat \<Rightarrow> nat scanner" where
  "read_number b max_digits zero_prefix max_value s =
     (let ds = takeWhile (\<lambda>c. to_digit b c \<noteq> None) s;
          n = foldl (\<lambda>acc c. acc * b + unwrap_or 0 (to_digit b c)) 0 ds
      in if ds = [] \<or> max_digits < length ds \<or> (\<not> zero_prefix \<and> hd ds = CHR ''0'' \<and> 1 < length ds)
           \<or> max_value < n
         then None else Some (n, drop (length ds) s))"

definition read_separator :: "char \<Rightarrow> bool \<Rightarrow> 'a scanner \<Rightarrow> 'a scanner" where
  "read_separator sep is_first read s =
     (if is_first then read s
      else case s of [] \<Rightarrow> None | c # t \<Rightarrow> if c = sep then read t else None)"

definition read_octet :: "bool \<Rightarrow> nat scanner" where
  "read_octet is_first = read_separator (CHR ''.'') is_first (read_number 10 3 False 255)"

definition read_ipv4 :: "u32 scanner" where
  "read_ipv4 s =
     Option.bind (read_octet True s) (\<lambda>(a, s1).
     Option.bind (read_octet False s1) (\<lambda>(b, s2).
     Option.bind (read_octet False s2) (\<lambda>(c, s3).
     Option.bind (read_octet False s3) (\<lambda>(d, s4).
       Some (of_nat (a * 16777216 + b * 65536 + c * 256 + d), s4)))))"

text \<open>Up to that many groups, with whether the last two came as an IPv4 address.\<close>

fun read_groups :: "nat \<Rightarrow> bool \<Rightarrow> string \<Rightarrow> nat list \<times> bool \<times> string" where
  "read_groups 0 is_first s = ([], False, s)"
| "read_groups (Suc n) is_first s =
     (case (if 0 < n then read_separator (CHR '':'') is_first read_ipv4 s else None) of
        Some (a, s1) \<Rightarrow> ([unat a div 65536, unat a mod 65536], True, s1)
      | None \<Rightarrow>
          (case read_separator (CHR '':'') is_first (read_number 16 4 True 65535) s of
             Some (g, s1) \<Rightarrow>
               (case read_groups n False s1 of (gs, v4, s2) \<Rightarrow> (g # gs, v4, s2))
           | None \<Rightarrow> ([], False, s)))"

definition read_ipv6 :: "128 word scanner" where
  "read_ipv6 s =
     (let of_groups = \<lambda>gs. of_nat (foldl (\<lambda>acc g. acc * 65536 + g) 0 gs) in
      case read_groups 8 True s of
        (head, v4, s1) \<Rightarrow>
          if length head = 8 then Some (of_groups head, s1)
          else if v4 then None
          else (case strip_prefix ''::'' s1 of
             None \<Rightarrow> None
           | Some s2 \<Rightarrow>
               (case read_groups (7 - length head) True s2 of
                  (tail, _, s3) \<Rightarrow>
                    Some (of_groups (head @ replicate (8 - length head - length tail) 0 @ tail), s3))))"

definition parse_ip :: "string \<Rightarrow> ip_addr option" where
  "parse_ip s =
     (case (case read_ipv4 s of
              Some (a, t) \<Rightarrow> Some (V4 a, t)
            | None \<Rightarrow> map_option (\<lambda>(a, t). (V6 a, t)) (read_ipv6 s)) of
        Some (ip, []) \<Rightarrow> Some ip
      | _ \<Rightarrow> None)"

text \<open>An octet is read back, whatever follows it that is no digit.\<close>

lemma to_digit_digit [simp]: "d < 10 \<Longrightarrow> to_digit 10 (digit d) = Some d"
  by (simp add: to_digit_def digit_def Let_def)

lemma digit_not_zero:
  assumes "0 < d" and "d < 10"
  shows "digit d \<noteq> CHR ''0''"
proof
  assume "digit d = CHR ''0''"
  moreover have "undigit (digit d) = d" using assms(2) by simp
  ultimately show False using assms(1) by (simp add: undigit_def)
qed

lemma decimal_octet:
  assumes "n < 256"
  shows "decimal n =
     (if n < 10 then [digit n]
      else if n < 100 then [digit (n div 10), digit (n mod 10)]
      else [digit (n div 100), digit (n div 10 mod 10), digit (n mod 10)])"
proof -
  have "n div 10 div 10 = n div 100" by (simp add: div_mult2_eq [symmetric])
  moreover have "n div 100 < 10" using assms by simp
  ultimately show ?thesis
    unfolding decimal_def
    by (subst radix.simps, subst radix.simps, subst radix.simps) auto
qed

lemma read_number_decimal:
  assumes "n < 256" and "t = [] \<or> to_digit 10 (hd t) = None"
  shows "read_number 10 3 False 255 (decimal n @ t) = Some (n, t)"
proof -
  have stop: "takeWhile (\<lambda>c. to_digit 10 c \<noteq> None) t = []"
    using assms(2) by (cases t) auto
  have "n div 100 < 10" "n div 10 mod 10 < 10" "n mod 10 < 10" using assms(1) by simp_all
  moreover have "n div 10 < 10" if "n < 100" using that by simp
  moreover have "n div 100 * 100 + n div 10 mod 10 * 10 + n mod 10 = n"
    using div_mult_mod_eq [of n 10] div_mult_mod_eq [of "n div 10" 10] div_mult2_eq [of n 10 10, simplified]
    by linarith
  moreover have "digit (n div 10) \<noteq> CHR ''0''" if "\<not> n < 10" "n < 100"
    using that by (intro digit_not_zero) simp_all
  moreover have "digit (n div 100) \<noteq> CHR ''0''" if "\<not> n < 100"
    using that assms(1) by (intro digit_not_zero) simp_all
  ultimately show ?thesis
    using assms(1) stop by (simp add: read_number_def decimal_octet Let_def)
qed

lemma octet_less: "n mod 256 < (256::nat)"
  by simp

lemma to_digit_dot [simp]: "to_digit 10 (CHR ''.'') = None"
  by (simp add: to_digit_def)

lemma read_octet_decimal:
  assumes "n < 256" and "t = [] \<or> to_digit 10 (hd t) = None"
  shows "read_octet True (decimal n @ t) = Some (n, t)"
    "read_octet False (CHR ''.'' # decimal n @ t) = Some (n, t)"
  by (simp_all add: read_octet_def read_separator_def read_number_decimal [OF assms])

text \<open>Every IPv4 address is read back from its text.\<close>

theorem ipv4_roundtrip: "parse_ip (ip_text (V4 a)) = Some (V4 a)"
proof -
  have lt: "unat a < 4294967296" using unsigned_less [of a] by simp
  then have "unat a div 16777216 mod 256 * 16777216 + unat a div 65536 mod 256 * 65536 +
      unat a div 256 mod 256 * 256 + unat a mod 256 = unat a"
    by (rule trans [OF base256_digits mod_less])
  from arg_cong [OF this, of "of_nat :: nat \<Rightarrow> u32"]
  have "of_nat (unat a div 16777216 mod 256) * 16777216 + of_nat (unat a div 65536 mod 256) * 65536 +
      of_nat (unat a div 256 mod 256) * 256 + of_nat (unat a mod 256) = a"
    by simp
  moreover have "read_octet False (CHR ''.'' # decimal n) = Some (n, [])" if "n < 256" for n
    using read_octet_decimal(2) [of n "[]"] that by simp
  moreover have "unat a div 16777216 mod 256 = unat a div 16777216"
    using lt by simp
  ultimately have "read_ipv4 (ipv4_text a) = Some (a, [])"
    by (simp add: read_ipv4_def ipv4_text_def read_octet_decimal)
  then show ?thesis by (simp add: parse_ip_def ip_text_def)
qed

end
