(* ===== verification/Serve.thy ===== *)
theory Serve
  imports Addr Errors
begin

text \<open>
  \<open>serve.rs\<close>: the HTTP server for local files. A server keeps a registry of files under hexadecimal
  identifiers taken from one counter of the process, and answers \<open>GET /file/{id}\<close>, whole or by byte
  range. The sockets, the file system and \<open>axum\<close> are parameters: the outcome of each of their calls
  is an argument. A path is the text it displays as.
\<close>

section \<open>State\<close>

record file_entry =
  fe_path :: string
  fe_content_type :: string

text \<open>The registry behind its lock, which a panic of a writer poisons.\<close>

record file_registry =
  poisoned :: bool
  entries :: "string \<rightharpoonup> file_entry"

record file_server =
  fs_addr_ip :: ip_addr
  fs_addr_port :: u16
  fs_lan_ip :: string
  files :: file_registry

definition registry_new :: file_registry where
  "registry_new = \<lparr>poisoned = False, entries = Map.empty\<rparr>"

section \<open>Starting\<close>

text \<open>An error of the operating system as the text it prints.\<close>

definition internal :: "string \<Rightarrow> string + 'a \<Rightarrow> error + 'a" where
  "internal ctx r = (case r of Inl e \<Rightarrow> Inl (ErrInternal (ctx @ e)) | Inr a \<Rightarrow> Inr a)"

definition detect_lan_ip ::
    "string + unit \<Rightarrow> string + unit \<Rightarrow> string + ip_addr \<Rightarrow> error + string" where
  "detect_lan_ip udp_bind udp_connect udp_addr =
     and_then (internal ''UDP bind: '' udp_bind) (\<lambda>_.
     and_then (internal ''UDP connect: '' udp_connect) (\<lambda>_.
     and_then (internal ''local addr: '' udp_addr) (\<lambda>ip. Inr (ip_text ip))))"

definition server_start ::
    "string + unit \<Rightarrow> string + (ip_addr \<times> u16) \<Rightarrow> error + string \<Rightarrow> error + file_server" where
  "server_start tcp_bind tcp_addr lan =
     and_then (internal ''bind file server: '' tcp_bind) (\<lambda>_.
     and_then (internal ''local addr: '' tcp_addr) (\<lambda>(ip, port).
     and_then lan (\<lambda>lan_ip.
       Inr \<lparr>fs_addr_ip = ip, fs_addr_port = port, fs_lan_ip = lan_ip, files = registry_new\<rparr>)))"

section \<open>Registering\<close>

definition file_url :: "file_server \<Rightarrow> string \<Rightarrow> string" where
  "file_url s i =
     ''http://'' @ fs_lan_ip s @ '':'' @ decimal (unat (fs_addr_port s)) @ ''/file/'' @ i"

text \<open>\<open>exists\<close> is what \<open>path.exists()\<close> says; the counter is shared by all servers of the process.\<close>

definition serve_file ::
    "bool \<Rightarrow> string \<Rightarrow> string \<Rightarrow> u64 \<Rightarrow> file_server \<Rightarrow> (error + string) \<times> u64 \<times> file_server" where
  "serve_file exists path ctype counter s =
     (if \<not> exists then (Inl (ErrFileNotFound path), counter, s)
      else
        (let i = hex (unat counter); counter' = counter + 1; url = file_url s i
         in if poisoned (files s) then
              (Inl (ErrInternal ''file registry lock poisoned''), counter', s)
            else
              (Inr url, counter',
               s\<lparr>files := (files s)\<lparr>entries := (entries (files s))(i \<mapsto>
                    \<lparr>fe_path = path, fe_content_type = ctype\<rparr>)\<rparr>\<rparr>)))"

section \<open>Byte ranges\<close>

definition saturating_sub :: "u64 \<Rightarrow> u64 \<Rightarrow> u64" where
  "saturating_sub a b = (if b \<le> a then a - b else 0)"

definition parse_range :: "string \<Rightarrow> u64 \<Rightarrow> (u64 \<times> u64) option" where
  "parse_range header file_size =
     (if file_size = 0 then None
      else Option.bind (strip_prefix ''bytes='' header) (\<lambda>s.
        case splitn2 (CHR ''-'') s of
          [before, after] \<Rightarrow>
            (if before = [] then
               Option.bind (parse_u64 after) (\<lambda>suffix.
                 let start = saturating_sub file_size suffix; end = file_size - 1
                 in if start \<le> end then Some (start, end) else None)
             else
               Option.bind (parse_u64 before) (\<lambda>start.
               Option.bind (if after = [] then Some (file_size - 1) else parse_u64 after) (\<lambda>end.
                 if start \<le> end \<and> end < file_size then Some (start, end) else None)))
        | _ \<Rightarrow> None))"

section \<open>Answering\<close>

text \<open>What the \<open>http\<close> crate makes of a header value: \<open>to_str\<close> and \<open>parse\<close>.\<close>

record http_lib =
  hv_to_str :: "string \<Rightarrow> string option"
  hv_parse :: "string \<Rightarrow> string option"

text \<open>An opened file: its metadata, whether it seeks, and its bytes.\<close>

record os_file =
  file_meta :: "string + u64"
  file_seeks :: bool
  file_bytes :: "u8 list"

datatype status_code = HttpOk | PartialContent | NotFound | RangeNotSatisfiable | InternalServerError

datatype response =
    ErrorText status_code string
  | Reply status_code "string \<rightharpoonup> string" "u8 list"

definition insert_value :: "string \<Rightarrow> string option \<Rightarrow> (string \<rightharpoonup> string) \<Rightarrow> (string \<rightharpoonup> string)" where
  "insert_value k v h = (case v of Some x \<Rightarrow> h(k \<mapsto> x) | None \<Rightarrow> h)"

definition stream_headers ::
    "http_lib \<Rightarrow> string \<Rightarrow> u64 \<Rightarrow> string option \<Rightarrow> (string \<rightharpoonup> string)" where
  "stream_headers http ct len content_range =
     (let h = Map.empty(''content-type'' \<mapsto> ct);
          h = insert_value ''content-length'' (hv_parse http (decimal (unat len))) h;
          h = (case content_range of
                 Some r \<Rightarrow> insert_value ''content-range'' (hv_parse http r) h | None \<Rightarrow> h)
      in h(''accept-ranges'' \<mapsto> ''bytes'', ''access-control-allow-origin'' \<mapsto> ''*''))"

definition range_header_text :: "u64 \<Rightarrow> u64 \<Rightarrow> u64 \<Rightarrow> string" where
  "range_header_text start end file_size =
     ''bytes '' @ decimal (unat start) @ ''-'' @ decimal (unat end) @ ''/'' @ decimal (unat file_size)"

text \<open>The handler of a request for \<open>i\<close> with the headers \<open>req\<close>, of which \<open>get\<close> finds the first. It runs
  for the requests the spawned task accepts, below.\<close>

definition handle_file ::
    "http_lib \<Rightarrow> (string \<Rightarrow> string + os_file) \<Rightarrow> file_registry \<Rightarrow> string \<Rightarrow> (string \<times> string) list
      \<Rightarrow> response" where
  "handle_file http open_file reg i req =
     (if poisoned reg then ErrorText InternalServerError ''lock poisoned''
      else case entries reg i of
        None \<Rightarrow> ErrorText NotFound ''file not found''
      | Some e \<Rightarrow>
          (case open_file (fe_path e) of
             Inl err \<Rightarrow> ErrorText InternalServerError (''open: '' @ err)
           | Inr f \<Rightarrow>
               (case file_meta f of
                  Inl err \<Rightarrow> ErrorText InternalServerError (''metadata: '' @ err)
                | Inr file_size \<Rightarrow>
                    (let has_range_header = map_of req ''range'' \<noteq> None;
                         range = Option.bind (Option.bind (map_of req ''range'') (hv_to_str http))
                                   (\<lambda>s. parse_range s file_size)
                     in if has_range_header \<and> range = None then
                          Reply RangeNotSatisfiable
                            (insert_value ''content-range''
                               (hv_parse http (''bytes */'' @ decimal (unat file_size))) Map.empty) []
                        else
                          (let ct = unwrap_or ''application/octet-stream''
                                      (hv_parse http (fe_content_type e))
                           in case range of
                                Some (start, end) \<Rightarrow>
                                  if \<not> file_seeks f then ErrorText InternalServerError ''seek failed''
                                  else
                                    (let len = end - start + 1
                                     in Reply PartialContent
                                          (stream_headers http ct len
                                             (Some (range_header_text start end file_size)))
                                          (take (unat len) (drop (unat start) (file_bytes f))))
                              | None \<Rightarrow>
                                  Reply HttpOk (stream_headers http ct file_size None)
                                    (file_bytes f))))))"

section \<open>Ranges\<close>

text \<open>The specification: what a client may ask for, how it is written in the header, and which bytes
  of a file of \<open>n\<close> bytes it names.\<close>

datatype byte_range = FromTo u64 u64 | From u64 | Suffix u64

fun range_text :: "byte_range \<Rightarrow> string" where
  "range_text (FromTo a b) = ''bytes='' @ decimal (unat a) @ ''-'' @ decimal (unat b)"
| "range_text (From a) = ''bytes='' @ decimal (unat a) @ ''-''"
| "range_text (Suffix k) = ''bytes=-'' @ decimal (unat k)"

fun satisfied :: "byte_range \<Rightarrow> nat \<Rightarrow> (nat \<times> nat) option" where
  "satisfied (FromTo a b) n = (if unat a \<le> unat b \<and> unat b < n then Some (unat a, unat b) else None)"
| "satisfied (From a) n = (if unat a < n then Some (unat a, n - 1) else None)"
| "satisfied (Suffix k) n = (if n = 0 \<or> k = 0 then None else Some (n - unat k, n - 1))"

lemma satisfied_bounds: "satisfied r n = Some (a, b) \<Longrightarrow> a \<le> b \<and> b < n"
  by (cases r) (auto split: if_splits simp: unat_gt_0 intro!: diff_le_mono2 simp: Suc_le_eq)

lemma parse_u64_unat [simp]: "parse_u64 (decimal (unat w)) = Some w"
proof -
  have "unat w < 2 ^ 64" using unsigned_less [of w] by simp
  then show ?thesis by (simp add: parse_u64_decimal)
qed

lemma decimal_not_Nil [simp]: "decimal n \<noteq> []"
  by (simp add: decimal_def)

lemma minus_not_in_decimal [simp]: "CHR ''-'' \<notin> set (decimal n)"
proof
  assume "CHR ''-'' \<in> set (decimal n)"
  with decimal_digits [of n] have "is_digit (CHR ''-'')" by (auto simp: list_all_iff)
  then show False by (simp add: is_digit_def)
qed

lemma splitn2_range [simp]:
  "splitn2 (CHR ''-'') (decimal n @ CHR ''-'' # q) = [decimal n, q]"
  "splitn2 (CHR ''-'') (CHR ''-'' # q) = [[], q]"
  using splitn2_present [of "CHR ''-''" "[]" q] by (simp_all add: splitn2_present)

lemma last_byte: "n \<noteq> 0 \<Longrightarrow> unat (n - 1 :: u64) = unat n - 1 \<and> n - 1 < n"
  by (cases "unat n") (simp_all add: unat_minus_one word_less_nat_alt unat_eq_0)

lemma parse_range_text:
  "parse_range (range_text r) sz =
     map_option (map_prod of_nat of_nat) (satisfied r (unat sz))"
proof (cases r)
  case (FromTo a b)
  then show ?thesis
    by (auto simp: parse_range_def strip_prefix_def word_le_nat_alt word_less_nat_alt)
next
  case (From a)
  then show ?thesis
    using last_byte [of sz]
    by (auto simp: parse_range_def strip_prefix_def word_le_nat_alt word_less_nat_alt)
next
  case (Suffix k)
  have "unat k = 0 \<longleftrightarrow> k = 0" "unat sz = 0 \<longleftrightarrow> sz = 0" by (simp_all add: unat_eq_0)
  then show ?thesis
    using Suffix last_byte [of sz] parse_u64_unat [of 0]
    by (cases "sz = 0"; cases "k = 0")
      (auto simp: parse_range_def strip_prefix_def word_le_nat_alt word_less_nat_alt
        saturating_sub_def unat_sub Let_def)
qed

lemma parse_range_bounds: "parse_range h sz = Some (a, b) \<Longrightarrow> a \<le> b \<and> b < sz"
  using last_byte [of sz]
  by (auto simp: parse_range_def Let_def split: if_splits list.splits option.splits bind_splits)

section \<open>Responses\<close>

text \<open>What the \<open>http\<close> crate documents of header values: printable ASCII is one, and reads back.\<close>

definition visible :: "string \<Rightarrow> bool" where
  "visible s \<longleftrightarrow> list_all (\<lambda>c. 32 \<le> (of_char c :: nat) \<and> (of_char c :: nat) < 127) s"

lemma visible_simps [simp]:
  "visible []"
  "visible (c # s) \<longleftrightarrow> 32 \<le> (of_char c :: nat) \<and> (of_char c :: nat) < 127 \<and> visible s"
  "visible (s @ t) \<longleftrightarrow> visible s \<and> visible t"
  by (auto simp: visible_def)

definition header_law :: "http_lib \<Rightarrow> bool" where
  "header_law http \<longleftrightarrow>
     (\<forall>s. visible s \<longrightarrow>
        hv_to_str http s = Some s \<and> hv_parse http s = Some s)"

definition ascii_http :: http_lib where
  "ascii_http =
     (let f = (\<lambda>s. if visible s
                  then Some s else None)
      in \<lparr>hv_to_str = f, hv_parse = f\<rparr>)"

lemma header_law_ascii: "header_law ascii_http"
  by (simp add: header_law_def ascii_http_def Let_def)

lemma header_law_text:
  assumes "header_law http" and "visible s"
  shows "hv_to_str http s = Some s" and "hv_parse http s = Some s"
  using assms unfolding header_law_def by blast+

lemma visible_decimal [simp]: "visible (decimal n)"
  using decimal_digits [of n] by (auto simp: visible_def list_all_iff is_digit_def)

lemma visible_range_text [simp]: "visible (range_text r)"
  by (cases r) simp_all

lemma stream_headers_eq:
  assumes "header_law http"
  shows "stream_headers http ct len None =
      Map.empty(''content-type'' \<mapsto> ct, ''content-length'' \<mapsto> decimal (unat len),
        ''accept-ranges'' \<mapsto> ''bytes'', ''access-control-allow-origin'' \<mapsto> ''*'')"
    and "stream_headers http ct len (Some (range_header_text a b n)) =
      Map.empty(''content-type'' \<mapsto> ct, ''content-length'' \<mapsto> decimal (unat len),
        ''content-range'' \<mapsto> range_header_text a b n,
        ''accept-ranges'' \<mapsto> ''bytes'', ''access-control-allow-origin'' \<mapsto> ''*'')"
  by (simp_all add: stream_headers_def insert_value_def range_header_text_def
      header_law_text [OF assms] Let_def)

text \<open>A registered file that can be read, with the bytes its metadata announce.\<close>

definition readable ::
    "(string \<Rightarrow> string + os_file) \<Rightarrow> file_registry \<Rightarrow> string \<Rightarrow> file_entry \<Rightarrow> u8 list \<Rightarrow> bool" where
  "readable open_file reg i e bs \<longleftrightarrow>
     \<not> poisoned reg \<and> entries reg i = Some e \<and> length bs < 2 ^ 64 \<and>
     open_file (fe_path e) =
       Inr \<lparr>file_meta = Inr (of_nat (length bs)), file_seeks = True, file_bytes = bs\<rparr>"

definition slice :: "nat \<Rightarrow> nat \<Rightarrow> 'a list \<Rightarrow> 'a list" where
  "slice a b xs = take (b + 1 - a) (drop a xs)"

lemma length_slice: "a \<le> b \<Longrightarrow> b < length xs \<Longrightarrow> length (slice a b xs) = b + 1 - a"
  by (simp add: slice_def)

lemma slice_nth: "a \<le> b \<Longrightarrow> b < length xs \<Longrightarrow> k < b + 1 - a \<Longrightarrow> slice a b xs ! k = xs ! (a + k)"
  by (simp add: slice_def)

lemma unat_u64: "n < 2 ^ 64 \<Longrightarrow> unat (of_nat n :: u64) = n"
  by (simp add: unsigned_of_nat take_bit_nat_eq_self)

lemma handle_readable:
  assumes "header_law http" and "readable open_file reg i e bs"
  shows "map_of req ''range'' = None \<Longrightarrow> handle_file http open_file reg i req =
      Reply HttpOk (stream_headers http
          (unwrap_or ''application/octet-stream'' (hv_parse http (fe_content_type e)))
          (of_nat (length bs)) None) bs"
    and "map_of req ''range'' = Some (range_text r) \<Longrightarrow> handle_file http open_file reg i req =
      (case satisfied r (length bs) of
         None \<Rightarrow> Reply RangeNotSatisfiable
           [''content-range'' \<mapsto> ''bytes */'' @ decimal (length bs)] []
       | Some (a, b) \<Rightarrow>
           Reply PartialContent
             (stream_headers http
               (unwrap_or ''application/octet-stream'' (hv_parse http (fe_content_type e)))
               (of_nat (b + 1 - a))
               (Some (range_header_text (of_nat a) (of_nat b) (of_nat (length bs)))))
             (slice a b bs))"
proof -
  have n: "unat (of_nat (length bs) :: u64) = length bs"
    using assms(2) by (simp add: readable_def unat_u64)
  show "map_of req ''range'' = None \<Longrightarrow> handle_file http open_file reg i req =
      Reply HttpOk (stream_headers http
          (unwrap_or ''application/octet-stream'' (hv_parse http (fe_content_type e)))
          (of_nat (length bs)) None) bs"
    using assms(2) by (simp add: handle_file_def readable_def)
  assume r: "map_of req ''range'' = Some (range_text r)"
  have s: "unat (of_nat b - of_nat a + 1 :: u64) = b + 1 - a \<and> unat (of_nat a :: u64) = a \<and>
      (of_nat b - of_nat a + 1 :: u64) = of_nat (b + 1 - a)"
    if "satisfied r (length bs) = Some (a, b)" for a b
  proof -
    have ab: "a \<le> b" "b < length bs" using satisfied_bounds [OF that] by simp_all
    then have len: "(of_nat b - of_nat a + 1 :: u64) = of_nat (b + 1 - a)" by (simp add: of_nat_diff)
    have "length bs < 2 ^ 64" using assms(2) by (simp add: readable_def)
    then have "b + 1 - a < 2 ^ 64" "a < 2 ^ 64" using ab by linarith+
    then show ?thesis by (simp only: len unat_u64 simp_thms)
  qed
  show "handle_file http open_file reg i req =
      (case satisfied r (length bs) of
         None \<Rightarrow> Reply RangeNotSatisfiable
           [''content-range'' \<mapsto> ''bytes */'' @ decimal (length bs)] []
       | Some (a, b) \<Rightarrow>
           Reply PartialContent
             (stream_headers http
               (unwrap_or ''application/octet-stream'' (hv_parse http (fe_content_type e)))
               (of_nat (b + 1 - a))
               (Some (range_header_text (of_nat a) (of_nat b) (of_nat (length bs)))))
             (slice a b bs))"
    using assms(2) r s
    by (cases "satisfied r (length bs)")
      (auto simp: handle_file_def readable_def parse_range_text n header_law_text [OF assms(1)]
        insert_value_def slice_def Let_def)
qed

section \<open>Registrations\<close>

text \<open>Registrations on this server, and on the other servers of the process, which share the counter.\<close>

datatype registration = Here bool string string | Elsewhere bool string string file_server

fun register_step :: "registration \<Rightarrow> u64 \<times> file_server \<Rightarrow> u64 \<times> file_server" where
  "register_step (Here ex path ctype) (n, s) = snd (serve_file ex path ctype n s)"
| "register_step (Elsewhere ex path ctype s') (n, s) = (fst (snd (serve_file ex path ctype n s')), s)"

definition registrations :: "registration list \<Rightarrow> u64 \<times> file_server \<Rightarrow> u64 \<times> file_server" where
  "registrations rs st = fold register_step rs st"

lemma serve_file_result:
  "serve_file ex path ctype n s = (r, n', s') \<Longrightarrow>
     (n' = n \<and> s' = s \<or> n' = n + 1 \<and>
       (s' = s \<or> s' = s\<lparr>files := (files s)\<lparr>entries := (entries (files s))(hex (unat n) \<mapsto>
            \<lparr>fe_path = path, fe_content_type = ctype\<rparr>)\<rparr>\<rparr>))"
  by (auto simp: serve_file_def Let_def split: if_splits)

lemma register_step_result:
  assumes "register_step r (n, s) = (n', s')"
  shows "(n' = n \<or> n' = n + 1) \<and> poisoned (files s') = poisoned (files s) \<and>
     (\<forall>i. i = hex (unat n) \<or> entries (files s') i = entries (files s) i) \<and>
     (n' = n \<longrightarrow> s' = s)"
proof (cases r)
  case (Here ex path ctype)
  with assms serve_file_result [of ex path ctype n s] show ?thesis
    by (cases "serve_file ex path ctype n s") (auto split: if_splits)
next
  case (Elsewhere ex path ctype s2)
  with assms serve_file_result [of ex path ctype n s2] show ?thesis
    by (cases "serve_file ex path ctype n s2") auto
qed

text \<open>The entry of a number taken at most \<open>2 ^ 64 - 1\<close> numbers ago is not overwritten.\<close>

lemma entry_stays:
  assumes "entries (files s) (hex (unat m)) = Some e" and "n = m + of_nat j"
    and "0 < j" and "j + length rs \<le> 2 ^ 64"
  shows "entries (files (snd (registrations rs (n, s)))) (hex (unat m)) = Some e \<and>
     poisoned (files (snd (registrations rs (n, s)))) = poisoned (files s)"
  using assms
proof (induction rs arbitrary: n s j)
  case Nil
  then show ?case by (simp add: registrations_def)
next
  case (Cons r rs)
  obtain n' s' where step: "register_step r (n, s) = (n', s')" by (cases "register_step r (n, s)")
  note res = register_step_result [OF step]
  have "j < 2 ^ 64" using Cons.prems(4) by simp
  from unat_u64 [OF this] have "(of_nat j :: u64) \<noteq> 0" using Cons.prems(3) by auto
  then have "hex (unat m) \<noteq> hex (unat n)" using Cons.prems(2) by (simp add: word_unat_eq_iff [symmetric])
  then have e: "entries (files s') (hex (unat m)) = Some e" using res Cons.prems(1) by metis
  have "n' = m + of_nat j \<or> n' = m + of_nat (Suc j)"
    using res Cons.prems(2) by (auto simp: algebra_simps)
  then show ?case
    using Cons.IH [OF e, of n' j] Cons.IH [OF e, of n' "Suc j"] Cons.prems(3,4) res
    by (auto simp: registrations_def step)
qed

section \<open>The spawned task\<close>

text \<open>The task \<open>start\<close> spawns selects between \<open>axum::serve\<close> and the receiver of \<open>_shutdown\<close>. The sender is
  a field of the \<open>FileServer\<close>, so it goes when that value is dropped; the next time the task is polled it
  sees that, and ends, and its listener is closed.\<close>

record serving =
  sv_server :: file_server
  sv_held :: bool       \<comment> \<open>the \<open>FileServer\<close> value exists\<close>
  sv_accepting :: bool  \<comment> \<open>the task still runs\<close>

definition serving_start :: "file_server \<Rightarrow> serving" where
  "serving_start s = \<lparr>sv_server = s, sv_held = True, sv_accepting = True\<rparr>"

datatype serving_event = Registers registration | ServerDropped | Polled | ServeFailed

fun serving_step :: "serving_event \<Rightarrow> u64 \<times> serving \<Rightarrow> u64 \<times> serving" where
  "serving_step (Registers r) (n, h) =
     (if sv_held h then case register_step r (n, sv_server h) of (n', s') \<Rightarrow> (n', h\<lparr>sv_server := s'\<rparr>)
      else (n, h))"
| "serving_step ServerDropped (n, h) = (n, h\<lparr>sv_held := False\<rparr>)"
| "serving_step Polled (n, h) = (n, if sv_held h then h else h\<lparr>sv_accepting := False\<rparr>)"
| "serving_step ServeFailed (n, h) = (n, h\<lparr>sv_accepting := False\<rparr>)"

definition serving_run :: "serving_event list \<Rightarrow> u64 \<times> serving \<Rightarrow> u64 \<times> serving" where
  "serving_run evs st = fold serving_step evs st"

text \<open>The answer to a request on a new connection, if it is accepted.\<close>

definition fetch ::
    "http_lib \<Rightarrow> (string \<Rightarrow> string + os_file) \<Rightarrow> serving \<Rightarrow> string \<Rightarrow> (string \<times> string) list
      \<Rightarrow> response option" where
  "fetch http open_file h i req =
     (if sv_accepting h then Some (handle_file http open_file (files (sv_server h)) i req) else None)"

definition registered_in :: "serving_event list \<Rightarrow> registration list" where
  "registered_in evs = List.map_filter (\<lambda>e. case e of Registers r \<Rightarrow> Some r | _ \<Rightarrow> None) evs"

lemma length_registered_in: "length (registered_in evs) \<le> length evs"
  by (induction evs) (auto simp: registered_in_def map_filter_simps split: option.split serving_event.split)

text \<open>While the value is kept and the listener does not fail, the task accepts, and only registrations
  matter.\<close>

lemma serving_kept:
  assumes "ServerDropped \<notin> set evs" and "ServeFailed \<notin> set evs" and "sv_held h" and "sv_accepting h"
  shows "sv_accepting (snd (serving_run evs (n, h))) \<and>
     sv_server (snd (serving_run evs (n, h))) = snd (registrations (registered_in evs) (n, sv_server h))"
  using assms
proof (induction evs arbitrary: n h)
  case (Cons e evs)
  show ?case
  proof (cases e)
    case (Registers r)
    obtain n' s' where step: "register_step r (n, sv_server h) = (n', s')" by fastforce
    from Cons.IH [of "h\<lparr>sv_server := s'\<rparr>" n'] Cons.prems show ?thesis
      by (simp add: Registers serving_run_def registrations_def registered_in_def map_filter_simps step)
  qed (use Cons.IH [of h n] Cons.prems in
       \<open>simp_all add: serving_run_def registrations_def registered_in_def map_filter_simps\<close>)
qed (simp add: serving_run_def registrations_def registered_in_def map_filter_simps)

lemma serving_gone:
  assumes "\<not> sv_held (snd st)"
  shows "\<not> sv_held (snd (serving_run evs st)) \<and>
     (\<not> sv_accepting (snd st) \<or> Polled \<in> set evs \<longrightarrow> \<not> sv_accepting (snd (serving_run evs st)))"
  using assms
proof (induction evs arbitrary: st)
  case (Cons e evs)
  obtain n h where st: "st = (n, h)" by (cases st)
  have "\<not> sv_held (snd (serving_step e st))"
    "\<not> sv_accepting h \<or> e = Polled \<longrightarrow> \<not> sv_accepting (snd (serving_step e st))"
    using Cons.prems by (cases e; simp add: st; fail)+
  with Cons.IH [of "serving_step e st"] show ?case by (auto simp: serving_run_def st)
qed (simp add: serving_run_def)

lemma fetch_gone:
  assumes "Polled \<in> set mid"
  shows "fetch http open_file (snd (serving_run (evs @ ServerDropped # mid) st)) i req = None"
proof -
  obtain n h where "serving_run evs st = (n, h)" by fastforce
  then have "serving_run (evs @ ServerDropped # mid) st = serving_run mid (n, h\<lparr>sv_held := False\<rparr>)"
    by (simp add: serving_run_def)
  with serving_gone [of "(n, h\<lparr>sv_held := False\<rparr>)" mid] assms show ?thesis by (simp add: fetch_def)
qed

section \<open>Correctness\<close>

text \<open>C31. Range headers mean what they say. The three forms of a range are read as the specification
  reads them (first and last byte, from a byte on, the last bytes), a range that begins or ends
  outside the file is refused, and whatever the header says an accepted range lies in the file.\<close>

theorem range_requests:
  "parse_range (range_text r) n = map_option (map_prod of_nat of_nat) (satisfied r (unat n)) \<and>
   (case parse_range h n of None \<Rightarrow> True | Some (a, b) \<Rightarrow> a \<le> b \<and> b < n)"
  using parse_range_text [of r n] parse_range_bounds [of h n] by (auto split: option.split)

text \<open>C19. A range answer carries exactly the bytes asked for. For a registered file that can be read,
  a request with a range header is answered by \<open>206\<close> with the bytes from the first to the last asked
  for, each at its place, their number as the content length and their place as the content range;
  a range outside the file is answered by \<open>416\<close> with the size of the file and no byte.\<close>

theorem ranges_are_served:
  assumes "header_law http" and "readable open_file reg i e bs"
    and "map_of req ''range'' = Some (range_text r)"
  shows "case satisfied r (length bs) of
     None \<Rightarrow> handle_file http open_file reg i req =
       Reply RangeNotSatisfiable [''content-range'' \<mapsto> ''bytes */'' @ decimal (length bs)] []
   | Some (a, b) \<Rightarrow> \<exists>hs body. handle_file http open_file reg i req = Reply PartialContent hs body \<and>
       length body = b - a + 1 \<and> (\<forall>k < length body. body ! k = bs ! (a + k)) \<and>
       hs ''content-length'' = Some (decimal (length body)) \<and>
       hs ''content-range'' =
         Some (''bytes '' @ decimal a @ ''-'' @ decimal b @ ''/'' @ decimal (length bs))"
proof (cases "satisfied r (length bs)")
  case None
  then show ?thesis using handle_readable(2) [OF assms] by simp
next
  case (Some ab)
  then obtain a b where ab: "satisfied r (length bs) = Some (a, b)" by (cases ab) simp
  have le: "a \<le> b" "b < length bs" using satisfied_bounds [OF ab] by simp_all
  have "length bs < 2 ^ 64" using assms(2) by (simp add: readable_def)
  then have u: "unat (of_nat a :: u64) = a" "unat (of_nat b :: u64) = b"
    "unat (of_nat (length bs) :: u64) = length bs" "unat (of_nat (b + 1 - a) :: u64) = b + 1 - a"
    using le by (intro unat_u64; linarith)+
  let ?hs = "stream_headers http
      (unwrap_or ''application/octet-stream'' (hv_parse http (fe_content_type e)))
      (of_nat (b + 1 - a)) (Some (range_header_text (of_nat a) (of_nat b) (of_nat (length bs))))"
  have hs: "?hs ''content-length'' = Some (decimal (b + 1 - a))"
    "?hs ''content-range'' = Some (range_header_text (of_nat a) (of_nat b) (of_nat (length bs)))"
    using u(4) by (simp_all add: stream_headers_eq [OF assms(1)])
  have "handle_file http open_file reg i req = Reply PartialContent ?hs (slice a b bs)"
    using handle_readable(2) [OF assms] by (simp add: ab)
  then show ?thesis
    using hs u length_slice [OF le] slice_nth [OF le] Suc_diff_le [OF le(1)]
    by (simp add: ab range_header_text_def)
qed

text \<open>A file of five bytes, with the entry it is registered under.\<close>

definition sample_file :: os_file where
  "sample_file = \<lparr>file_meta = Inr 5, file_seeks = True, file_bytes = [10, 11, 12, 13, 14]\<rparr>"

definition sample_registry :: file_registry where
  "sample_registry =
     \<lparr>poisoned = False, entries = [''0'' \<mapsto> \<lparr>fe_path = ''a.mp4'', fe_content_type = ''video/mp4''\<rparr>]\<rparr>"

lemma sample_readable:
  "readable (\<lambda>_. Inr sample_file) sample_registry ''0''
     \<lparr>fe_path = ''a.mp4'', fe_content_type = ''video/mp4''\<rparr> [10, 11, 12, 13, 14]"
  by (simp add: readable_def sample_registry_def sample_file_def)

theorem ranges_are_served_witness:
  "\<exists>hs. handle_file ascii_http (\<lambda>_. Inr sample_file) sample_registry ''0''
      [(''range'', range_text (FromTo 1 3))] = Reply PartialContent hs [11, 12, 13]"
proof -
  let ?req = "[(''range'', range_text (FromTo 1 3))]"
  have sat: "satisfied (FromTo 1 3) (length [10, 11, 12, 13, 14 :: u8]) = Some (1, 3)" by simp
  have req: "map_of ?req ''range'' = Some (range_text (FromTo 1 3))" by simp
  obtain hs body where r: "handle_file ascii_http (\<lambda>_. Inr sample_file) sample_registry ''0'' ?req =
      Reply PartialContent hs body"
    and len: "length body = 3 - 1 + 1"
    and nth: "\<forall>k < length body. body ! k = [10, 11, 12, 13, 14] ! (1 + k)"
    using ranges_are_served [OF header_law_ascii sample_readable req] unfolding sat option.case prod.case
    by blast
  obtain x y z where body: "body = [x, y, z]"
    using len by (auto simp: numeral_3_eq_3 length_Suc_conv)
  have "x = 11" "y = 12" "z = 13"
    using nth [rule_format, of 0] nth [rule_format, of 1] nth [rule_format, of 2] by (simp_all add: body)
  with r body show ?thesis by blast
qed

lemma registered_file_served:
  assumes "header_law http" and "serve_file ex path ctype n s = (Inr url, n1, s1)"
    and "length evs < 2 ^ 64 - 1" and "ServerDropped \<notin> set evs" and "ServeFailed \<notin> set evs"
    and "length bs < 2 ^ 64"
    and "open_file path = Inr \<lparr>file_meta = Inr (of_nat (length bs)), file_seeks = True, file_bytes = bs\<rparr>"
  shows "\<exists>i hs. url = file_url s i \<and>
     fetch http open_file (snd (serving_run evs (n1, serving_start s1))) i [] = Some (Reply HttpOk hs bs) \<and>
     hs ''content-length'' = Some (decimal (length bs)) \<and>
     hs ''content-type'' = Some (unwrap_or ''application/octet-stream'' (hv_parse http ctype))"
proof -
  let ?e = "\<lparr>fe_path = path, fe_content_type = ctype\<rparr>"
  let ?h = "snd (serving_run evs (n1, serving_start s1))"
  have kept: "sv_accepting ?h" "sv_server ?h = snd (registrations (registered_in evs) (n1, s1))"
    using serving_kept [OF assms(4,5), of "serving_start s1" n1] by (simp_all add: serving_start_def)
  have r: "url = file_url s (hex (unat n))" "n1 = n + of_nat 1" "\<not> poisoned (files s1)"
    "entries (files s1) (hex (unat n)) = Some ?e"
    using assms(2) by (auto simp: serve_file_def Let_def split: if_splits)
  have "entries (files (sv_server ?h)) (hex (unat n)) = Some ?e \<and>
      poisoned (files (sv_server ?h)) = poisoned (files s1)"
    using entry_stays [OF r(4,2)] length_registered_in [of evs] assms(3) unfolding kept(2) by simp
  then have ok: "readable open_file (files (sv_server ?h)) (hex (unat n)) ?e bs"
    using r(3) assms(6,7) by (simp add: readable_def)
  show ?thesis
    using handle_readable(1) [OF assms(1) ok, of "[]"] r(1) kept(1)
    by (intro exI [of _ "hex (unat n)"])
      (simp add: fetch_def stream_headers_eq [OF assms(1)] unat_u64 [OF assms(6)])
qed

text \<open>C20. A registered file is served under its URL as long as its server is kept. After \<open>serve_file\<close> gave
  a URL, and while the \<open>FileServer\<close> is not dropped and \<open>axum::serve\<close> does not fail, fewer than
  \<open>2 ^ 64 - 1\<close> further registrations on any servers of the process do not take it over: a plain request
  for it is answered by \<open>200\<close> with the whole file, its length, and the registered content type if that
  is a legal header value (\<open>application/octet-stream\<close> if not). Once the \<open>FileServer\<close> is dropped and its
  task has been polled, no request on a new connection is answered, whatever it asks for.\<close>

theorem registered_file_is_served:
  assumes "header_law http" and "serve_file ex path ctype n s = (Inr url, n1, s1)"
    and "length evs < 2 ^ 64 - 1" and "ServerDropped \<notin> set evs" and "ServeFailed \<notin> set evs"
    and "length bs < 2 ^ 64"
    and "open_file path = Inr \<lparr>file_meta = Inr (of_nat (length bs)), file_seeks = True, file_bytes = bs\<rparr>"
  shows "\<exists>i hs. url = file_url s i \<and>
     fetch http open_file (snd (serving_run evs (n1, serving_start s1))) i [] = Some (Reply HttpOk hs bs) \<and>
     hs ''content-length'' = Some (decimal (length bs)) \<and>
     hs ''content-type'' = Some (unwrap_or ''application/octet-stream'' (hv_parse http ctype)) \<and>
     (\<forall>later j req. Polled \<in> set later \<longrightarrow>
        fetch http open_file (snd (serving_run (evs @ ServerDropped # later) (n1, serving_start s1))) j req = None)"
  using registered_file_served [where open_file = open_file, OF assms] fetch_gone by metis

text \<open>A server, and a registration on it and on another one after it.\<close>

definition sample_server :: file_server where
  "sample_server =
     \<lparr>fs_addr_ip = V4 0, fs_addr_port = 8080, fs_lan_ip = ''10.0.0.2'', files = registry_new\<rparr>"

theorem registered_file_is_served_witness:
  "\<exists>i hs. file_url sample_server (hex 0) = file_url sample_server i \<and>
     fetch ascii_http (\<lambda>_. Inr sample_file)
       (snd (serving_run
          [Registers (Elsewhere True ''b.mp3'' ''audio/mpeg'' sample_server), Polled,
           Registers (Here True ''c.mp4'' ''video/mp4'')]
          (fst (snd (serve_file True ''a.mp4'' ''video/mp4'' 0 sample_server)),
           serving_start (snd (snd (serve_file True ''a.mp4'' ''video/mp4'' 0 sample_server)))))) i [] =
       Some (Reply HttpOk hs [10, 11, 12, 13, 14])"
proof -
  have "serve_file True ''a.mp4'' ''video/mp4'' 0 sample_server =
      (Inr (file_url sample_server (hex 0)), snd (serve_file True ''a.mp4'' ''video/mp4'' 0 sample_server))"
    by (simp add: serve_file_def sample_server_def registry_new_def Let_def)
  then have "serve_file True ''a.mp4'' ''video/mp4'' 0 sample_server =
      (Inr (file_url sample_server (hex 0)),
       fst (snd (serve_file True ''a.mp4'' ''video/mp4'' 0 sample_server)),
       snd (snd (serve_file True ''a.mp4'' ''video/mp4'' 0 sample_server)))"
    by simp
  from registered_file_is_served [OF header_law_ascii this,
      of "[Registers (Elsewhere True ''b.mp3'' ''audio/mpeg'' sample_server), Polled,
           Registers (Here True ''c.mp4'' ''video/mp4'')]"
         "[10, 11, 12, 13, 14]" "\<lambda>_. Inr sample_file"]
  show ?thesis by (auto simp: sample_file_def)
qed

end
