(* ===== verification/Casting.thy ===== *)
theory Casting
  imports Lifecycle Serve
begin

text \<open>
  A composition of the client with another part: \<open>CastClient::serve_and_cast\<close> of \<open>client.rs\<close>, which
  serves a local file and loads it.
\<close>

section \<open>Serving a file and casting it\<close>

text \<open>\<open>started\<close> is the outcome of starting the server, \<open>exists\<close> what \<open>path.exists()\<close> says, and \<open>n\<close> the
  counter of file identifiers.\<close>

definition serve_and_cast ::
    "render \<Rightarrow> error + file_server \<Rightarrow> bool \<Rightarrow> string \<Rightarrow> string \<Rightarrow> bool \<Rightarrow> f64 \<Rightarrow> await \<Rightarrow> u64
      \<Rightarrow> client \<Rightarrow> (error + (file_server \<times> media_status)) \<times> u64 \<times> client" where
  "serve_and_cast render started exists path ctype autoplay start_time await n c =
     (case started of
        Inl e \<Rightarrow> (Inl e, n, c)
      | Inr server \<Rightarrow>
          (case serve_file exists path ctype n server of
             (Inl e, n', _) \<Rightarrow> (Inl e, n', c)
           | (Inr url, n', server') \<Rightarrow>
               (case load_media render (media_info_new url ctype) autoplay start_time None await c of
                  (Inl e, c') \<Rightarrow> (Inl e, n', c')
                | (Inr status, c') \<Rightarrow> (Inr (server', status), n', c'))))"

lemma file_url_files [simp]: "file_url (s\<lparr>files := r\<rparr>) i = file_url s i"
  by (simp add: file_url_def)

text \<open>C23. What is cast is what is served. When \<open>serve_and_cast\<close> succeeds, the load it made was for a URL
  of the returned server. As long as the caller keeps that server and \<open>axum::serve\<close> does not fail, however
  many files (below \<open>2 ^ 64 - 1\<close>) the process registers later, a device that fetches this URL gets the
  whole file, with the content type it was told if that is a legal header value and as
  \<open>application/octet-stream\<close> otherwise. Once the caller drops the server and its task has been polled, the
  device gets no answer on a new connection.\<close>

theorem cast_file_is_served:
  assumes "serve_and_cast render started ex path ctype autoplay t await n c =
      (Inr (server, status), n1, c1)"
    and "header_law http" and "length evs < 2 ^ 64 - 1" and "ServerDropped \<notin> set evs" and "ServeFailed \<notin> set evs"
    and "length bs < 2 ^ 64"
    and "open_file path = Inr \<lparr>file_meta = Inr (of_nat (length bs)), file_seeks = True, file_bytes = bs\<rparr>"
  shows "\<exists>i hs. load_media render (media_info_new (file_url server i) ctype) autoplay t None await c =
       (Inr status, c1) \<and>
     fetch http open_file (snd (serving_run evs (n1, serving_start server))) i [] = Some (Reply HttpOk hs bs) \<and>
     hs ''content-type'' = Some (unwrap_or ''application/octet-stream'' (hv_parse http ctype)) \<and>
     (\<forall>later. Polled \<in> set later \<longrightarrow>
        fetch http open_file (snd (serving_run (evs @ ServerDropped # later) (n1, serving_start server))) i [] = None)"
proof -
  obtain s0 url where st: "started = Inr s0" "serve_file ex path ctype n s0 = (Inr url, n1, server)"
    "load_media render (media_info_new url ctype) autoplay t None await c = (Inr status, c1)"
    using assms(1) by (auto simp: serve_and_cast_def split: sum.splits prod.splits)
  have url: "file_url server i = file_url s0 i" for i
    using st(2) by (auto simp: serve_file_def Let_def split: if_splits)
  obtain i hs where "url = file_url s0 i"
    "fetch http open_file (snd (serving_run evs (n1, serving_start server))) i [] = Some (Reply HttpOk hs bs)"
    "hs ''content-type'' = Some (unwrap_or ''application/octet-stream'' (hv_parse http ctype))"
    using registered_file_served [where open_file = open_file, OF assms(2) st(2) assms(3-7)] by blast
  then show ?thesis using st(3) url fetch_gone by metis
qed

theorem cast_file_is_served_witness:
  "\<exists>server n1 c1 i hs.
     fst (serve_and_cast (\<lambda>_. []) (Inr sample_server) True ''a.mp4'' ''video/mp4'' True 0
        (\<lambda>_ _ c. (Received sample_playing, c)) 0 sample_client) =
       Inr (server, the (parse_media_status sample_playing)) \<and>
     load_media (\<lambda>_. []) (media_info_new (file_url server i) ''video/mp4'') True 0 None
        (\<lambda>_ _ c. (Received sample_playing, c)) sample_client =
       (Inr (the (parse_media_status sample_playing)), c1) \<and>
     fetch ascii_http (\<lambda>_. Inr sample_file) (snd (serving_run [] (n1, serving_start server))) i [] =
       Some (Reply HttpOk hs [10, 11, 12, 13, 14])"
proof -
  let ?aw = "\<lambda>_ _ c. (Received sample_playing, c)"
  let ?st = "the (parse_media_status sample_playing)"
  let ?r = "serve_and_cast (\<lambda>_. []) (Inr sample_server) True ''a.mp4'' ''video/mp4'' True 0 ?aw 0 sample_client"
  have "fst (load_media (\<lambda>_. []) (media_info_new url ''video/mp4'') True 0 None ?aw sample_client) = Inr ?st"
    for url
    by (simp add: load_media_def get_transport_id_def get_session_id_def bind_io_unfold request_sent
        Let_def wait_for_def sample_playing_parses loaded_status_def)
  then have "\<exists>c1. load_media (\<lambda>_. []) (media_info_new url ''video/mp4'') True 0 None ?aw sample_client =
      (Inr ?st, c1)" for url
    by (metis prod.collapse)
  then obtain c1 where load: "load_media (\<lambda>_. [])
      (media_info_new (file_url sample_server (hex 0)) ''video/mp4'') True 0 None ?aw sample_client = (Inr ?st, c1)"
    by blast
  obtain n1 server where files: "serve_file True ''a.mp4'' ''video/mp4'' 0 sample_server =
      (Inr (file_url sample_server (hex 0)), n1, server)"
    by (simp add: serve_file_def sample_server_def registry_new_def Let_def)
  have r: "?r = (Inr (server, ?st), n1, c1)"
    by (simp only: serve_and_cast_def files load sum.case prod.case)
  have "(\<lambda>_. Inr sample_file) ''a.mp4'' =
      Inr \<lparr>file_meta = Inr (of_nat (length [10, 11, 12, 13, 14 :: u8])), file_seeks = True,
            file_bytes = [10, 11, 12, 13, 14]\<rparr>"
    by (simp add: sample_file_def)
  from cast_file_is_served [OF r header_law_ascii _ _ _ _ this, of "[]"] r show ?thesis
    by auto
qed

end
