(* ===== verification/Connection.thy ===== *)
theory Connection
  imports Lifecycle Addr
begin

text \<open>
  \<open>client/connection.rs\<close>: the TLS connection to a device, and the ways to a client that go through
  it, \<open>CastClientBuilder::connect\<close>, \<open>CastClient::connect\<close>, \<open>DeviceInfo::connect\<close> and the new
  connection of \<open>reconnect\<close>. TCP, \<open>rustls\<close> and the certificates of the system are a record of
  parameters.
\<close>

section \<open>Certificate verifiers\<close>

text \<open>A certificate is its DER bytes, a time seconds, a signed structure the code of its scheme and
  the signature; an error of \<open>rustls\<close> is its text.\<close>

type_synonym der = "u8 list"

datatype server_name = DnsName string | IpAddress ip_addr

datatype digitally_signed = DigitallySigned u16 "u8 list"

text \<open>The trait \<open>ServerCertVerifier\<close>.\<close>

record verifier =
  verify_cert :: "der \<Rightarrow> der list \<Rightarrow> server_name \<Rightarrow> u8 list \<Rightarrow> nat \<Rightarrow> string + unit"
  verify_tls12 :: "u8 list \<Rightarrow> der \<Rightarrow> digitally_signed \<Rightarrow> string + unit"
  verify_tls13 :: "u8 list \<Rightarrow> der \<Rightarrow> digitally_signed \<Rightarrow> string + unit"
  verify_schemes :: "u16 list"

text \<open>The signature checks of the crypto provider \<open>ring\<close>.\<close>

record crypto_provider =
  provider_tls12 :: "u8 list \<Rightarrow> der \<Rightarrow> digitally_signed \<Rightarrow> string + unit"
  provider_tls13 :: "u8 list \<Rightarrow> der \<Rightarrow> digitally_signed \<Rightarrow> string + unit"
  provider_schemes :: "u16 list"

text \<open>\<open>NoCertVerification\<close>.\<close>

definition verify_server_cert ::
    "der \<Rightarrow> der list \<Rightarrow> server_name \<Rightarrow> u8 list \<Rightarrow> nat \<Rightarrow> string + unit" where
  "verify_server_cert end_entity intermediates name ocsp now = Inr ()"

definition verify_tls12_signature ::
    "crypto_provider \<Rightarrow> u8 list \<Rightarrow> der \<Rightarrow> digitally_signed \<Rightarrow> string + unit" where
  "verify_tls12_signature ring message cert dss = provider_tls12 ring message cert dss"

definition verify_tls13_signature ::
    "crypto_provider \<Rightarrow> u8 list \<Rightarrow> der \<Rightarrow> digitally_signed \<Rightarrow> string + unit" where
  "verify_tls13_signature ring message cert dss = provider_tls13 ring message cert dss"

definition supported_verify_schemes :: "crypto_provider \<Rightarrow> u16 list" where
  "supported_verify_schemes ring = provider_schemes ring"

definition no_cert_verification :: "crypto_provider \<Rightarrow> verifier" where
  "no_cert_verification ring =
     \<lparr>verify_cert = verify_server_cert, verify_tls12 = verify_tls12_signature ring,
      verify_tls13 = verify_tls13_signature ring, verify_schemes = supported_verify_schemes ring\<rparr>"

section \<open>Connecting\<close>

text \<open>\<open>tcp_connect\<close> is \<open>TcpStream::connect\<close> on \<open>host:port\<close>; \<open>native_certs\<close>, \<open>empty_roots\<close> and \<open>add_root\<close>
  (\<open>RootCertStore::add\<close>, with the store afterwards) build the roots, \<open>webpki_verifier\<close> is what
  \<open>with_root_certificates\<close> makes of them; \<open>name_of_host\<close> is \<open>ServerName::try_from\<close>, \<open>handshake\<close>
  \<open>TlsConnector::connect\<close>.\<close>

record ('tcp, 'tls, 'roots) network =
  tcp_connect :: "string \<Rightarrow> io_error + 'tcp"
  native_certs :: "der list"
  empty_roots :: 'roots
  add_root :: "der \<Rightarrow> 'roots \<Rightarrow> (string + unit) \<times> 'roots"
  webpki_verifier :: "'roots \<Rightarrow> verifier"
  ring :: crypto_provider
  name_of_host :: "string \<Rightarrow> string + server_name"
  handshake :: "verifier \<Rightarrow> server_name \<Rightarrow> 'tcp \<Rightarrow> string + 'tls"

definition root_store :: "('tcp, 'tls, 'roots) network \<Rightarrow> 'roots" where
  "root_store net = foldl (\<lambda>roots cert. snd (add_root net cert roots)) (empty_roots net) (native_certs net)"

definition tls_verifier :: "('tcp, 'tls, 'roots) network \<Rightarrow> bool \<Rightarrow> verifier" where
  "tls_verifier net verify =
     (if verify then webpki_verifier net (root_store net) else no_cert_verification (ring net))"

definition resolve_name :: "('tcp, 'tls, 'roots) network \<Rightarrow> string \<Rightarrow> error + server_name" where
  "resolve_name net h =
     (case name_of_host net h of
        Inr name \<Rightarrow> Inr name
      | Inl _ \<Rightarrow>
          (case parse_ip h of
             Some ip \<Rightarrow> Inr (IpAddress ip)
           | None \<Rightarrow> Inl (ErrTls (''invalid host: '' @
               error_display (ErrConnect (IoError InvalidInput ''invalid IP address syntax''))))))"

definition connect :: "('tcp, 'tls, 'roots) network \<Rightarrow> string \<Rightarrow> u16 \<Rightarrow> bool \<Rightarrow> error + 'tls" where
  "connect net h p verify =
     (case tcp_connect net (h @ '':'' @ decimal (unat p)) of
        Inl e \<Rightarrow> Inl (ErrConnect e)
      | Inr tcp \<Rightarrow>
          and_then (resolve_name net h) (\<lambda>name.
            case handshake net (tls_verifier net verify) name tcp of
              Inl e \<Rightarrow> Inl (ErrTls e)
            | Inr tls \<Rightarrow> Inr tls))"

section \<open>Ways to a client\<close>

text \<open>What the client sees of the connection: whether there is one.\<close>

definition dial :: "('tcp, 'tls, 'roots) network \<Rightarrow> string \<Rightarrow> u16 \<Rightarrow> bool \<Rightarrow> error + unit" where
  "dial net h p verify = and_then (connect net h p verify) (\<lambda>_. Inr ())"

definition builder_connect ::
    "render \<Rightarrow> ('tcp, 'tls, 'roots) network \<Rightarrow> builder \<Rightarrow> (gap \<Rightarrow> shared \<Rightarrow> shared) \<Rightarrow> nat
      \<Rightarrow> (error + client) option" where
  "builder_connect render net b meanwhile now =
     from_builder render b (dial net (host b) (port b) (verify_tls b)) meanwhile now"

definition connect_host ::
    "render \<Rightarrow> ('tcp, 'tls, 'roots) network \<Rightarrow> string \<Rightarrow> u16 \<Rightarrow> (gap \<Rightarrow> shared \<Rightarrow> shared) \<Rightarrow> nat
      \<Rightarrow> (error + client) option" where
  "connect_host render net h p meanwhile now = builder_connect render net (builder_new h p) meanwhile now"

definition device_connect ::
    "render \<Rightarrow> ('tcp, 'tls, 'roots) network \<Rightarrow> device_info \<Rightarrow> (gap \<Rightarrow> shared \<Rightarrow> shared) \<Rightarrow> nat
      \<Rightarrow> (error + client) option" where
  "device_connect render net d meanwhile now =
     connect_host render net (ip_text (dev_ip d)) (dev_port d) meanwhile now"

definition reconnect_over ::
    "render \<Rightarrow> ('tcp, 'tls, 'roots) network \<Rightarrow> (gap \<Rightarrow> client \<Rightarrow> client) \<Rightarrow> nat \<Rightarrow> unit io" where
  "reconnect_over render net others now c =
     reconnect render (dial net (host (config c)) (port (config c)) (verify_tls (config c))) others now c"

text \<open>With the defaults, connecting never panics.\<close>

lemma connect_host_returns: "connect_host render net h p meanwhile now \<noteq> None"
  by (simp add: connect_host_def builder_connect_def from_builder_def builder_new_def MAX_PERMITS_def Let_def
      split: sum.split prod.split)

section \<open>Which devices are trusted\<close>

text \<open>What the other end of a TCP connection presents: whether it speaks TLS to the end, its
  certificates, and its signature over the handshake, under TLS 1.3 or 1.2.\<close>

record offer =
  speaks_tls :: bool
  leaf :: der
  chain :: "der list"
  staple :: "u8 list"
  transcript :: "u8 list"
  signature :: digitally_signed
  is_tls13 :: bool

definition signature_ok :: "verifier \<Rightarrow> offer \<Rightarrow> bool" where
  "signature_ok v f \<longleftrightarrow>
     (if is_tls13 f then verify_tls13 v else verify_tls12 v) (transcript f) (leaf f) (signature f) = Inr ()"

definition accepts :: "verifier \<Rightarrow> server_name \<Rightarrow> nat \<Rightarrow> offer \<Rightarrow> bool" where
  "accepts v name time f \<longleftrightarrow>
     speaks_tls f \<and> verify_cert v (leaf f) (chain f) name (staple f) time = Inr () \<and> signature_ok v f"

text \<open>The client side of a handshake asks its verifier about the certificates and about the signature, and
  completes when both are accepted.\<close>

definition handshake_law :: "('tcp, 'tls, 'roots) network \<Rightarrow> nat \<Rightarrow> ('tcp \<Rightarrow> offer) \<Rightarrow> bool" where
  "handshake_law net time offers \<longleftrightarrow>
     (\<forall>v name tcp. isl (handshake net v name tcp) \<longleftrightarrow> \<not> accepts v name time (offers tcp))"

lemma connect_accepted:
  assumes "handshake_law net time offers"
    and "tcp_connect net (h @ '':'' @ decimal (unat p)) = Inr tcp" and "resolve_name net h = Inr name"
  shows "isl (connect net h p verify) \<longleftrightarrow> \<not> accepts (tls_verifier net verify) name time (offers tcp)"
  using assms unfolding handshake_law_def connect_def
  by (auto split: sum.splits) (metis isl_def old.sum.exhaust sum.disc)+

lemma dial_accepted:
  assumes "handshake_law net time offers"
    and "tcp_connect net (h @ '':'' @ decimal (unat p)) = Inr tcp" and "resolve_name net h = Inr name"
  shows "if accepts (tls_verifier net verify) name time (offers tcp) then dial net h p verify = Inr ()
         else \<exists>e. dial net h p verify = Inl (ErrTls e)"
  using assms connect_accepted [OF assms, of verify]
  by (auto simp: dial_def connect_def split: sum.splits)

text \<open>C24. By default a device is not authenticated. Whatever certificates the other end of the TCP
  connection presents, for whatever name, \<open>CastClient::connect\<close> gives a connected client as soon as
  it completes a handshake signed with the key of its own leaf certificate, if the tasks do not lose the
  connection again meanwhile; and if they do, it fails with \<open>Disconnected\<close> or not at all. With
  \<open>verify_tls(true)\<close> the same peer is refused with a TLS error when the verifier of the system's roots
  rejects its certificates.\<close>

theorem unauthenticated_by_default:
  assumes "handshake_law net time offers"
    and "tcp_connect net (h @ '':'' @ decimal (unat p)) = Inr tcp" and "resolve_name net h = Inr name"
    and "speaks_tls (offers tcp)" and "signature_ok (no_cert_verification (ring net)) (offers tcp)"
  shows "(tasks_keep_up meanwhile \<longrightarrow>
        (\<exists>c. connect_host render net h p meanwhile now = Some (Inr c) \<and> is_connected c \<and>
            connection_state c = ConnConnected)) \<and>
     (\<forall>e. connect_host render net h p meanwhile now = Some (Inl e) \<longrightarrow> e = ErrDisconnected) \<and>
     (isl (verify_cert (webpki_verifier net (root_store net)) (leaf (offers tcp)) (chain (offers tcp))
             name (staple (offers tcp)) time) \<longrightarrow>
        (\<exists>e. builder_connect render net (set_verify_tls True (builder_new h p)) meanwhile now =
           Some (Inl (ErrTls e))))"
proof (intro conjI impI allI)
  have "dial net h p False = Inr ()"
    using dial_accepted [OF assms(1-3), of False] assms(4,5)
    by (simp add: accepts_def tls_verifier_def no_cert_verification_def verify_server_cert_def)
  then have b: "connect_host render net h p meanwhile now =
      from_builder render (builder_new h p) (Inr ()) meanwhile now"
    by (simp add: connect_host_def builder_connect_def builder_new_def)
  show "\<exists>c. connect_host render net h p meanwhile now = Some (Inr c) \<and> is_connected c \<and>
      connection_state c = ConnConnected" if "tasks_keep_up meanwhile"
    using built_client [OF that, where render = render and b = "builder_new h p" and tls = "Inr ()" and now = now]
      built_client_any [where render = render and b = "builder_new h p" and tls = "Inr ()" and
        meanwhile = meanwhile and now = now]
    by (auto simp: b builder_new_def MAX_PERMITS_def is_connected_def connection_state_def
        split: option.splits sum.splits)
  show "e = ErrDisconnected" if "connect_host render net h p meanwhile now = Some (Inl e)" for e
    using that built_client_any [where render = render and b = "builder_new h p" and tls = "Inr ()" and
        meanwhile = meanwhile and now = now]
    by (simp add: b)
next
  assume "isl (verify_cert (webpki_verifier net (root_store net)) (leaf (offers tcp)) (chain (offers tcp))
          name (staple (offers tcp)) time)"
  then show "\<exists>e. builder_connect render net (set_verify_tls True (builder_new h p)) meanwhile now =
      Some (Inl (ErrTls e))"
    using dial_accepted [OF assms(1-3), of True]
    by (auto simp: accepts_def tls_verifier_def builder_connect_def set_verify_tls_def builder_new_def
        from_builder_def isl_def)
qed

text \<open>Only the certificates of the system that can be added count: one that cannot is skipped.\<close>

lemma unusable_roots_skipped:
  assumes "\<And>cert roots. isl (fst (add_root net cert roots)) \<longleftrightarrow> \<not> usable cert"
    and "\<And>cert roots. isl (fst (add_root net cert roots)) \<Longrightarrow> snd (add_root net cert roots) = roots"
  shows "root_store net = root_store (net\<lparr>native_certs := filter usable (native_certs net)\<rparr>)"
proof -
  have "foldl (\<lambda>roots cert. snd (add_root net cert roots)) roots certs =
      foldl (\<lambda>roots cert. snd (add_root net cert roots)) roots (filter usable certs)" for roots certs
    using assms by (induction certs arbitrary: roots) simp_all
  then show ?thesis by (simp add: root_store_def)
qed

text \<open>A network whose only peer presents one self-signed certificate, and a verifier without roots.\<close>

definition self_signed :: offer where
  "self_signed =
     \<lparr>speaks_tls = True, leaf = [0x30], chain = [], staple = [], transcript = [1, 2],
      signature = DigitallySigned 0x0807 [3], is_tls13 = True\<rparr>"

definition sample_ring :: crypto_provider where
  "sample_ring =
     \<lparr>provider_tls12 = \<lambda>_ _ _. Inl ''bad signature'',
      provider_tls13 = \<lambda>m c d. if m = [1, 2] \<and> c = [0x30] \<and> d = DigitallySigned 0x0807 [3] then Inr ()
        else Inl ''bad signature'',
      provider_schemes = [0x0807]\<rparr>"

definition rejecting :: verifier where
  "rejecting = (no_cert_verification sample_ring)\<lparr>verify_cert := \<lambda>_ _ _ _ _. Inl ''unknown issuer''\<rparr>"

definition lan :: "(unit, unit, der list) network" where
  "lan =
     \<lparr>tcp_connect = \<lambda>_. Inr (), native_certs = [[7], [8]], empty_roots = [],
      add_root = \<lambda>c roots. if c = [8] then (Inl ''bad encoding'', roots) else (Inr (), roots @ [c]),
      webpki_verifier = \<lambda>_. rejecting, ring = sample_ring,
      name_of_host = \<lambda>h. Inl ''invalid dns name'',
      handshake = \<lambda>v name _. if accepts v name 0 self_signed then Inr () else Inl ''invalid peer certificate''\<rparr>"

lemma lan_law: "handshake_law lan 0 (\<lambda>_. self_signed)"
  by (simp add: handshake_law_def lan_def)

lemma lan_name: "resolve_name lan (ip_text (V4 a)) = Inr (IpAddress (V4 a))"
  by (simp add: resolve_name_def lan_def ipv4_roundtrip)

lemma lan_peer: "speaks_tls self_signed" "signature_ok (no_cert_verification (ring lan)) self_signed"
  "isl (verify_cert (webpki_verifier lan roots) l ch n st t)"
  by (simp_all add: self_signed_def signature_ok_def no_cert_verification_def lan_def sample_ring_def
      verify_tls13_signature_def rejecting_def)

theorem unauthenticated_by_default_witness:
  "(\<exists>c. connect_host (\<lambda>_. []) lan (ip_text (V4 0xC0A80105)) 8009 (\<lambda>_. id) 7 = Some (Inr c) \<and> is_connected c) \<and>
   (\<exists>e. builder_connect (\<lambda>_. []) lan (set_verify_tls True (builder_new (ip_text (V4 0xC0A80105)) 8009))
      (\<lambda>_. id) 7 = Some (Inl (ErrTls e)))"
proof -
  have "tcp_connect lan (ip_text (V4 0xC0A80105) @ '':'' @ decimal (unat (8009 :: u16))) = Inr ()"
    by (simp add: lan_def)
  from unauthenticated_by_default [where net = lan, OF lan_law this lan_name lan_peer(1,2),
      of "\<lambda>_. id" "\<lambda>_. []" 7] lan_peer(3)
  show ?thesis by auto
qed

text \<open>C25. A verified client stays verified. A client built with \<open>verify_tls(true)\<close> that lost its connection
  later, its configuration being what it was, does not come back to a peer whose certificates the
  system's roots reject: \<open>reconnect\<close> dials the host and port it was built with and returns a TLS
  error; it has announced the attempt and stopped the old tasks, and whatever the rest of the program
  does while it dials is all that happens after that: no task is started and the client is not
  brought back.\<close>

theorem verified_client_stays_verified:
  assumes "builder_connect render net0 b meanwhile now0 = Some (Inr c0)" and "verify_tls b"
    and "config c = config c0" and "\<not> shutting_down c" and "\<not> alive (others AfterFlag c)"
    and "handshake_law net time offers"
    and "tcp_connect net (host b @ '':'' @ decimal (unat (port b))) = Inr tcp"
    and "resolve_name net (host b) = Inr name"
    and "isl (verify_cert (webpki_verifier net (root_store net)) (leaf (offers tcp)) (chain (offers tcp))
           name (staple (offers tcp)) time)"
  shows "\<exists>e. reconnect_over render net others now c = (Inl (ErrTls e), reconnecting 1 others c)"
proof -
  have "config c = config_of b"
    using assms(1,3) built_client_any [where render = render and b = b and now = now0 and meanwhile = meanwhile
      and tls = "dial net0 (host b) (port b) (verify_tls b)"]
    by (simp add: builder_connect_def)
  moreover obtain e where "dial net (host b) (port b) True = Inl (ErrTls e)"
    using dial_accepted [OF assms(6-8), of True] assms(9)
    by (auto simp: accepts_def tls_verifier_def isl_def)
  ultimately show ?thesis
    using assms(2) reconnect_dialed [where others = others, OF assms(4,5)]
    by (simp add: reconnect_over_def reconnect_def config_of_def)
qed

theorem verified_client_stays_verified_witness:
  "\<exists>c e. config c = config_of (set_verify_tls True (builder_new (ip_text (V4 0xC0A80105)) 8009)) \<and>
     fst (reconnect_over (\<lambda>_. []) lan (\<lambda>_. id) 9 (c\<lparr>alive := False\<rparr>)) = Inl (ErrTls e)"
proof -
  let ?b = "set_verify_tls True (builder_new (ip_text (V4 0xC0A80105)) 8009)"
  let ?trusting = "lan\<lparr>webpki_verifier := \<lambda>_. no_cert_verification sample_ring\<rparr>"
  have b: "host ?b = ip_text (V4 0xC0A80105)" "port ?b = 8009" "verify_tls ?b" "event_buffer_size ?b = 64"
    by (simp_all add: set_verify_tls_def builder_new_def)
  have "dial ?trusting (host ?b) (port ?b) (verify_tls ?b) = Inr ()"
    using lan_peer(1,2)
    by (simp add: b dial_def connect_def lan_def resolve_name_def ipv4_roundtrip tls_verifier_def
        accepts_def no_cert_verification_def verify_server_cert_def)
  then obtain c0 where c0: "builder_connect (\<lambda>_. []) ?trusting ?b (\<lambda>_. id) 7 = Some (Inr c0)"
    "config c0 = config_of ?b" "\<not> shutting_down c0"
    using built_client [where render = "\<lambda>_. []" and b = ?b and tls = "Inr ()" and now = 7,
        OF tasks_keep_up_id(1)]
      built_client_any [where render = "\<lambda>_. []" and b = ?b and tls = "Inr ()" and now = 7 and meanwhile = "\<lambda>_. id"]
    by (auto simp: builder_connect_def b MAX_PERMITS_def split: option.splits sum.splits)
  have "tcp_connect lan (host ?b @ '':'' @ decimal (unat (port ?b))) = Inr ()"
    by (simp add: lan_def)
  moreover have "resolve_name lan (host ?b) = Inr (IpAddress (V4 0xC0A80105))"
    by (simp add: b lan_name)
  ultimately show ?thesis
    using verified_client_stays_verified [where net = lan and others = "\<lambda>_. id" and
        now = 9 and c = "c0\<lparr>alive := False\<rparr>", OF c0(1) b(3) _ _ _ lan_law _ _ lan_peer(3)] c0(2,3)
    by fastforce
qed

end
