(* ===== verification/Discovery.thy ===== *)
theory Discovery
  imports State
begin

text \<open>
  \<open>discovery.rs\<close>: the search for devices, as a list (\<open>discover_blocking\<close>) and as a stream
  (\<open>discover_streaming\<close>). The mDNS daemon (\<open>mdns_sd\<close>) is a parameter: the outcome of starting it and
  of browsing, and, round by round, the time read at the head of the loop with what the receiver gave.
\<close>

section \<open>What the daemon reports\<close>

text \<open>The IPv4 addresses in the order they are iterated; an error is the text \<open>{:?}\<close> prints.\<close>

record service_info =
  si_fullname :: string
  si_port :: u16
  si_addresses_v4 :: "u32 list"
  si_property :: "string \<Rightarrow> string option"

datatype service_event = ServiceResolved service_info | OtherEvent

type_synonym received = "string + service_event"

definition resolved_device :: "service_info \<Rightarrow> ip_addr \<Rightarrow> device_info" where
  "resolved_device info ip =
     \<lparr>dev_name = unwrap_or (si_fullname info) (si_property info ''fn''), dev_ip = ip,
      dev_port = si_port info, dev_model = si_property info ''md'', dev_uuid = si_property info ''id''\<rparr>"

section \<open>The search as a list\<close>

text \<open>The loop: whether it has ended, and the devices found.\<close>

fun blocking_loop ::
    "nat \<Rightarrow> ip_addr set \<Rightarrow> device_info list \<Rightarrow> (nat \<times> received) list \<Rightarrow> bool \<times> device_info list" where
  "blocking_loop deadline seen devices [] = (False, devices)"
| "blocking_loop deadline seen devices ((now, r) # rs) =
     (if now < deadline then
        (case r of
           Inr (ServiceResolved info) \<Rightarrow>
             (case si_addresses_v4 info of
                [] \<Rightarrow> blocking_loop deadline seen devices rs
              | addr # _ \<Rightarrow>
                  (let ip = V4 addr
                   in if ip \<in> seen then blocking_loop deadline seen devices rs
                      else blocking_loop deadline (insert ip seen)
                             (devices @ [resolved_device info ip]) rs))
         | Inr OtherEvent \<Rightarrow> blocking_loop deadline seen devices rs
         | Inl err \<Rightarrow>
             if str_contains ''Timeout'' err then blocking_loop deadline seen devices rs
             else (True, devices))
      else (True, devices))"

definition mdns_browse :: "string + unit \<Rightarrow> string + unit \<Rightarrow> error + unit" where
  "mdns_browse daemon browse =
     (case daemon of
        Inl e \<Rightarrow> Inl (ErrDiscovery (''mDNS daemon: '' @ e))
      | Inr _ \<Rightarrow>
          (case browse of Inl e \<Rightarrow> Inl (ErrDiscovery (''mDNS browse: '' @ e)) | Inr _ \<Rightarrow> Inr ()))"

text \<open>\<open>start\<close> is when the search begins; \<open>None\<close> while it runs.\<close>

definition discover_blocking ::
    "string + unit \<Rightarrow> string + unit \<Rightarrow> nat \<Rightarrow> duration \<Rightarrow> (nat \<times> received) list
      \<Rightarrow> (error + device_info list) option" where
  "discover_blocking daemon browse start window rs =
     (case mdns_browse daemon browse of
        Inl e \<Rightarrow> Some (Inl e)
      | Inr _ \<Rightarrow>
          (case blocking_loop (start + window) {} [] rs of
             (True, devices) \<Rightarrow> Some (Inr devices)
           | (False, _) \<Rightarrow> None))"

text \<open>\<open>discover_devices\<close> runs it on a thread of its own; joining the thread fails when it panics.\<close>

definition discover_devices :: "string + (error + device_info list) \<Rightarrow> error + device_info list" where
  "discover_devices joined =
     (case joined of Inl e \<Rightarrow> Inl (ErrDiscovery (''discovery task: '' @ e)) | Inr r \<Rightarrow> r)"

section \<open>The search as a stream\<close>

text \<open>What the holder of the stream does between two rounds: it receives some devices, or drops the
  stream. When the channel is full, \<open>blocking_send\<close> waits: the device is parked in it, and the next
  round's clock tells how long. The first component of the state are the devices it has received.\<close>

datatype consumer = Takes nat | Drops

fun take_devices ::
    "nat \<Rightarrow> device_info list \<times> device_info chan \<Rightarrow> device_info list \<times> device_info chan" where
  "take_devices 0 st = st"
| "take_devices (Suc n) (got, ch) =
     (case chan_recv ch of
        (Item d, ch') \<Rightarrow> take_devices n (got @ [d], ch')
      | _ \<Rightarrow> (got, ch))"

fun consume ::
    "consumer \<Rightarrow> device_info list \<times> device_info chan \<Rightarrow> device_info list \<times> device_info chan" where
  "consume (Takes n) (got, ch) = (if rx_held ch then take_devices n (got, ch) else (got, ch))"
| "consume Drops (got, ch) = (got, ch\<lparr>rx_held := False\<rparr>)"

definition STREAM_CAPACITY :: nat where "STREAM_CAPACITY = 32"

definition end_stream ::
    "device_info list \<times> device_info chan \<Rightarrow> bool \<times> device_info list \<times> device_info chan" where
  "end_stream st = (case st of (got, ch) \<Rightarrow> (True, got, ch\<lparr>tx_held := False\<rparr>))"

fun discover_streaming ::
    "nat \<Rightarrow> ip_addr set \<Rightarrow> (nat \<times> received \<times> consumer) list \<Rightarrow> device_info list \<times> device_info chan
      \<Rightarrow> bool \<times> device_info list \<times> device_info chan" where
  "discover_streaming deadline seen [] st = (False, st)"
| "discover_streaming deadline seen ((now, r, user) # rs) st0 =
     (let st = consume user st0
      in if now < deadline then
        (case r of
           Inr (ServiceResolved info) \<Rightarrow>
             (case si_addresses_v4 info of
                [] \<Rightarrow> discover_streaming deadline seen rs st
              | addr # _ \<Rightarrow>
                  (let ip = V4 addr
                   in if ip \<in> seen then discover_streaming deadline seen rs st
                      else
                        (case chan_send (resolved_device info ip) (snd st) of
                           (Refused, ch) \<Rightarrow> end_stream (fst st, ch)
                         | (_, ch) \<Rightarrow>
                             discover_streaming deadline (insert ip seen) rs (fst st, ch))))
         | Inr OtherEvent \<Rightarrow> discover_streaming deadline seen rs st
         | Inl err \<Rightarrow>
             if str_contains ''Timeout'' err then discover_streaming deadline seen rs st
             else end_stream st)
      else end_stream st)"

definition discover ::
    "string + unit \<Rightarrow> string + unit \<Rightarrow> nat \<Rightarrow> duration \<Rightarrow> (nat \<times> received \<times> consumer) list
      \<Rightarrow> error + (bool \<times> device_info list \<times> device_info chan)" where
  "discover daemon browse start window rs =
     (case mdns_browse daemon browse of
        Inl e \<Rightarrow> Inl e
      | Inr _ \<Rightarrow> Inr (discover_streaming (start + window) {} rs ([], channel STREAM_CAPACITY)))"

section \<open>Announcements\<close>

text \<open>The specification: the rounds before the search ends, and the devices they announce, each with
  the address it is told apart by. A device is named by its friendly name, \<open>fn\<close>, or else by its full
  name; \<open>md\<close> is its model and \<open>id\<close> its identifier. Of its addresses only the first counts.\<close>

definition goes_on :: "nat \<Rightarrow> nat \<times> received \<Rightarrow> bool" where
  "goes_on deadline = (\<lambda>(now, r). now < deadline \<and> (case r of Inl e \<Rightarrow> str_contains ''Timeout'' e | _ \<Rightarrow> True))"

definition announces :: "nat \<times> received \<Rightarrow> (ip_addr \<times> device_info) option" where
  "announces = (\<lambda>(now, r). case r of
     Inr (ServiceResolved info) \<Rightarrow>
       (case si_addresses_v4 info of
          [] \<Rightarrow> None
        | a # _ \<Rightarrow>
            Some (V4 a,
              \<lparr>dev_name = (case si_property info ''fn'' of Some n \<Rightarrow> n | None \<Rightarrow> si_fullname info),
               dev_ip = V4 a, dev_port = si_port info,
               dev_model = si_property info ''md'', dev_uuid = si_property info ''id''\<rparr>))
   | _ \<Rightarrow> None)"

lemma announces_resolved:
  "announces (now, Inr (ServiceResolved info)) =
     (case si_addresses_v4 info of [] \<Rightarrow> None | a # _ \<Rightarrow> Some (V4 a, resolved_device info (V4 a)))"
  "announces (now, Inr OtherEvent) = None" "announces (now, Inl e) = None"
  by (simp_all add: announces_def resolved_device_def unwrap_or_def split: list.split option.split)

definition announced :: "nat \<Rightarrow> (nat \<times> received) list \<Rightarrow> (ip_addr \<times> device_info) list" where
  "announced deadline rs = List.map_filter announces (takeWhile (goes_on deadline) rs)"

lemma announced_simps [simp]:
  "announced deadline [] = []"
  "announced deadline (x # rs) =
     (if goes_on deadline x
      then (case announces x of None \<Rightarrow> announced deadline rs | Some a \<Rightarrow> a # announced deadline rs)
      else [])"
  by (simp_all add: announced_def split: option.split)

text \<open>The first announcement of each address outside \<open>seen\<close>.\<close>

fun firsts :: "ip_addr set \<Rightarrow> (ip_addr \<times> device_info) list \<Rightarrow> device_info list" where
  "firsts seen [] = []"
| "firsts seen ((ip, d) # xs) = (if ip \<in> seen then firsts seen xs else d # firsts (insert ip seen) xs)"

lemma blocking_loop_firsts:
  "blocking_loop deadline seen devices rs =
     (\<not> list_all (goes_on deadline) rs, devices @ firsts seen (announced deadline rs))"
proof (induction rs arbitrary: seen devices)
  case (Cons x rs)
  obtain now r where x: "x = (now, r)" by (cases x)
  show ?case
    using Cons.IH
    by (auto simp: x goes_on_def announced_def announces_resolved Let_def
        split: sum.split service_event.split list.split)
qed (simp add: announced_def)

lemma firsts_spec:
  assumes "\<forall>(ip, d) \<in> set xs. dev_ip d = ip"
  shows "distinct (map dev_ip (firsts seen xs)) \<and> dev_ip ` set (firsts seen xs) \<inter> seen = {} \<and>
     (\<forall>ip. ip \<notin> seen \<longrightarrow> map_of (map (\<lambda>d. (dev_ip d, d)) (firsts seen xs)) ip = map_of xs ip)"
  using assms
proof (induction xs arbitrary: seen)
  case (Cons x xs)
  obtain ip d where x: "x = (ip, d)" by (cases x)
  show ?case
  proof (cases "ip \<in> seen")
    case True
    with Cons show ?thesis by (auto simp: x)
  next
    case False
    with Cons.IH [of "insert ip seen"] Cons.prems show ?thesis by (auto simp: x)
  qed
qed simp

lemma announced_ip: "\<forall>(ip, d) \<in> set (announced deadline rs). dev_ip d = ip"
  by (auto simp: announced_def announces_def set_map_filter
      split: sum.splits service_event.splits list.splits)

section \<open>The stream\<close>

text \<open>What was sent so far: what the holder has received and what is still in the channel.\<close>

fun sent :: "device_info list \<times> device_info chan \<Rightarrow> device_info list" where
  "sent (got, ch) = got @ buf ch"

abbreviation rounds :: "(nat \<times> received \<times> consumer) list \<Rightarrow> (nat \<times> received) list" where
  "rounds rs \<equiv> map (\<lambda>(now, r, user). (now, r)) rs"

lemma take_devices_frame [simp]:
  "sent (take_devices n st) = sent st" "rx_held (snd (take_devices n st)) = rx_held (snd st)"
  "tx_held (snd (take_devices n st)) = tx_held (snd st)"
  by (induction n st rule: take_devices.induct)
    (auto simp: chan_recv_def split: recv.splits list.splits prod.splits)

lemma consume_frame [simp]:
  "sent (consume u st) = sent st" "tx_held (snd (consume u st)) = tx_held (snd st)"
  "rx_held (snd (consume u st)) \<longleftrightarrow> rx_held (snd st) \<and> u \<noteq> Drops"
  by (cases u; cases st; simp; fail)+

lemma end_stream_frame [simp]:
  "fst (end_stream st)" "sent (snd (end_stream st)) = sent st"
  "\<not> tx_held (snd (snd (end_stream st)))"
  by (simp_all add: end_stream_def split: prod.split)

lemma chan_send_sent:
  "(case chan_send d (snd st) of (Refused, ch) \<Rightarrow> end_stream (fst st, ch) | (_, ch) \<Rightarrow> f ch) =
     (if rx_held (snd st) then f ((snd st)\<lparr>buf := buf (snd st) @ [d]\<rparr>) else end_stream st)"
  by (simp add: chan_send_def)

text \<open>One round, with the two ways it can go on.\<close>

lemma streaming_round:
  "discover_streaming deadline seen ((now, r, user) # rs) st0 =
     (let st = consume user st0
      in if \<not> goes_on deadline (now, r) then end_stream st
         else case announces (now, r) of
           Some (ip, d) \<Rightarrow>
             (if ip \<in> seen then discover_streaming deadline seen rs st
              else if rx_held (snd st) then
                discover_streaming deadline (insert ip seen) rs
                  (fst st, (snd st)\<lparr>buf := buf (snd st) @ [d]\<rparr>)
              else end_stream st)
         | None \<Rightarrow> discover_streaming deadline seen rs st)"
  by (simp add: goes_on_def announces_resolved Let_def chan_send_sent
      split: sum.split service_event.split list.split)

lemma sent_fold: "fst st @ buf (snd st) = sent st" "fst st @ buf (snd st) @ xs = sent st @ xs"
  by (cases st; simp)+

lemma streaming_sends:
  assumes "rx_held (snd st)" and "\<forall>x \<in> set rs. snd (snd x) \<noteq> Drops"
  shows "sent (snd (discover_streaming deadline seen rs st)) =
       sent st @ firsts seen (announced deadline (rounds rs)) \<and>
     fst (discover_streaming deadline seen rs st) = (\<not> list_all (goes_on deadline) (rounds rs))"
  using assms
proof (induction rs arbitrary: seen st)
  case (Cons x rs)
  obtain now r u where x: "x = (now, r, u)" by (cases x)
  have rx: "rx_held (snd (consume u st))" using Cons.prems by (simp add: x)
  have drops: "\<forall>x \<in> set rs. snd (snd x) \<noteq> Drops" using Cons.prems(2) by simp
  show ?case
    using rx Cons.IH [OF _ drops]
    by (simp add: x streaming_round Let_def sent_fold del: discover_streaming.simps
        split: option.split)
qed simp

lemma streaming_prefix:
  "prefix (sent (snd (discover_streaming deadline seen rs st)))
     (sent st @ firsts seen (announced deadline (rounds rs)))"
proof (induction rs arbitrary: seen st)
  case (Cons x rs)
  obtain now r u where x: "x = (now, r, u)" by (cases x)
  show ?case
    using Cons.IH [of _ "consume u st"]
      Cons.IH [of _ "(fst (consume u st), (snd (consume u st))\<lparr>buf := buf (snd (consume u st)) @ [d]\<rparr>)" for d]
    by (simp add: x streaming_round Let_def sent_fold del: discover_streaming.simps
        split: option.split)
qed simp

lemma streaming_closes:
  "fst (discover_streaming deadline seen rs st) \<Longrightarrow>
     \<not> tx_held (snd (snd (discover_streaming deadline seen rs st)))"
proof (induction rs arbitrary: seen st)
  case (Cons x rs)
  obtain now r u where x: "x = (now, r, u)" by (cases x)
  show ?case
    using Cons.IH [of _ "consume u st"] Cons.IH [of _ "(fst (consume u st), c)" for c] Cons.prems
    by (auto simp: x streaming_round Let_def simp del: discover_streaming.simps
        split: option.splits if_splits prod.splits)
qed simp

section \<open>Correctness\<close>

text \<open>C22. Each device is found once, as it was first announced. When the daemon starts and browses, the
  search ends at the first round whose clock has reached the deadline or that fails otherwise than
  by a timeout, and the list has exactly one device for each IPv4 address that came first in an
  announcement before, with the name (the \<open>fn\<close> property, or else the full name), the port, the model
  (\<open>md\<close>) and the identifier (\<open>id\<close>) of its first announcement; otherwise the error says which step
  failed. The further addresses of an announcement do not count.\<close>

theorem devices_found:
  "case discover_blocking daemon browse start window rs of
     None \<Rightarrow> daemon = Inr () \<and> browse = Inr () \<and> list_all (goes_on (start + window)) rs
   | Some (Inl e) \<Rightarrow>
       (\<exists>m. daemon = Inl m \<and> e = ErrDiscovery (''mDNS daemon: '' @ m) \<or>
            daemon = Inr () \<and> browse = Inl m \<and> e = ErrDiscovery (''mDNS browse: '' @ m))
   | Some (Inr devices) \<Rightarrow>
       daemon = Inr () \<and> browse = Inr () \<and> \<not> list_all (goes_on (start + window)) rs \<and>
       distinct (map dev_ip devices) \<and>
       (\<forall>ip. map_of (map (\<lambda>d. (dev_ip d, d)) devices) ip = map_of (announced (start + window) rs) ip)"
  using firsts_spec [OF announced_ip, of "{}" "start + window" rs]
  by (auto simp: discover_blocking_def mdns_browse_def blocking_loop_firsts
      split: option.splits sum.splits bool.splits)

text \<open>A television announced twice, with a second address.\<close>

definition tv_info :: "string \<Rightarrow> service_info" where
  "tv_info m =
     \<lparr>si_fullname = ''tv._googlecast'', si_port = 8009, si_addresses_v4 = [1, 2],
      si_property = [''fn'' \<mapsto> ''Living room'', ''md'' \<mapsto> m, ''id'' \<mapsto> ''7f'']\<rparr>"

theorem devices_found_witness:
  "\<exists>devices. discover_blocking (Inr ()) (Inr ()) 0 5
      [(1, Inr (ServiceResolved (tv_info ''TV 1''))), (2, Inr (ServiceResolved (tv_info ''TV 2''))), (6, Inr OtherEvent)] =
        Some (Inr devices) \<and> distinct (map dev_ip devices) \<and>
     map_of (map (\<lambda>d. (dev_ip d, d)) devices) =
       [V4 1 \<mapsto> \<lparr>dev_name = ''Living room'', dev_ip = V4 1, dev_port = 8009, dev_model = Some ''TV 1'',
                dev_uuid = Some ''7f''\<rparr>]"
proof -
  let ?rs = "[(1, Inr (ServiceResolved (tv_info ''TV 1''))), (2, Inr (ServiceResolved (tv_info ''TV 2''))),
      (6, Inr OtherEvent)] :: (nat \<times> received) list"
  let ?tv = "\<lparr>dev_name = ''Living room'', dev_ip = V4 1, dev_port = 8009, dev_model = Some ''TV 1'',
      dev_uuid = Some ''7f''\<rparr>"
  have ann: "announced 5 ?rs = [(V4 1, ?tv), (V4 1, ?tv\<lparr>dev_model := Some ''TV 2''\<rparr>)]"
    by (simp add: goes_on_def announces_def tv_info_def)
  obtain devices where d: "discover_blocking (Inr ()) (Inr ()) 0 5 ?rs = Some (Inr devices)"
    by (auto simp: discover_blocking_def mdns_browse_def blocking_loop_firsts goes_on_def)
  with devices_found [of "Inr ()" "Inr ()" 0 5 ?rs] ann show ?thesis
    by (simp del: announced_simps add: fun_eq_iff)
qed

text \<open>C21. The stream delivers what the list would hold. Fed with the same rounds, whatever the holder of
  the stream takes in between, what it has received and what waits in the channel is exactly the
  list of \<open>discover_blocking\<close>, in order, once the search has ended, and then the channel is closed, so
  the holder reads \<open>None\<close> after the last device; a stream that is dropped meanwhile got a first part of
  the list.\<close>

theorem stream_delivers_list:
  assumes "discover daemon browse start window rs = Inr (ended, got, ch)"
    and "discover_blocking daemon browse start window (rounds rs) = Some (Inr devices)"
  shows "prefix (got @ buf ch) devices \<and> (ended \<longrightarrow> \<not> tx_held ch) \<and>
     ((\<forall>x \<in> set rs. snd (snd x) \<noteq> Drops) \<longrightarrow> ended \<and> got @ buf ch = devices)"
proof -
  let ?st = "([], channel STREAM_CAPACITY) :: device_info list \<times> device_info chan"
  have d: "devices = firsts {} (announced (start + window) (rounds rs))"
    "\<not> list_all (goes_on (start + window)) (rounds rs)"
    using assms(2) by (auto simp: discover_blocking_def blocking_loop_firsts
        split: sum.splits bool.splits)
  have st: "sent ?st = []" "rx_held (snd ?st)" by (simp_all add: channel_def)
  have r: "discover_streaming (start + window) {} rs ?st = (ended, got, ch)"
    using assms(1) by (auto simp: discover_def split: sum.splits)
  show ?thesis
    using streaming_prefix [of "start + window" "{}" rs ?st] streaming_closes [of "start + window" "{}" rs ?st]
      streaming_sends [OF st(2), of rs "start + window" "{}"]
    unfolding r st(1) using d by auto
qed

text \<open>Two announcements of one device, one of another, and the end of the time.\<close>

definition sample_info :: "string \<Rightarrow> u32 \<Rightarrow> service_info" where
  "sample_info name a = \<lparr>si_fullname = name, si_port = 8009, si_addresses_v4 = [a], si_property = Map.empty\<rparr>"

definition sample_rounds :: "(nat \<times> received \<times> consumer) list" where
  "sample_rounds =
     [(0, Inr (ServiceResolved (sample_info ''tv'' 1)), Takes 0),
      (1, Inl ''Timeout'', Takes 1), (2, Inr (ServiceResolved (sample_info ''tv again'' 1)), Takes 1),
      (3, Inr (ServiceResolved (sample_info ''audio'' 2)), Takes 0), (9, Inr OtherEvent, Takes 0)]"

theorem stream_delivers_list_witness:
  "\<exists>got ch. discover (Inr ()) (Inr ()) 0 5 sample_rounds = Inr (True, got, ch) \<and>
     map dev_name (got @ buf ch) = [''tv'', ''audio''] \<and> \<not> tx_held ch"
proof -
  let ?ds = "[resolved_device (sample_info ''tv'' 1) (V4 1), resolved_device (sample_info ''audio'' 2) (V4 2)]"
  obtain ended got ch where r: "discover (Inr ()) (Inr ()) 0 5 sample_rounds = Inr (ended, got, ch)"
    by (cases "discover_streaming 5 {} sample_rounds ([], channel STREAM_CAPACITY)")
      (auto simp: discover_def mdns_browse_def)
  have l: "discover_blocking (Inr ()) (Inr ()) 0 5 (rounds sample_rounds) = Some (Inr ?ds)"
    by (simp add: discover_blocking_def mdns_browse_def sample_rounds_def sample_info_def)
  have "\<forall>x \<in> set sample_rounds. snd (snd x) \<noteq> Drops" by (simp add: sample_rounds_def)
  with stream_delivers_list [OF r l] have "ended \<and> got @ buf ch = ?ds \<and> \<not> tx_held ch" by blast
  moreover have "map dev_name ?ds = [''tv'', ''audio'']"
    by (simp add: resolved_device_def sample_info_def)
  ultimately show ?thesis using r by metis
qed

end
