(* ===== verification/Examples.thy ===== *)
theory Examples
  imports Connection Discovery "HOL-Library.State_Monad"
begin

text \<open>
  The programs of \<open>src/examples\<close>, as compositions of the client's operations. What they print is left
  out, except the events and statuses they report, which are results here.
\<close>

section \<open>Surroundings\<close>

text \<open>The environment variables; the wait of the \<open>k\<close>-th request and of the \<open>k\<close>-th sleep; the clock and
  the rounds of \<open>launch_app\<close>; the rounds of an event loop until its timer or Ctrl+C; whether the farewell
  of \<open>disconnect\<close> is in time; what the tasks do while the client is connected, and the clock then.\<close>

record surroundings =
  ex_var :: "string \<Rightarrow> string option"
  ex_wait :: "nat \<Rightarrow> await"
  ex_sleep :: "nat \<Rightarrow> client \<Rightarrow> client"
  ex_launched :: nat
  ex_launch_rounds :: "(nat \<times> (client \<Rightarrow> client)) list"
  ex_rounds :: "(client \<Rightarrow> client) list"
  ex_in_time :: bool
  ex_meanwhile :: "gap \<Rightarrow> shared \<Rightarrow> shared"
  ex_now :: nat

datatype 'a ending = Panics | Exits nat | Returns "error + 'a"

text \<open>A sleep, a result that is dropped with \<open>.ok()\<close>, and the client of a connection that must
  succeed.\<close>

definition sleep :: "(client \<Rightarrow> client) \<Rightarrow> unit io" where "sleep f c = (Inr (), f c)"

definition dropped :: "'a io \<Rightarrow> unit io" where "dropped m c = (Inr (), snd (m c))"

definition with_client ::
    "(error + client) option \<Rightarrow> 'a io \<Rightarrow> 'a ending \<times> client option" where
  "with_client connected body =
     (case connected of
        None \<Rightarrow> (Panics, None)
      | Some (Inl e) \<Rightarrow> (Returns (Inl e), None)
      | Some (Inr c) \<Rightarrow> (case body c of (r, c') \<Rightarrow> (Returns r, Some c')))"

definition launch_receiver :: "render \<Rightarrow> surroundings \<Rightarrow> nat \<Rightarrow> application io" where
  "launch_receiver render s k =
     launch_app render DefaultMediaReceiver (ex_wait s k) (ex_launched s) (ex_launch_rounds s)"

definition buffered_media :: "string \<Rightarrow> string \<Rightarrow> media_info" where
  "buffered_media url ctype = media_info_stream_type (media_info_new url ctype) Buffered"

text \<open>\<open>tokio::select!\<close> over \<open>next_event\<close> and a timer: the events taken until the timer fires, or up to
  the first one that breaks the loop. When the stream has ended only the timer is left to wait for.\<close>

fun listen :: "(cast_event \<Rightarrow> bool) \<Rightarrow> (client \<Rightarrow> client) list \<Rightarrow> client \<Rightarrow> cast_event list \<times> client" where
  "listen breaks [] c = ([], c)"
| "listen breaks (f # fs) c =
     (case next_event (f c) of
        (Item e, c1) \<Rightarrow>
          (if breaks e then ([e], c1) else (case listen breaks fs c1 of (es, c2) \<Rightarrow> (e # es, c2)))
      | (_, c1) \<Rightarrow> listen breaks fs c1)"

definition listening :: "(cast_event \<Rightarrow> bool) \<Rightarrow> (client \<Rightarrow> client) list \<Rightarrow> cast_event list io" where
  "listening breaks fs c = (case listen breaks fs c of (es, c1) \<Rightarrow> (Inr es, c1))"

text \<open>\<open>u16::from_str\<close>, and the port of \<open>CAST_PORT\<close>.\<close>

definition parse_u16 :: "string \<Rightarrow> u16 option" where
  "parse_u16 s =
     Option.bind (parse_u64 s) (\<lambda>n. if unat n < 65536 then Some (ucast n) else None)"

definition cast_port :: "surroundings \<Rightarrow> u16" where
  "cast_port s = unwrap_or 8009 (Option.bind (ex_var s ''CAST_PORT'') parse_u16)"

section \<open>\<open>media_control\<close>\<close>

text \<open>The statuses the watch shows after each of the sleeps.\<close>

fun watch_statuses :: "(client \<Rightarrow> client) list \<Rightarrow> client \<Rightarrow> media_status list \<times> client" where
  "watch_statuses [] c = ([], c)"
| "watch_statuses (f # fs) c =
     (case watch_statuses fs (f c) of (shown, c') \<Rightarrow>
        ((case watch_media_status (f c) of Some st \<Rightarrow> [st] | None \<Rightarrow> []) @ shown, c'))"

definition watching :: "(client \<Rightarrow> client) list \<Rightarrow> media_status list io" where
  "watching fs c = (case watch_statuses fs c of (shown, c') \<Rightarrow> (Inr shown, c'))"

definition media_control_body :: "render \<Rightarrow> surroundings \<Rightarrow> string \<Rightarrow> media_status list io" where
  "media_control_body render s url =
     bind_io (launch_receiver render s 0) (\<lambda>_.
     bind_io (load_media render (buffered_media url ''video/mp4'') True 0 None (ex_wait s 1)) (\<lambda>_.
     bind_io (sleep (ex_sleep s 0)) (\<lambda>_.
     bind_io (pause render (ex_wait s 2)) (\<lambda>_.
     bind_io (sleep (ex_sleep s 1)) (\<lambda>_.
     bind_io (seek render 0x403E000000000000 (ex_wait s 3)) (\<lambda>_. \<comment> \<open>\<open>30.0\<close>\<close>
     bind_io (sleep (ex_sleep s 2)) (\<lambda>_.
     bind_io (set_volume render 0x3F000000 (ex_wait s 4)) (\<lambda>_. \<comment> \<open>\<open>0.5\<close>\<close>
     bind_io (play render (ex_wait s 5)) (\<lambda>_.
     bind_io (watching (map (ex_sleep s) [3..<8])) (\<lambda>shown.
     bind_io (dropped (stop_media render (ex_wait s 6))) (\<lambda>_.
     bind_io (disconnect render (ex_in_time s) (ex_wait s 7)) (\<lambda>_.
       lift (Inr shown)))))))))))))"

definition media_control ::
    "render \<Rightarrow> ('tcp, 'tls, 'roots) network \<Rightarrow> surroundings \<Rightarrow> media_status list ending \<times> client option" where
  "media_control render net s =
     (case (ex_var s ''CAST_IP'', ex_var s ''CAST_URL'') of
        (Some ip, Some url) \<Rightarrow>
          with_client (connect_host render net ip 8009 (ex_meanwhile s) (ex_now s)) (media_control_body render s url)
      | _ \<Rightarrow> (Panics, None))"

section \<open>\<open>custom_namespace\<close>\<close>

definition raw_shown :: "cast_event list \<Rightarrow> (string \<times> string) list" where
  "raw_shown es =
     List.map_filter (\<lambda>e. case e of EvRawMessage ns _ _ p \<Rightarrow> Some (ns, p) | _ \<Rightarrow> None) es"

definition custom_namespace_body :: "render \<Rightarrow> surroundings \<Rightarrow> (string \<times> string) list io" where
  "custom_namespace_body render s =
     bind_io (Client.receiver_status render (ex_wait s 0)) (\<lambda>st.
       case rs_applications st of
         [] \<Rightarrow> bind_io (disconnect render (ex_in_time s) (ex_wait s 1)) (\<lambda>_. lift (Inr []))
       | app # _ \<Rightarrow>
           bind_io (send_raw_no_reply render ''urn:x-cast:com.google.cast.debugoverlay''
             (app_transport_id app) (jobj [(''type'', String ''SHOW'')])) (\<lambda>_.
           bind_io (listening (\<lambda>_. False) (ex_rounds s)) (\<lambda>es.
           bind_io (disconnect render (ex_in_time s) (ex_wait s 1)) (\<lambda>_.
             lift (Inr (raw_shown es))))))"

definition custom_namespace ::
    "render \<Rightarrow> ('tcp, 'tls, 'roots) network \<Rightarrow> surroundings \<Rightarrow> (string \<times> string) list ending \<times> client option" where
  "custom_namespace render net s =
     (case ex_var s ''CAST_IP'' of
        Some ip \<Rightarrow>
          with_client (connect_host render net ip 8009 (ex_meanwhile s) (ex_now s)) (custom_namespace_body render s)
      | None \<Rightarrow> (Panics, None))"

section \<open>\<open>event_monitor\<close>\<close>

text \<open>The rounds end with Ctrl+C. Every event of the crate's enum has its line.\<close>

definition event_monitor_body :: "render \<Rightarrow> surroundings \<Rightarrow> cast_event list io" where
  "event_monitor_body render s =
     bind_io (Client.receiver_status render (ex_wait s 0)) (\<lambda>_.
     bind_io (listening (\<lambda>_. False) (ex_rounds s)) (\<lambda>es.
     bind_io (disconnect render (ex_in_time s) (ex_wait s 1)) (\<lambda>_.
       lift (Inr es))))"

definition event_monitor ::
    "render \<Rightarrow> ('tcp, 'tls, 'roots) network \<Rightarrow> surroundings \<Rightarrow> cast_event list ending \<times> client option" where
  "event_monitor render net s =
     (case ex_var s ''CAST_IP'' of
        Some ip \<Rightarrow>
          with_client (connect_host render net ip (cast_port s) (ex_meanwhile s) (ex_now s)) (event_monitor_body render s)
      | None \<Rightarrow> (Panics, None))"

section \<open>\<open>discover_and_play\<close>\<close>

text \<open>Stopping what runs, whatever the device answers.\<close>

fun stop_stale :: "render \<Rightarrow> (nat \<Rightarrow> await) \<Rightarrow> application list \<Rightarrow> nat \<Rightarrow> unit io" where
  "stop_stale render wait [] k = lift (Inr ())"
| "stop_stale render wait (app # apps) k =
     bind_io (dropped (stop_app render (app_session_id app) (wait k)))
       (\<lambda>_. stop_stale render wait apps (Suc k))"

definition clean_up :: "render \<Rightarrow> surroundings \<Rightarrow> unit io" where
  "clean_up render s c =
     (if is_connected c then
        bind_io (dropped (stop_media render (ex_wait s 3)))
          (\<lambda>_. disconnect render (ex_in_time s) (ex_wait s 4)) c
      else (Inr (), c))"

definition discover_and_play_body :: "render \<Rightarrow> surroundings \<Rightarrow> cast_event list io" where
  "discover_and_play_body render s =
     (let url = unwrap_or ''https://media.w3.org/2010/05/sintel/trailer_hd.mp4'' (ex_var s ''CAST_URL'');
          ctype = unwrap_or ''video/mp4'' (ex_var s ''CAST_CT'')
      in bind_io (Client.receiver_status render (ex_wait s 0)) (\<lambda>st.
         bind_io (stop_stale render (\<lambda>k. ex_wait s (5 + k)) (rs_applications st) 0) (\<lambda>_.
         bind_io (sleep (ex_sleep s 0)) (\<lambda>_.
         bind_io (launch_receiver render s 1) (\<lambda>_.
         bind_io (load_media render (buffered_media url ctype) True 0 None (ex_wait s 2)) (\<lambda>_.
         bind_io (listening is_disconnected (ex_rounds s)) (\<lambda>es.
         bind_io (clean_up render s) (\<lambda>_.
           lift (Inr es)))))))))"

definition discover_and_play ::
    "render \<Rightarrow> ('tcp, 'tls, 'roots) network \<Rightarrow> (error + device_info list) \<Rightarrow> surroundings
      \<Rightarrow> cast_event list ending \<times> client option" where
  "discover_and_play render net found s =
     (case ex_var s ''CAST_IP'' of
        Some ip \<Rightarrow>
          with_client (connect_host render net ip (cast_port s) (ex_meanwhile s) (ex_now s)) (discover_and_play_body render s)
      | None \<Rightarrow>
          (case found of
             Inl e \<Rightarrow> (Returns (Inl e), None)
           | Inr [] \<Rightarrow> (Exits 1, None)
           | Inr (d # _) \<Rightarrow>
               with_client (device_connect render net d (ex_meanwhile s) (ex_now s)) (discover_and_play_body render s)))"

section \<open>\<open>device_test\<close>\<close>

record tally =
  passed :: u32
  failed :: u32

definition count :: "bool \<Rightarrow> tally \<Rightarrow> tally" where
  "count ok t = (if ok then t\<lparr>passed := passed t + 1\<rparr> else t\<lparr>failed := failed t + 1\<rparr>)"

text \<open>The macro \<open>step!\<close>, a sleep, and a check of its own.\<close>

type_synonym 'a test = "(tally \<times> client, 'a) state"

definition step :: "'a io \<Rightarrow> 'a option test" where
  "step m = State (\<lambda>(t, c).
     case m c of
       (Inr v, c1) \<Rightarrow> (Some v, count True t, c1)
     | (Inl e, c1) \<Rightarrow> (None, count False t, c1))"

definition rest :: "(client \<Rightarrow> client) \<Rightarrow> unit test" where
  "rest f = State (\<lambda>(t, c). ((), t, f c))"

definition test_that :: "(client \<Rightarrow> bool \<times> client) \<Rightarrow> unit test" where
  "test_that check = State (\<lambda>(t, c). case check c of (ok, c1) \<Rightarrow> ((), count ok t, c1))"

fun wait_for_state :: "player_state \<Rightarrow> (client \<Rightarrow> client) list \<Rightarrow> client \<Rightarrow> bool \<times> client" where
  "wait_for_state target [] c = (False, c)"
| "wait_for_state target (f # fs) c =
     (case next_event (f c) of
        (Item (EvMediaStatusChanged st), c1) \<Rightarrow>
          (if player_state st = target then (True, c1) else wait_for_state target fs c1)
      | (_, c1) \<Rightarrow> wait_for_state target fs c1)"

definition discover_device :: "error + device_info list \<Rightarrow> device_info option" where
  "discover_device found = (case found of Inr (d # _) \<Rightarrow> Some d | _ \<Rightarrow> None)"

definition test_media :: "string \<Rightarrow> media_info" where
  "test_media arg =
     (if arg = ''hls'' then
        buffered_media ''https://test-streams.mux.dev/x36xhzz/x36xhzz.m3u8'' ''application/x-mpegURL''
      else if arg = ''mp4'' then
        buffered_media (''https://avtshare01.rz.tu-ilmenau.de/avt-vqdb-uhd-1/test_1/segments/'' @
          ''bigbuck_bunny_8bit_15000kbps_1080p_60.0fps_h264.mp4'') ''video/mp4''
      else buffered_media arg
        (if str_contains ''.m3u8'' arg then ''application/x-mpegURL'' else ''video/mp4''))"

definition watches_have_data :: "client \<Rightarrow> bool \<times> client" where
  "watches_have_data c = (watch_media_status c \<noteq> None \<and> watch_receiver_status c \<noteq> None, c)"

definition device_test_steps :: "render \<Rightarrow> surroundings \<Rightarrow> string \<Rightarrow> unit test" where
  "device_test_steps render s media_arg = do {
     _ \<leftarrow> step (Client.receiver_status render (ex_wait s 0));
     _ \<leftarrow> step (launch_receiver render s 1);
     loaded \<leftarrow> step (load_media render (test_media media_arg) True 0 None (ex_wait s 2));
     _ \<leftarrow> (if loaded \<noteq> None then test_that (wait_for_state Playing (ex_rounds s)) else rest id);
     _ \<leftarrow> step (pause render (ex_wait s 3));
     _ \<leftarrow> rest (ex_sleep s 0);
     _ \<leftarrow> step (play render (ex_wait s 4));
     _ \<leftarrow> rest (ex_sleep s 1);
     _ \<leftarrow> step (seek render 0x404E000000000000 (ex_wait s 5)); \<comment> \<open>\<open>60.0\<close>\<close>
     _ \<leftarrow> step (Client.media_status render (ex_wait s 6));
     _ \<leftarrow> step (set_volume render 0x3E99999A (ex_wait s 7)); \<comment> \<open>\<open>0.3\<close>\<close>
     _ \<leftarrow> rest (ex_sleep s 2);
     _ \<leftarrow> step (set_volume render 0x3F4CCCCD (ex_wait s 8)); \<comment> \<open>\<open>0.8\<close>\<close>
     _ \<leftarrow> test_that watches_have_data;
     _ \<leftarrow> step (stop_media render (ex_wait s 9));
     _ \<leftarrow> rest (ex_sleep s 3);
     _ \<leftarrow> step (disconnect render (ex_in_time s) (ex_wait s 10));
     State_Monad.return ()
   }"

text \<open>The test against a host, and with the arguments after the program's name.\<close>

definition test_host ::
    "render \<Rightarrow> ('tcp, 'tls, 'roots) network \<Rightarrow> string \<Rightarrow> u16 \<Rightarrow> string \<Rightarrow> surroundings
      \<Rightarrow> unit ending \<times> (tally \<times> client) option" where
  "test_host render net h p media_arg s =
     (case connect_host render net h p (ex_meanwhile s) (ex_now s) of
        None \<Rightarrow> (Panics, None)
      | Some (Inl e) \<Rightarrow> (Exits 1, None)
      | Some (Inr c) \<Rightarrow>
          (if \<not> is_connected c then (Panics, Some (\<lparr>passed = 1, failed = 0\<rparr>, c))
           else case run_state (device_test_steps render s media_arg) (\<lparr>passed = 1, failed = 0\<rparr>, c) of
             (_, t, c1) \<Rightarrow>
               ((if is_connected c1 then Panics
                 else if 0 < failed t then Exits 1 else Returns (Inr ())), Some (t, c1))))"

definition device_test ::
    "render \<Rightarrow> ('tcp, 'tls, 'roots) network \<Rightarrow> error + device_info list \<Rightarrow> string list \<Rightarrow> surroundings
      \<Rightarrow> unit ending \<times> (tally \<times> client) option" where
  "device_test render net found args s =
     (let ip = (case args of a # _ \<Rightarrow> a | [] \<Rightarrow> []);
          media_arg = (case args of _ # m # _ \<Rightarrow> m | _ \<Rightarrow> ''hls'')
      in if ip = [] then
           (case discover_device found of
              Some d \<Rightarrow> test_host render net (ip_text (dev_ip d)) (dev_port d) media_arg s
            | None \<Rightarrow> (Exits 1, None))
         else test_host render net ip 8009 media_arg s)"

text \<open>It waits for the first event it hears that reports the state.\<close>

definition reports :: "player_state \<Rightarrow> cast_event \<Rightarrow> bool" where
  "reports target e = (case as_media_status e of Some st \<Rightarrow> player_state st = target | None \<Rightarrow> False)"

lemma wait_for_state_spec:
  "wait_for_state target fs c =
     (case listen (reports target) fs c of (es, c1) \<Rightarrow> (\<exists>e \<in> set es. reports target e, c1))"
  by (induction target fs c rule: wait_for_state.induct)
    (auto simp: reports_def as_media_status_def split: prod.splits recv.splits cast_event.splits)

section \<open>How the examples end\<close>

text \<open>However it waits, \<open>disconnect\<close> succeeds and leaves a dead client without tasks.\<close>

definition down :: "client \<Rightarrow> bool" where
  "down c \<longleftrightarrow> \<not> is_connected c \<and> connection_state c = ConnDisconnected \<and>
     \<not> reader_task (tasks c) \<and> \<not> writer_task (tasks c) \<and> \<not> heartbeat_task (tasks c) \<and> \<not> tx_held (event_ch c)"

lemma drop_event_sender_tasks [simp]: "tasks (drop_event_sender c) = tasks c"
  by simp

lemma disconnect_down: "fst (disconnect render in_time await c) = Inr () \<and>
    down (snd (disconnect render in_time await c))"
  by (simp add: disconnect_def down_def is_connected_def connection_state_def Let_def)

text \<open>What holds of the client whenever an operation succeeds.\<close>

definition ensures :: "(client \<Rightarrow> bool) \<Rightarrow> 'a io \<Rightarrow> bool" where
  "ensures P m \<longleftrightarrow> (\<forall>c a c'. m c = (Inr a, c') \<longrightarrow> P c')"

lemma ensures_bind: "(\<And>a. ensures P (f a)) \<Longrightarrow> ensures P (bind_io m f)"
  by (auto simp: ensures_def bind_io_def split: prod.splits sum.splits)

lemma ensures_return: "ensures P m \<Longrightarrow> ensures P (bind_io m (\<lambda>a. lift (Inr (g a))))"
  by (auto simp: ensures_def bind_io_def lift_def split: prod.splits sum.splits)

lemma ensures_disconnect: "ensures down (disconnect render in_time await)"
  using disconnect_down unfolding ensures_def by (metis snd_conv)

lemma ensures_with_client:
  assumes "ensures P body" and "with_client connected body = (Returns (Inr a), d)"
  shows "\<exists>c. d = Some c \<and> P c"
  using assms by (auto simp: with_client_def ensures_def split: option.splits sum.splits prod.splits)

lemmas ends_down = ensures_return [OF ensures_disconnect]

lemma ensures_media_control: "ensures down (media_control_body render s url)"
  unfolding media_control_body_def by (intro ends_down ensures_bind)

lemma ensures_event_monitor: "ensures down (event_monitor_body render s)"
  unfolding event_monitor_body_def by (intro ends_down ensures_bind)

lemma ensures_custom_namespace: "ensures down (custom_namespace_body render s)"
  unfolding custom_namespace_body_def
  by (intro ensures_bind) (auto split: list.split intro!: ends_down ensures_bind)

lemma ensures_clean_up: "ensures (\<lambda>c. \<not> is_connected c) (clean_up render s)"
proof -
  have "ensures down (bind_io (dropped (stop_media render (ex_wait s 3)))
      (\<lambda>_. disconnect render (ex_in_time s) (ex_wait s 4)))"
    by (intro ensures_bind ensures_disconnect)
  then show ?thesis
    by (auto simp: ensures_def clean_up_def down_def)
qed

lemma ensures_discover_and_play: "ensures (\<lambda>c. \<not> is_connected c) (discover_and_play_body render s)"
  unfolding discover_and_play_body_def Let_def
  by (intro ensures_return [OF ensures_clean_up] ensures_bind)

text \<open>C39. A program that succeeds has hung up. When the \<open>main\<close> of \<open>media_control\<close>, \<open>custom_namespace\<close> or
  \<open>event_monitor\<close> returns \<open>Ok\<close>, its client is disconnected, with no task left running and its event
  stream ended; when that of \<open>discover_and_play\<close> does, whose loop also stops when the device is lost
  and which disconnects only then if the client is still connected, its client is not connected.\<close>

theorem examples_hang_up:
  "(media_control render net s = (Returns (Inr shown), d) \<longrightarrow> (\<exists>c. d = Some c \<and> down c)) \<and>
   (custom_namespace render net s = (Returns (Inr raw), d) \<longrightarrow> (\<exists>c. d = Some c \<and> down c)) \<and>
   (event_monitor render net s = (Returns (Inr es), d) \<longrightarrow> (\<exists>c. d = Some c \<and> down c)) \<and>
   (discover_and_play render net found s = (Returns (Inr es), d) \<longrightarrow> (\<exists>c. d = Some c \<and> \<not> is_connected c))"
proof (intro conjI impI)
  assume "media_control render net s = (Returns (Inr shown), d)"
  then show "\<exists>c. d = Some c \<and> down c"
    unfolding media_control_def
    by (auto split: option.splits dest: ensures_with_client [OF ensures_media_control])
next
  assume "custom_namespace render net s = (Returns (Inr raw), d)"
  then show "\<exists>c. d = Some c \<and> down c"
    unfolding custom_namespace_def
    by (auto split: option.splits dest: ensures_with_client [OF ensures_custom_namespace])
next
  assume "event_monitor render net s = (Returns (Inr es), d)"
  then show "\<exists>c. d = Some c \<and> down c"
    unfolding event_monitor_def
    by (auto split: option.splits dest: ensures_with_client [OF ensures_event_monitor])
next
  assume "discover_and_play render net found s = (Returns (Inr es), d)"
  then show "\<exists>c. d = Some c \<and> \<not> is_connected c"
    unfolding discover_and_play_def
    by (auto split: option.splits sum.splits list.splits
        dest: ensures_with_client [OF ensures_discover_and_play])
qed

text \<open>The library's peer, whose device answers the first request with a status.\<close>

definition home :: surroundings where
  "home =
     \<lparr>ex_var = \<lambda>v. if v = ''CAST_IP'' then Some (ip_text (V4 0xC0A80105)) else None,
      ex_wait = \<lambda>k _ _ c. (if k = 0 then Received sample_running else TimedOut, c),
      ex_sleep = \<lambda>_. id, ex_launched = 0, ex_launch_rounds = [], ex_rounds = [id],
      ex_in_time = True, ex_meanwhile = (\<lambda>_. id), ex_now = 3\<rparr>"

lemma home_connects:
  "\<exists>c. connect_host render lan (ip_text (V4 0xC0A80105)) p (\<lambda>_. id) 3 = Some (Inr c) \<and> rx_held (write_ch c)"
proof -
  have "dial lan (ip_text (V4 0xC0A80105)) p False = Inr ()"
    using dial_accepted [OF lan_law _ lan_name, where p = p and verify = False] lan_peer(1,2)
    by (simp add: accepts_def tls_verifier_def lan_def no_cert_verification_def verify_server_cert_def)
  then show ?thesis
    using built_client [where render = render and b = "builder_new (ip_text (V4 0xC0A80105)) p" and tls = "Inr ()"
        and now = 3, OF tasks_keep_up_id(1)]
    by (auto simp: connect_host_def builder_connect_def builder_new_def MAX_PERMITS_def
        split: option.splits sum.splits)
qed

lemma home_status:
  assumes "rx_held (write_ch c)"
  shows "\<exists>st c1. Client.receiver_status (\<lambda>_. []) (ex_wait home 0) c = (Inr st, c1)"
proof -
  obtain st where "parse_receiver_status sample_running = Some st"
    using sample_running_parses(1) by (cases "parse_receiver_status sample_running") auto
  then show ?thesis
    by (simp add: Client.receiver_status_def home_def bind_io_unfold request_sent assms
        sample_running_parses(2) wait_for_def Let_def lift_def)
qed

theorem examples_hang_up_witness:
  "\<exists>es c. event_monitor (\<lambda>_. []) lan home = (Returns (Inr es), Some c) \<and> down c"
proof -
  obtain c where c: "connect_host (\<lambda>_. []) lan (ip_text (V4 0xC0A80105)) (cast_port home) (\<lambda>_. id) 3 = Some (Inr c)"
    "rx_held (write_ch c)"
    using home_connects by blast
  obtain st c1 where st: "Client.receiver_status (\<lambda>_. []) (ex_wait home 0) c = (Inr st, c1)"
    using home_status [OF c(2)] by blast
  obtain es c2 where l: "listening (\<lambda>_. False) (ex_rounds home) c1 = (Inr es, c2)"
    by (metis (no_types) listening_def prod.case_eq_if)
  obtain c3 where d: "disconnect (\<lambda>_. []) (ex_in_time home) (ex_wait home 1) c2 = (Inr (), c3)"
    using disconnect_down by (metis prod.collapse)
  have "event_monitor (\<lambda>_. []) lan home = (Returns (Inr es), Some c3)"
    using c(1) st l d by (simp add: event_monitor_def event_monitor_body_def with_client_def bind_io_def
        lift_def home_def [THEN arg_cong, of ex_var] home_def [THEN arg_cong, of ex_now]
        home_def [THEN arg_cong, of ex_meanwhile])
  then show ?thesis
    using examples_hang_up [where net = lan and s = home and render = "\<lambda>_. []"] by blast
qed

section \<open>The verdict of \<open>device_test\<close>\<close>

text \<open>How a piece of the test changes the tally, and what it returns.\<close>

definition tallies :: "('a \<Rightarrow> nat \<Rightarrow> nat \<Rightarrow> bool) \<Rightarrow> 'a test \<Rightarrow> bool" where
  "tallies R m \<longleftrightarrow> (\<forall>t c. \<exists>p q. R (fst (run_state m (t, c))) p q \<and>
     fst (snd (run_state m (t, c))) =
       t\<lparr>passed := passed t + of_nat p, failed := failed t + of_nat q\<rparr>)"

abbreviation counts :: "nat \<Rightarrow> 'a test \<Rightarrow> bool" where
  "counts n \<equiv> tallies (\<lambda>_ p q. p + q = n)"

lemma tallies_mono: "tallies R m \<Longrightarrow> (\<And>a p q. R a p q \<Longrightarrow> S a p q) \<Longrightarrow> tallies S m"
  unfolding tallies_def by metis

lemma count_tally: "count ok t =
    t\<lparr>passed := passed t + of_nat (of_bool ok), failed := failed t + of_nat (of_bool (\<not> ok))\<rparr>"
  by (simp add: count_def)

lemma tallies_step: "tallies (\<lambda>v p q. p = of_bool (v \<noteq> None) \<and> q = of_bool (v = None)) (step m)"
  by (auto simp: tallies_def step_def count_tally split: prod.splits sum.splits)

lemma counts_step: "counts 1 (step m)"
  by (rule tallies_mono [OF tallies_step]) simp

lemma counts_test: "counts 1 (test_that check)"
  unfolding tallies_def
proof (intro allI)
  fix t c
  obtain ok c1 where "check c = (ok, c1)" by (metis prod.exhaust)
  then show "\<exists>p q. p + q = 1 \<and> fst (snd (run_state (test_that check) (t, c))) =
      t\<lparr>passed := passed t + of_nat p, failed := failed t + of_nat q\<rparr>"
    by (intro exI [of _ "of_bool ok"] exI [of _ "of_bool (\<not> ok)"]) (simp add: test_that_def count_def)
qed

lemma counts_silent: "counts 0 (rest f)" "counts 0 (State_Monad.return x)"
  by (auto simp: tallies_def rest_def)

lemma tallies_bind:
  assumes "tallies R m" and "\<And>a. tallies (S a) (f a)"
    and "\<And>a b p q p' q'. R a p q \<Longrightarrow> S a b p' q' \<Longrightarrow> T b (p + p') (q + q')"
  shows "tallies T (State_Monad.bind m f)"
  unfolding tallies_def
proof (intro allI)
  fix t c
  obtain a t1 c1 where m: "run_state m (t, c) = (a, t1, c1)" by (metis prod.exhaust)
  obtain p q where pq: "R a p q" "t1 = t\<lparr>passed := passed t + of_nat p, failed := failed t + of_nat q\<rparr>"
    using assms(1) m unfolding tallies_def by (metis fst_conv snd_conv)
  obtain p' q' where pq': "S a (fst (run_state (f a) (t1, c1))) p' q'"
    "fst (snd (run_state (f a) (t1, c1))) =
       t1\<lparr>passed := passed t1 + of_nat p', failed := failed t1 + of_nat q'\<rparr>"
    using assms(2) unfolding tallies_def by blast
  show "\<exists>p q. T (fst (run_state (State_Monad.bind m f) (t, c))) p q \<and>
      fst (snd (run_state (State_Monad.bind m f) (t, c))) =
        t\<lparr>passed := passed t + of_nat p, failed := failed t + of_nat q\<rparr>"
    using assms(3) [OF pq(1) pq'(1)] pq(2) pq'(2)
    by (intro exI [of _ "p + p'"] exI [of _ "q + q'"]) (simp add: m add.assoc)
qed

lemma counts_bind: "counts k m \<Longrightarrow> (\<And>a. counts n (f a)) \<Longrightarrow> counts (k + n) (State_Monad.bind m f)"
  by (rule tallies_bind [where R = "\<lambda>_ p q. p + q = k" and S = "\<lambda>_ _ p q. p + q = n"]) auto

lemma counts_more:
  "(\<And>a. counts n (f a)) \<Longrightarrow> counts (Suc n) (State_Monad.bind (step m) f)"
  "(\<And>a. counts n (g a)) \<Longrightarrow> counts (Suc n) (State_Monad.bind (test_that check) g)"
  "(\<And>a. counts n (h a)) \<Longrightarrow> counts n (State_Monad.bind (rest k) h)"
  using counts_bind [OF counts_step, of n f] counts_bind [OF counts_test, of n g]
    counts_bind [OF counts_silent(1), of n h] by simp_all

lemma counts_when:
  assumes "counts n (tail_steps :: unit test)"
  shows "counts (if loaded then Suc n else n)
     (State_Monad.bind (if loaded then test_that check else rest id) (\<lambda>_. tail_steps))"
  using counts_more(2,3) assms by auto

lemma device_test_tally:
  "tallies (\<lambda>_ p q. p + q \<in> {12, 13} \<and> (q = 0 \<longrightarrow> p = 13)) (device_test_steps render s arg)"
  unfolding device_test_steps_def
  apply (rule tallies_bind [OF counts_step, where S = "\<lambda>_ _ p q. p + q \<in> {11, 12} \<and> (q = 0 \<longrightarrow> p = 12)"])
   apply (rule tallies_bind [OF counts_step, where S = "\<lambda>_ _ p q. p + q \<in> {10, 11} \<and> (q = 0 \<longrightarrow> p = 11)"])
    apply (rule tallies_bind [OF tallies_step, where S = "\<lambda>loaded _ p q.
        p + q = (if loaded \<noteq> None then Suc (Suc (Suc (Suc (Suc (Suc (Suc (Suc (Suc (Suc 0))))))))) else Suc (Suc (Suc (Suc (Suc (Suc (Suc (Suc (Suc 0)))))))))"])
     apply (intro counts_when counts_more counts_silent)
    apply (auto split: if_splits)
  done

lemma device_test_ends_down: "down (snd (snd (run_state (device_test_steps render s arg) st)))"
proof -
  define ends where "ends m \<longleftrightarrow> (\<forall>st. down (snd (snd (run_state m st))))" for m :: "unit test"
  have bind: "ends (State_Monad.bind m f)" if "\<And>a. ends (f a)" for m :: "'b test" and f
    using that unfolding ends_def by (simp split: prod.split)
  have hang_up: "ends (State_Monad.bind (step (disconnect render b aw)) (\<lambda>_. State_Monad.return ()))" for b aw
    using disconnect_down [of render b aw] unfolding ends_def step_def
    by (auto split: prod.splits sum.splits) (metis snd_conv)+
  have "ends (device_test_steps render s arg)"
    unfolding device_test_steps_def by (intro hang_up bind)
  then show ?thesis unfolding ends_def by blast
qed

text \<open>The verdict of \<open>device_test\<close>. Whatever the device does, the program panics only at its first
  assertion and only if the new connection is lost at once; it exits with 1 when it finds no device or cannot connect; otherwise it counts
  its checks without loss, hangs up, and succeeds exactly when nothing failed, which means that all
  of its fourteen checks passed.\<close>

theorem device_test_verdict:
  "case device_test render net found args s of (ending, final) \<Rightarrow>
     (case final of
        None \<Rightarrow> ending = Exits 1
      | Some (t, c) \<Rightarrow>
          \<not> tasks_keep_up (ex_meanwhile s) \<and> \<not> is_connected c \<and> ending = Panics \<or>
          down c \<and> (if failed t = 0 then ending = Returns (Inr ()) \<and> passed t = 14 else ending = Exits 1))"
proof -
  have run: "down c1 \<and> (failed t = 0 \<longrightarrow> passed t = 14)"
    if "run_state (device_test_steps render s arg) (\<lparr>passed = 1, failed = 0\<rparr>, c) = (u, t, c1)" for arg c u t c1
  proof
    show "down c1" using device_test_ends_down [of render s arg] that by (metis snd_conv)
    have "fst (snd (run_state (device_test_steps render s arg) (\<lparr>passed = 1, failed = 0\<rparr>, c))) = t"
      using that by simp
    with device_test_tally [of render s arg, unfolded tallies_def, rule_format, of "\<lparr>passed = 1, failed = 0\<rparr>" c]
    obtain p q where pq: "p + q \<in> {12, 13}" "q = 0 \<longrightarrow> p = 13" "t = \<lparr>passed = 1 + of_nat p, failed = of_nat q\<rparr>"
      by (metis tally.simps(1-5) add.left_neutral)
    have "q = 0" if "of_nat q = (0 :: u32)"
      using that pq(1) by (auto simp: word_of_nat_eq_0_iff dest: dvd_imp_le)
    then show "failed t = 0 \<longrightarrow> passed t = 14" using pq by auto
  qed
  have "is_connected c"
    if "tasks_keep_up (ex_meanwhile s)" "connect_host render net h p (ex_meanwhile s) (ex_now s) = Some (Inr c)" for h p c
    using that(2) built_client [OF that(1), where render = render and b = "builder_new h p" and now = "ex_now s"
        and tls = "dial net h p False"]
    by (simp add: connect_host_def builder_connect_def builder_new_def is_connected_def)
  then have "case test_host render net h p media_arg s of (ending, final) \<Rightarrow>
      (case final of
         None \<Rightarrow> ending = Exits 1
       | Some (t, c) \<Rightarrow>
           \<not> tasks_keep_up (ex_meanwhile s) \<and> \<not> is_connected c \<and> ending = Panics \<or>
           down c \<and> (if failed t = 0 then ending = Returns (Inr ()) \<and> passed t = 14 else ending = Exits 1))"
    for h p media_arg
    using run connect_host_returns [of render net h p "ex_meanwhile s" "ex_now s"]
    by (auto simp: test_host_def down_def word_gt_0 split: option.splits sum.splits prod.splits if_splits)
  then show ?thesis
    by (simp add: device_test_def Let_def del: One_nat_def split: option.split)
qed

end
