(* ===== verification/Wire.thy ===== *)
theory Wire
  imports Tasks
begin

text \<open>
  A command from end to end: the operation of \<open>client.rs\<close> waits on its oneshot channel while the
  reader task decodes the bytes the device writes and routes its messages, until the stream ends.
\<close>

section \<open>A wait over the stream\<close>

definition stream_answers ::
    "parser \<Rightarrow> render \<Rightarrow> (u8 list \<Rightarrow> string + cast_message) \<Rightarrow> (nat \<Rightarrow> nat) \<Rightarrow> reader \<Rightarrow> await" where
  "stream_answers parse render decode clock r i rx c =
     (let c' = reader_loop parse render decode clock (\<lambda>_ s. s) None 0 r c
      in (promised (request_tracker c') rx, c'))"

text \<open>The device's end of the stream: it writes messages, then closes.\<close>

definition device_stream :: "(cast_message \<Rightarrow> u8 list) \<Rightarrow> cast_message list \<Rightarrow> io_error \<Rightarrow> reader" where
  "device_stream encode ms e = \<lparr>rd_bytes = snd (write_messages encode ms []), rd_end = e\<rparr>"

lemma senders_clear:
  assumes "tracker_inv t"
  shows "senders (tracker_clear t) rx =
     (case senders t rx of Some Held \<Rightarrow> Some Dropped | x \<Rightarrow> x)"
proof -
  have "senders t rx = Some Held \<longleftrightarrow> rx \<in> ran (pending t)"
    using assms by (simp add: tracker_inv_def pending_inv_def ran_def)
  then show ?thesis by (auto simp: tracker_clear_def split: option.split sender.split)
qed

text \<open>The result of a command's last step does not depend on the state.\<close>

lemma fst_command_finish: "fst (command_finish cmd v c) = fst (command_finish cmd v c')"
  by (cases cmd)
    (simp_all add: discard_apply loaded_status_def Let_def lift_def split: option.split)

lemma request_over_stream:
  assumes "wire_codec encode decode" and "\<forall>m \<in> set ms. length (encode m) \<le> MAX_MESSAGE"
    and "io_kind e = UnexpectedEof" and "tracker_inv (request_tracker c)" and "rx_held (write_ch c)"
  shows "fst (request mk (stream_answers parse render decode clock (device_stream encode ms e)) c) =
       ok_or ErrDisconnected (answer_among parse ms (next_id (counter (request_tracker c)))) \<and>
     pending (request_tracker (snd (request mk
         (stream_answers parse render decode clock (device_stream encode ms e)) c))) = Map.empty"
proof -
  let ?q = "queued mk c"
  let ?i = "next_id (counter (request_tracker c))"
  let ?rx = "next_chan (request_tracker c)"
  let ?t = "request_tracker (route_all parse render ms ?q)"
  let ?c' = "reader_loop parse render decode clock (\<lambda>_ s. s) None 0 (device_stream encode ms e) ?q"
  have inv: "tracker_inv (request_tracker ?q)" using tracker_inv_register [OF assms(4)] by simp
  have p: "pending (request_tracker ?q) ?i = Some ?rx" by (simp add: register_eq)
  have t: "request_tracker ?c' = tracker_clear ?t"
    using reader_stream_end [OF assms(1-3), of parse render clock ?q]
    by (auto simp: device_stream_def reader_failed_touch_frame route_all_touch)
  have "senders ?t ?rx = Some (case answer_among parse ms ?i of Some v \<Rightarrow> Sent v | None \<Rightarrow> Held)"
    using registry.first_answer_wins [OF inv p] by (simp add: request_tracker_route_all answer_among_def)
  then have "promised (request_tracker ?c') ?rx =
      (case answer_among parse ms ?i of Some v \<Rightarrow> Received v | None \<Rightarrow> SenderGone)"
    unfolding t promised_def senders_clear [OF tracker_inv_route_all [OF inv]] by (simp split: option.split)
  moreover have "pending (tracker_clear ?t) = Map.empty" by (simp add: tracker_clear_def)
  moreover have "rx_held (write_ch ?c')"
    using reader_stream_end [OF assms(1-3), of parse render clock ?q] assms(5)
    by (auto simp: device_stream_def reader_failed_touch_frame)
  ultimately show ?thesis
    by (simp add: request_sent [OF assms(5)] stream_answers_def Let_def t wait_for_def remove_pending_eq
        fun_eq_iff split: option.split)
qed

section \<open>Correctness\<close>

text \<open>C3. A command over the wire. Let the device write any messages of at most 64 KiB and close the
  connection while a command waits. If one of them answers the command's identifier, the first that
  does decides its result: the error the device reports, or what the command's last step makes of
  the answer. If none does, the command fails with \<open>Disconnected\<close> at once instead of waiting for its
  timeout. Either way no request is left waiting.\<close>

theorem command_over_wire:
  assumes "wire_codec encode decode" and "\<forall>m \<in> set ms. length (encode m) \<le> MAX_MESSAGE"
    and "io_kind e = UnexpectedEof" and "tracker_inv (request_tracker c)" and "rx_held (write_ch c)"
    and "command_message render cmd c = Inr mk"
    and "execute render cmd (stream_answers parse render decode clock (device_stream encode ms e)) c = (r, c')"
  shows "r = (case answer_among parse ms (next_id (counter (request_tracker c))) of
       None \<Rightarrow> Inl ErrDisconnected
     | Some v \<Rightarrow> and_then (check_device_error v) (\<lambda>_. fst (command_finish cmd v c))) \<and>
     pending (request_tracker c') = Map.empty"
proof -
  let ?aw = "stream_answers parse render decode clock (device_stream encode ms e)"
  let ?i = "next_id (counter (request_tracker c))"
  let ?r = "request mk ?aw c"
  have req: "fst ?r = ok_or ErrDisconnected (answer_among parse ms ?i)"
    "pending (request_tracker (snd ?r)) = Map.empty"
    using request_over_stream [OF assms(1-5), of mk parse render clock] by simp_all
  have ex: "execute render cmd ?aw c = bind_io (request mk ?aw) (checked (command_finish cmd)) c"
    using assms(6) by (simp add: commands.shape)
  have "r = fst (execute render cmd ?aw c)" "c' = snd (execute render cmd ?aw c)" using assms(7) by simp_all
  moreover have "fst (execute render cmd ?aw c) =
      (case answer_among parse ms ?i of
         None \<Rightarrow> Inl ErrDisconnected
       | Some v \<Rightarrow> and_then (check_device_error v) (\<lambda>_. fst (command_finish cmd v c)))"
  proof (cases "answer_among parse ms ?i")
    case None
    then show ?thesis unfolding ex bind_io_unfold req(1) by simp
  next
    case (Some v)
    show ?thesis
      unfolding ex bind_io_unfold req(1)
      using fst_command_finish [of cmd v "snd ?r" c]
      by (simp add: Some split: sum.split)
  qed
  ultimately show ?thesis
    using req(2) request_tracker_execute [OF assms(5,6), of ?aw] by simp
qed

theorem command_over_wire_witness:
  "fst (execute (\<lambda>_. []) Play (stream_answers answer_text (\<lambda>_. []) cast_message_decode id
      (device_stream cast_message_encode [build_message NS_MEDIA ''web-5'' SENDER_ID ''refusal'']
        (IoError UnexpectedEof []))) sample_client) = Inl (ErrInvalidRequest 1 ''INVALID_PLAYER_STATE'')"
proof -
  let ?ms = "[build_message NS_MEDIA ''web-5'' SENDER_ID ''refusal'']"
  let ?mk = "\<lambda>i. build_message NS_MEDIA SENDER_ID ''web-5'' []"
  have len: "\<forall>m \<in> set ?ms. length (cast_message_encode m) \<le> MAX_MESSAGE"
    by (simp add: cast_message_encode_def cast_message_fields_def build_message_def string_bytes_def
        NS_MEDIA_def SENDER_ID_def MAX_MESSAGE_def varint.simps)
  have play: "command_message (\<lambda>_. []) Play sample_client = Inr ?mk"
    by (simp add: command_message_def session_request_def)
  have io: "io_kind (IoError UnexpectedEof []) = UnexpectedEof" by simp
  have "tracker_inv (request_tracker sample_client)" "rx_held (write_ch sample_client)"
    by (simp_all add: tracker_inv_new)
  from command_over_wire [OF protobuf.wire_codec_axioms len io this play prod.collapse [symmetric],
      of answer_text id]
  show ?thesis
    by (simp add: sample_answers next_id_def del: execute.simps)
qed

end
