(* ===== verification/Auth.thy ===== *)
theory Auth
  imports Proto
begin

text \<open>
  The device-authentication messages of \<open>proto_gen.rs\<close> (\<open>NS_DEVICE_AUTH\<close>), and the law every
  enumeration of that file keeps between its values and their protobuf names. An enumeration field of
  a message is its \<open>i32\<close>; a \<open>bytes\<close> field a list of bytes.
\<close>

section \<open>Enumerations\<close>

datatype auth_error_type = AuthInternalError | NoTls | SignatureAlgorithmUnavailable

fun auth_error_type_as_i32 :: "auth_error_type \<Rightarrow> i32" where
  "auth_error_type_as_i32 AuthInternalError = 0"
| "auth_error_type_as_i32 NoTls = 1"
| "auth_error_type_as_i32 SignatureAlgorithmUnavailable = 2"

fun auth_error_type_as_str_name :: "auth_error_type \<Rightarrow> string" where
  "auth_error_type_as_str_name AuthInternalError = ''INTERNAL_ERROR''"
| "auth_error_type_as_str_name NoTls = ''NO_TLS''"
| "auth_error_type_as_str_name SignatureAlgorithmUnavailable = ''SIGNATURE_ALGORITHM_UNAVAILABLE''"

definition auth_error_type_from_str_name :: "string \<Rightarrow> auth_error_type option" where
  "auth_error_type_from_str_name v =
     (if v = ''INTERNAL_ERROR'' then Some AuthInternalError
      else if v = ''NO_TLS'' then Some NoTls
      else if v = ''SIGNATURE_ALGORITHM_UNAVAILABLE'' then Some SignatureAlgorithmUnavailable
      else None)"

datatype signature_algorithm = SigUnspecified | RsassaPkcs1v15 | RsassaPss

fun signature_algorithm_as_i32 :: "signature_algorithm \<Rightarrow> i32" where
  "signature_algorithm_as_i32 SigUnspecified = 0"
| "signature_algorithm_as_i32 RsassaPkcs1v15 = 1"
| "signature_algorithm_as_i32 RsassaPss = 2"

fun signature_algorithm_as_str_name :: "signature_algorithm \<Rightarrow> string" where
  "signature_algorithm_as_str_name SigUnspecified = ''UNSPECIFIED''"
| "signature_algorithm_as_str_name RsassaPkcs1v15 = ''RSASSA_PKCS1v15''"
| "signature_algorithm_as_str_name RsassaPss = ''RSASSA_PSS''"

definition signature_algorithm_from_str_name :: "string \<Rightarrow> signature_algorithm option" where
  "signature_algorithm_from_str_name v =
     (if v = ''UNSPECIFIED'' then Some SigUnspecified
      else if v = ''RSASSA_PKCS1v15'' then Some RsassaPkcs1v15
      else if v = ''RSASSA_PSS'' then Some RsassaPss
      else None)"

datatype hash_algorithm = Sha1 | Sha256

fun hash_algorithm_as_i32 :: "hash_algorithm \<Rightarrow> i32" where
  "hash_algorithm_as_i32 Sha1 = 0"
| "hash_algorithm_as_i32 Sha256 = 1"

fun hash_algorithm_as_str_name :: "hash_algorithm \<Rightarrow> string" where
  "hash_algorithm_as_str_name Sha1 = ''SHA1''"
| "hash_algorithm_as_str_name Sha256 = ''SHA256''"

definition hash_algorithm_from_str_name :: "string \<Rightarrow> hash_algorithm option" where
  "hash_algorithm_from_str_name v =
     (if v = ''SHA1'' then Some Sha1 else if v = ''SHA256'' then Some Sha256 else None)"

section \<open>Messages\<close>

record auth_challenge =
  ac_signature_algorithm :: "i32 option"
  ac_sender_nonce :: "u8 list option"
  ac_hash_algorithm :: "i32 option"

record auth_response =
  ar_signature :: "u8 list"
  ar_client_auth_certificate :: "u8 list"
  ar_intermediate_certificate :: "u8 list list"
  ar_signature_algorithm :: "i32 option"
  ar_sender_nonce :: "u8 list option"
  ar_hash_algorithm :: "i32 option"
  ar_crl :: "u8 list option"

record auth_error =
  ae_error_type :: i32

record device_auth_message =
  challenge :: "auth_challenge option"
  auth_response :: "auth_response option"
  auth_error :: "auth_error option"

section \<open>Names and values\<close>

text \<open>\<open>as_str_name\<close> and \<open>from_str_name\<close> undo each other, and the discriminants are told apart.\<close>

locale named_enum =
  fixes as_i32 :: "'a \<Rightarrow> i32" and as_name :: "'a \<Rightarrow> string" and from_name :: "string \<Rightarrow> 'a option"
  assumes from_as: "from_name (as_name x) = Some x"
    and as_from: "from_name s = Some x \<Longrightarrow> as_name x = s"
    and i32_inject: "as_i32 x = as_i32 y \<Longrightarrow> x = y"
begin

lemma names_distinct: "as_name x = as_name y \<longleftrightarrow> x = y"
  by (metis from_as option.inject)

lemma unknown_name: "from_name s = None \<longleftrightarrow> s \<notin> range as_name"
proof (cases "from_name s")
  case None
  then show ?thesis by (auto simp: from_as)
next
  case (Some x)
  then show ?thesis using as_from [OF Some] by auto
qed

lemma accepted_name: "from_name s = Some x \<longleftrightarrow> s = as_name x"
  by (auto simp: from_as dest: as_from)

end

interpretation pv: named_enum protocol_version_as_i32 protocol_version_as_str_name
  protocol_version_from_str_name
proof unfold_locales
  show "protocol_version_from_str_name (protocol_version_as_str_name x) = Some x" for x
    by (cases x) (simp_all add: protocol_version_from_str_name_def)
  show "protocol_version_from_str_name s = Some x \<Longrightarrow> protocol_version_as_str_name x = s" for s x
    by (auto simp: protocol_version_from_str_name_def split: if_splits)
  show "protocol_version_as_i32 x = protocol_version_as_i32 y \<Longrightarrow> x = y" for x y
    by (cases x; cases y) simp_all
qed

interpretation pt: named_enum payload_type_as_i32 payload_type_as_str_name payload_type_from_str_name
proof unfold_locales
  show "payload_type_from_str_name (payload_type_as_str_name x) = Some x" for x
    by (cases x) (simp_all add: payload_type_from_str_name_def)
  show "payload_type_from_str_name s = Some x \<Longrightarrow> payload_type_as_str_name x = s" for s x
    by (auto simp: payload_type_from_str_name_def split: if_splits)
  show "payload_type_as_i32 x = payload_type_as_i32 y \<Longrightarrow> x = y" for x y
    by (cases x; cases y) simp_all
qed

interpretation ae: named_enum auth_error_type_as_i32 auth_error_type_as_str_name
  auth_error_type_from_str_name
proof unfold_locales
  show "auth_error_type_from_str_name (auth_error_type_as_str_name x) = Some x" for x
    by (cases x) (simp_all add: auth_error_type_from_str_name_def)
  show "auth_error_type_from_str_name s = Some x \<Longrightarrow> auth_error_type_as_str_name x = s" for s x
    by (auto simp: auth_error_type_from_str_name_def split: if_splits)
  show "auth_error_type_as_i32 x = auth_error_type_as_i32 y \<Longrightarrow> x = y" for x y
    by (cases x; cases y) simp_all
qed

interpretation sa: named_enum signature_algorithm_as_i32 signature_algorithm_as_str_name
  signature_algorithm_from_str_name
proof unfold_locales
  show "signature_algorithm_from_str_name (signature_algorithm_as_str_name x) = Some x" for x
    by (cases x) (simp_all add: signature_algorithm_from_str_name_def)
  show "signature_algorithm_from_str_name s = Some x \<Longrightarrow> signature_algorithm_as_str_name x = s" for s x
    by (auto simp: signature_algorithm_from_str_name_def split: if_splits)
  show "signature_algorithm_as_i32 x = signature_algorithm_as_i32 y \<Longrightarrow> x = y" for x y
    by (cases x; cases y) simp_all
qed

interpretation ha: named_enum hash_algorithm_as_i32 hash_algorithm_as_str_name
  hash_algorithm_from_str_name
proof unfold_locales
  show "hash_algorithm_from_str_name (hash_algorithm_as_str_name x) = Some x" for x
    by (cases x) (simp_all add: hash_algorithm_from_str_name_def)
  show "hash_algorithm_from_str_name s = Some x \<Longrightarrow> hash_algorithm_as_str_name x = s" for s x
    by (auto simp: hash_algorithm_from_str_name_def split: if_splits)
  show "hash_algorithm_as_i32 x = hash_algorithm_as_i32 y \<Longrightarrow> x = y" for x y
    by (cases x; cases y) simp_all
qed

section \<open>The names of the protocol\<close>

text \<open>A name belongs to at most one value of each enumeration.\<close>

lemma enum_names_roundtrip:
  "protocol_version_from_str_name s = Some v \<longleftrightarrow> s = protocol_version_as_str_name v"
  "payload_type_from_str_name s = Some p \<longleftrightarrow> s = payload_type_as_str_name p"
  "auth_error_type_from_str_name s = Some e \<longleftrightarrow> s = auth_error_type_as_str_name e"
  "signature_algorithm_from_str_name s = Some g \<longleftrightarrow> s = signature_algorithm_as_str_name g"
  "hash_algorithm_from_str_name s = Some h \<longleftrightarrow> s = hash_algorithm_as_str_name h"
  by (rule pv.accepted_name pt.accepted_name ae.accepted_name sa.accepted_name ha.accepted_name)+

end
