(* ===== verification/Abandon.thy ===== *)
theory Abandon
  imports Interleaving
begin

text \<open>
  A \<open>reconnect()\<close> whose caller gives up waiting, say in a \<open>timeout\<close> or a \<open>select!\<close>: its future is dropped
  at the await it is suspended in, which releases \<open>reconnect_lock\<close> and leaves the rest undone. Every
  phase of \<open>Interleaving\<close> that waits can be its last. The await that stores the new handles is left out: its
  lock is free unless a \<open>disconnect\<close> holds it.
\<close>

section \<open>Steps\<close>

text \<open>A task whose cancellation token is cancelled ends when it notices. A shutdown that is cut short
  has cancelled the token, but not aborted every task. The tasks of a connection whose handles are not
  stored yet have a token of their own.\<close>

inductive notice_step :: "world \<Rightarrow> world \<Rightarrow> bool" where
  reader_notices: "token_cancelled (tasks (cl w)) \<Longrightarrow> lock w \<noteq> Storing \<Longrightarrow> reader_up w \<Longrightarrow>
     notice_step w (w\<lparr>cl := reader_cancelled (cl w), reader_up := False\<rparr>)"
| writer_notices: "token_cancelled (tasks (cl w)) \<Longrightarrow> lock w \<noteq> Storing \<Longrightarrow> writer_up w \<Longrightarrow>
     notice_step w (w\<lparr>cl := close_writer (cl w), writer_up := False\<rparr>)"
| heartbeat_notices: "token_cancelled (tasks (cl w)) \<Longrightarrow> lock w \<noteq> Storing \<Longrightarrow> beat_up w \<Longrightarrow>
     notice_step w (w\<lparr>beat_up := False\<rparr>)"

text \<open>The shutdown of the old tasks up to the handle it waits for: the reader's, the writer's or the
  heartbeat's. A handle that was taken is not put back.\<close>

datatype task = Reader | Writer | Beat

fun cut_shutdown :: "task \<Rightarrow> client \<Rightarrow> client" where
  "cut_shutdown Reader c = c\<lparr>tasks := (tasks c)\<lparr>token_cancelled := True, reader_task := False\<rparr>\<rparr>"
| "cut_shutdown Writer c =
     close_writer (c\<lparr>tasks := (tasks c)\<lparr>token_cancelled := True, reader_task := False, writer_task := False\<rparr>\<rparr>)"
| "cut_shutdown Beat c = shutdown_tasks c"

text \<open>Once the write channel is swapped and until its writer is spawned, the reconnect owns the receiver of
  the new channel, which is dropped with it.\<close>

inductive abandon_step :: "world \<Rightarrow> world \<Rightarrow> bool" where
  before_shutdown: "lock w = Stopping \<Longrightarrow> abandon_step w (w\<lparr>lock := Free\<rparr>)"
| in_shutdown: "lock w = Stopping \<Longrightarrow>
     abandon_step w
       (w\<lparr>cl := cut_shutdown k (if noticed \<and> reader_up w then reader_cancelled (cl w) else cl w),
          reader_up := False, writer_up := writer_up w \<and> k = Reader, beat_up := beat_up w \<and> k \<noteq> Beat,
          lock := Free\<rparr>)"
| in_phase: "lock w \<in> {Handshaking, Swapping, Greeting, Rejoining, Announcing} \<Longrightarrow>
     abandon_step w (w\<lparr>lock := Free\<rparr>)"
| swapped: "lock w \<in> {Reviving, Clearing} \<Longrightarrow>
     abandon_step w (w\<lparr>cl := close_writer (cl w), lock := Free\<rparr>)"

definition harmless_step :: "parser \<Rightarrow> render \<Rightarrow> world \<Rightarrow> world \<Rightarrow> bool" where
  "harmless_step parse render w w' \<longleftrightarrow>
     online_step parse render w w' \<or> notice_step w w' \<or> abandon_step w w' \<and> lock w \<noteq> Clearing"

definition any_step :: "parser \<Rightarrow> render \<Rightarrow> world \<Rightarrow> world \<Rightarrow> bool" where
  "any_step parse render w w' \<longleftrightarrow> world_step parse render w w' \<or> notice_step w w' \<or> abandon_step w w'"

inductive_cases notice_stepE: "notice_step w w'"
inductive_cases abandon_stepE: "abandon_step w w'"

section \<open>Abandoned anywhere but in the clearing of the tracker\<close>

lemma close_writer_vital [simp]:
  "alive (close_writer c) = alive c" "tasks (close_writer c) = tasks c"
  "shutting_down (close_writer c) = shutting_down c"
  by (simp_all add: close_writer_def)

lemma shutdown_tasks_token [simp]: "token_cancelled (tasks (shutdown_tasks c))"
  by (simp add: shutdown_tasks_def Let_def)

lemma cut_shutdown_vital [simp]:
  "alive (cut_shutdown k c) = alive c" "shutting_down (cut_shutdown k c) = shutting_down c"
  "write_ch (cut_shutdown Reader c) = write_ch c" "token_cancelled (tasks (cut_shutdown k c))"
  by (cases k; simp)+

declare cut_shutdown.simps [simp del]

text \<open>The invariant of \<open>Interleaving\<close>, and that a cancelled token belongs to a connection already lost.\<close>

definition token_inv :: "world \<Rightarrow> bool" where
  "token_inv w \<longleftrightarrow> (token_cancelled (tasks (cl w)) \<and> alive (cl w) \<longrightarrow> lock w \<in> insert Storing reviving_phases)"

lemma more_tasks:
  fixes c c' :: client
  assumes "shared.more c = shared.more c'"
  shows "tasks c = tasks c'"
  using assms by (cases c; cases c') simp

lemma task_tasks [simp]:
  fixes c :: client
  shows "tasks (reader_received parse render now msg c) = tasks c" "tasks (reader_failed e c) = tasks c"
    "tasks (writer_failed c) = tasks c" "tasks (reader_cancelled c) = tasks c"
proof -
  show "tasks (reader_received parse render now msg c) = tasks c"
    by (rule more_tasks) (simp add: reader_received_def)
qed (simp_all add: reader_failed_def writer_failed_def reader_cancelled_def Let_def)

lemma task_step_vital:
  assumes "task_step parse render w w'"
  shows "tasks (cl w') = tasks (cl w) \<and> lock w' = lock w \<and> (alive (cl w') \<longrightarrow> alive (cl w))"
  using assms
proof cases
  case (ticked now st c')
  then show ?thesis using tick_vital(4,8) [OF ticked(3)] by auto
next
  case (resumed now st c')
  then show ?thesis using tick_vital(4,8) [OF resumed(3)] by auto
qed simp_all

lemma queued_tasks [simp]: "tasks (queued mk c) = tasks c" "tasks (waited i out c) = tasks c"
  by (simp_all add: queued_def waited_def on_tracker_def send_write_def chan_send_def)

lemma user_step_tasks:
  assumes "user_step w w'"
  shows "tasks (cl w') = tasks (cl w)"
  using assms by cases (simp_all add: next_event_def split: prod.split)

lemma rejoin_app_tasks:
  assumes "rejoin_app render c = (r, c')"
  shows "tasks c' = tasks c"
proof -
  have "tasks (snd (rejoin_app render c)) = tasks c" by (simp add: rejoin_app_def split: option.split)
  then show ?thesis by (simp add: assms)
qed

lemma token_inv_reconnect:
  assumes "reconnect_step render w w'" and "running_inv w" and "token_inv w"
  shows "token_inv w'"
  using assms(1)
proof cases
  case (stops noticed)
  then have "\<not> alive (cl w)" using assms(2) by (simp add: running_inv_def)
  then show ?thesis using stops by (simp add: token_inv_def)
next
  case (greets r c')
  then show ?thesis
    using assms(3) unless_failed_cases [of r Rejoining] by (auto simp: token_inv_def send_eq reviving_phases_def)
next
  case (rejoins r c')
  then show ?thesis
    using assms(3) rejoin_app_result [OF rejoins(3)] rejoin_app_tasks [OF rejoins(3)]
      unless_failed_cases [of r Announcing] by (auto simp: token_inv_def reviving_phases_def)
next
  case stores
  then show ?thesis by (simp add: token_inv_def all_spawned_def)
qed (use assms(2,3) in \<open>auto simp: token_inv_def running_inv_def reviving_phases_def\<close>)

lemma token_inv_online:
  assumes "online_step parse render w w'" and "running_inv w" and "token_inv w"
  shows "token_inv w'"
proof -
  have "token_inv w'" if "task_step parse render w w'"
    using task_step_vital [OF that] assms(3) by (auto simp: token_inv_def)
  moreover have "token_inv w'" if "user_step w w'"
    using user_step_tasks [OF that] user_vital [OF that] assms(3) by (simp add: token_inv_def)
  ultimately show ?thesis
    using assms token_inv_reconnect unfolding online_step_def by blast
qed

lemma notice_inv:
  assumes "notice_step w w'" and "running_inv w" and "token_inv w"
  shows "running_inv w' \<and> token_inv w'"
  using assms by (elim notice_stepE) (auto simp: running_inv_def token_inv_def reviving_phases_def reader_cancelled_def)

text \<open>What the invariants say in the phases that can be abandoned.\<close>

lemma writer_held: "running_inv w \<Longrightarrow> writer_up w \<longrightarrow> rx_held (write_ch (cl w))"
  unfolding running_inv_def by blast

lemma phase_runs:
  assumes "running_inv w" and "token_inv w" and "lock w \<notin> insert Storing reviving_phases"
  shows "alive (cl w) \<longrightarrow> reader_up w \<and> writer_up w \<and> beat_up w \<and> \<not> token_cancelled (tasks (cl w))"
  using assms unfolding running_inv_def token_inv_def by blast

lemma abandon_inv:
  assumes "abandon_step w w'" and "lock w \<noteq> Clearing" and "running_inv w" and "token_inv w"
  shows "running_inv w' \<and> token_inv w'"
  using assms(1)
proof cases
  case (in_shutdown k noticed)
  define c where "c = (if noticed \<and> reader_up w then reader_cancelled (cl w) else cl w)"
  have c: "alive c = alive (cl w)" "write_ch c = write_ch (cl w)" by (simp_all add: c_def reader_cancelled_def)
  have "\<not> alive (cl w)" "writer_up w \<longrightarrow> rx_held (write_ch (cl w))"
    using assms(3) in_shutdown(2) by (simp_all add: running_inv_def)
  then show ?thesis
    unfolding in_shutdown(1) c_def [symmetric] by (cases k) (simp_all add: running_inv_def token_inv_def reviving_phases_def c)
next
  case before_shutdown
  then show ?thesis using assms(3) by (simp add: running_inv_def token_inv_def reviving_phases_def)
next
  case in_phase
  then have "lock w \<notin> insert Storing reviving_phases" by (auto simp: reviving_phases_def)
  from phase_runs [OF assms(3,4) this] writer_held [OF assms(3)] show ?thesis
    unfolding in_phase(1) by (auto simp: running_inv_def token_inv_def reviving_phases_def)
next
  case swapped
  then have "lock w = Reviving" using assms(2) by simp
  then show ?thesis
    using assms(3,4) unfolding swapped(1) by (auto simp: running_inv_def token_inv_def reviving_phases_def)
qed

lemma harmless_inv:
  assumes "harmless_step parse render w w'" and "running_inv w" and "token_inv w"
  shows "running_inv w' \<and> token_inv w'"
  using assms running_inv_online token_inv_online notice_inv abandon_inv
  unfolding harmless_step_def by blast

lemma harmless_inv_reachable:
  assumes "(harmless_step parse render)\<^sup>*\<^sup>* w w'" and "running_inv w" and "token_inv w"
  shows "running_inv w' \<and> token_inv w'"
  using assms by (induction rule: rtranclp_induct) (auto dest: harmless_inv)

text \<open>C13. Giving up on a reconnect is safe almost everywhere. Let callers abandon reconnects at any await
  but the clearing of the tracker (and the store of the handles, which waits only beside a
  \<open>disconnect\<close>), with tasks of a shutdown that was cut short ending when they notice.
  In every state reached while nobody disconnects, a client that says \<open>is_connected()\<close> while no reconnect is
  under way still has its reader, its writer and its heartbeat running.\<close>

theorem abandoned_reconnect_is_safe:
  assumes "rx_held (write_ch c)" and "\<not> token_cancelled (tasks c)"
    and "(harmless_step parse render)\<^sup>*\<^sup>* (connected_world c) w" and "lock w = Free" and "is_connected (cl w)"
  shows "reader_up w \<and> writer_up w \<and> beat_up w \<and> rx_held (write_ch (cl w))"
proof -
  have "running_inv (connected_world c)" "token_inv (connected_world c)"
    using assms(1,2) by (simp_all add: running_inv_def token_inv_def reviving_phases_def connected_world_def)
  then have "running_inv w" using harmless_inv_reachable [OF assms(3)] by blast
  with assms(4,5) show ?thesis by (auto simp: running_inv_def reviving_phases_def is_connected_def)
qed

lemma harmless_online: "(online_step parse render)\<^sup>*\<^sup>* w w' \<Longrightarrow> (harmless_step parse render)\<^sup>*\<^sup>* w w'"
  by (erule rtranclp_mono [THEN predicate2D, rotated]) (auto simp: harmless_step_def)

text \<open>The device hangs up, a reconnect is abandoned before it stops the old tasks, and the next one
  succeeds.\<close>

theorem abandoned_reconnect_is_safe_witness:
  "\<exists>w. (harmless_step (\<lambda>_. None) (\<lambda>_. []))\<^sup>*\<^sup>* (connected_world sample_client) w \<and> is_connected (cl w) \<and>
     reader_up w \<and> writer_up w \<and> beat_up w"
proof -
  let ?h = "harmless_step (\<lambda>_. None) (\<lambda>_. [])"
  let ?b = "(hung_up sample_client)\<lparr>cl := told_attempt 1 (cl (hung_up sample_client)), lock := Stopping\<rparr>"
  let ?a = "?b\<lparr>lock := Free\<rparr>"
  let ?w = "?a\<lparr>cl := snd (reconnect_with_attempt (\<lambda>_. []) 2 (Inr ()) (\<lambda>_. id) 7 (cl ?a)), lock := Free,
      reader_up := True, writer_up := True, beat_up := True\<rparr>"
  have down: "\<not> shutting_down (cl (hung_up sample_client))" by (simp add: sample_client_def)
  have "(reconnect_step (\<lambda>_. []))\<^sup>*\<^sup>* (hung_up sample_client) ?b"
    using rtranclp_trans [OF run_to_showing [of "hung_up sample_client"] run_to_stopping [of _ _ 1]] down by simp
  then have "(online_step (\<lambda>_. None) (\<lambda>_. []))\<^sup>*\<^sup>* (connected_world sample_client) ?b"
    by (rule rtranclp_trans [OF hung_up_reached reconnects_online])
  then have "?h\<^sup>*\<^sup>* (connected_world sample_client) ?b" by (rule harmless_online)
  moreover have "?h ?b ?a" using before_shutdown [of ?b] by (simp add: harmless_step_def)
  moreover have "?h\<^sup>*\<^sup>* ?a ?w"
    by (rule harmless_online, rule reconnects_online, rule reconnect_run) (simp_all add: sample_client_def)
  ultimately have run: "?h\<^sup>*\<^sup>* (connected_world sample_client) ?w"
    by (meson rtranclp.rtrancl_into_rtrancl rtranclp_trans)
  have "cl ?w = greet (\<lambda>_. []) (respawned 2 7 (cl ?a))"
    using down by (simp add: reconnect_phases)
  then have "is_connected (cl ?w)" by (simp add: is_connected_def)
  moreover have "\<not> token_cancelled (tasks sample_client)" "rx_held (write_ch sample_client)"
    by (simp_all add: sample_client_def all_spawned_def task_handles_new_def)
  ultimately show ?thesis
    using abandoned_reconnect_is_safe [OF _ _ run] run by auto
qed

section \<open>Abandoned while the tracker is cleared\<close>

text \<open>Nothing runs, and either the client still claims to be connected or it is shutting down.\<close>

definition stuck :: "world \<Rightarrow> bool" where
  "stuck w \<longleftrightarrow> early_phase (lock w) \<and> \<not> reader_up w \<and> \<not> writer_up w \<and> \<not> beat_up w \<and>
     (shutting_down (cl w) \<or> alive (cl w) \<and> lock w \<in> {Free, Looked}) \<and>
     (bye w \<noteq> NoDisconnect \<longrightarrow> shutting_down (cl w))"

lemma stuck_step:
  assumes "any_step parse render w w'" and "stuck w"
  shows "stuck w'"
proof -
  have "\<not> task_step parse render w w'" "\<not> notice_step w w'"
    using assms(2) by (auto simp: stuck_def elim!: task_stepE notice_stepE)
  moreover have "stuck w'" if "abandon_step w w'"
    using that assms(2) by (elim abandon_stepE) (auto simp: stuck_def)
  moreover have "stuck w'" if "user_step w w'" using assms(2) user_vital [OF that] by (simp add: stuck_def)
  moreover have "stuck w'" if "reconnect_step render w w'"
    using that assms(2) by (elim reconnect_stepE) (auto simp: stuck_def)
  moreover have "stuck w'" if "disconnect_step render w w'"
    using that assms(2) by (elim disconnect_stepE) (auto simp: stuck_def)
  ultimately show ?thesis
    using assms(1) unfolding any_step_def world_step_def online_step_def by blast
qed

lemma stuck_for_good:
  "(any_step parse render)\<^sup>*\<^sup>* w w' \<Longrightarrow> stuck w \<Longrightarrow> stuck w'"
  by (induction rule: rtranclp_induct) (auto intro: stuck_step)

text \<open>The state in which a reconnect after a lost connection waits for the tracker.\<close>

definition clearing :: "u32 \<Rightarrow> client \<Rightarrow> world" where
  "clearing n c =
     (hung_up c)\<lparr>cl := revive (swap_writer (shutdown_tasks (told_attempt n (cl (hung_up c))))),
        lock := Clearing, reader_up := False, writer_up := False, beat_up := False\<rparr>"

lemma clearing_reached:
  assumes "\<not> shutting_down c"
  shows "(any_step parse render)\<^sup>*\<^sup>* (connected_world c) (clearing n c)"
proof -
  have "(online_step parse render)\<^sup>*\<^sup>* (connected_world c) (clearing n c)"
    using rtranclp_trans [OF hung_up_reached reconnects_online [OF run_to_clearing [of "hung_up c" render n]]] assms
    by (simp add: clearing_def)
  then show ?thesis by (rule rtranclp_mono [THEN predicate2D, rotated]) (auto simp: any_step_def world_step_def)
qed

text \<open>C16. Giving up on a reconnect at the wrong moment loses the client. Let the device hang up and the
  user's \<open>reconnect()\<close> be dropped while it waits for the lock of the tracker, after it has stored
  \<open>alive = true\<close> and before it has started its tasks. Then the client says \<open>is_connected()\<close>, no task of it
  runs, and whatever anybody does from there on, further reconnects, commands and \<open>disconnect\<close>
  included, none ever runs again.\<close>

theorem abandoned_reconnect_is_stuck:
  assumes "\<not> shutting_down c"
  shows "\<exists>w. (any_step parse render)\<^sup>*\<^sup>* (connected_world c) w \<and> is_connected (cl w) \<and> lock w = Free \<and>
     (\<forall>w'. (any_step parse render)\<^sup>*\<^sup>* w w' \<longrightarrow>
        \<not> reader_up w' \<and> \<not> writer_up w' \<and> \<not> beat_up w' \<and> (is_connected (cl w') \<or> shutting_down (cl w')))"
proof (intro exI conjI allI impI)
  let ?w = "(clearing 1 c)\<lparr>cl := close_writer (cl (clearing 1 c)), lock := Free\<rparr>"
  have "abandon_step (clearing 1 c) ?w" by (rule swapped) (simp add: clearing_def)
  then show "(any_step parse render)\<^sup>*\<^sup>* (connected_world c) ?w"
    using clearing_reached [OF assms, of parse render 1] by (auto simp: any_step_def intro: rtranclp.rtrancl_into_rtrancl)
  show "is_connected (cl ?w)" "lock ?w = Free" by (simp_all add: is_connected_def clearing_def)
  fix w' assume "(any_step parse render)\<^sup>*\<^sup>* ?w w'"
  moreover have "stuck ?w" by (simp add: stuck_def clearing_def hung_up_def connected_world_def)
  ultimately have "stuck w'" by (rule stuck_for_good)
  then show "\<not> reader_up w'" "\<not> writer_up w'" "\<not> beat_up w'" "is_connected (cl w') \<or> shutting_down (cl w')"
    by (auto simp: stuck_def is_connected_def)
qed

theorem abandoned_reconnect_is_stuck_witness:
  "\<exists>w. (any_step (\<lambda>_. None) (\<lambda>_. []))\<^sup>*\<^sup>* (connected_world sample_client) w \<and> is_connected (cl w) \<and> \<not> reader_up w"
proof -
  have "\<not> shutting_down sample_client" by (simp add: sample_client_def)
  from abandoned_reconnect_is_stuck [OF this, of "\<lambda>_. None" "\<lambda>_. []"] show ?thesis by blast
qed

end
