(* ===== verification/Ownership.thy ===== *)
theory Ownership
  imports Interleaving
begin

text \<open>
  Who keeps a client alive. Every \<open>CastClient\<close> is a handle on one \<open>ClientInner\<close>; the automatic reconnect
  holds a \<open>Weak\<close> reference, which it upgrades to a handle of its own for the time it handles a change of
  the connection. When the last handle goes, \<open>Drop\<close> cancels the parent of every task's token.
\<close>

section \<open>Handles\<close>

text \<open>The task of \<open>spawn_auto_reconnect\<close>: it waits for a change, holds a handle, or has returned (or was
  never spawned).\<close>

datatype monitor = Watching | Holding | Gone

record owned =
  net :: world
  handles :: nat  \<comment> \<open>the \<open>CastClient\<close> values of the user\<close>
  monitor :: monitor
  parent_cancelled :: bool

definition strong :: "owned \<Rightarrow> nat" where
  "strong s = handles s + (if monitor s = Holding then 1 else 0)"

text \<open>\<open>ClientInner\<close> is dropped with its last handle: \<open>Drop\<close> cancels the token, and the receiver of the
  events goes with it.\<close>

definition drop_inner :: "owned \<Rightarrow> owned" where
  "drop_inner s =
     (let c = cl (net s)
      in s\<lparr>net := (net s)\<lparr>cl := c\<lparr>event_ch := (event_ch c)\<lparr>rx_held := False\<rparr>\<rparr>\<rparr>, parent_cancelled := True\<rparr>)"

definition release :: "owned \<Rightarrow> owned" where
  "release s = (if strong s = 0 then drop_inner s else s)"

definition one_handle :: "bool \<Rightarrow> client \<Rightarrow> owned" where
  "one_handle auto c =
     \<lparr>net = connected_world c, handles = 1, monitor = (if auto then Watching else Gone),
      parent_cancelled = False\<rparr>"

text \<open>An operation of the user borrows a handle, so the last one goes only when none is under way.\<close>

definition idle :: "owned \<Rightarrow> bool" where
  "idle s \<longleftrightarrow> bye (net s) = NoDisconnect \<and> (lock (net s) = Free \<or> monitor s = Holding)"

inductive owned_step :: "parser \<Rightarrow> render \<Rightarrow> owned \<Rightarrow> owned \<Rightarrow> bool" for parse render where
  clones: "0 < handles s \<Longrightarrow> owned_step parse render s (s\<lparr>handles := handles s + 1\<rparr>)"
| drops: "handles s = Suc n \<Longrightarrow> n = 0 \<longrightarrow> idle s \<Longrightarrow>
     owned_step parse render s (release (s\<lparr>handles := n\<rparr>))"
| operates: "0 < handles s \<Longrightarrow>
     user_step (net s) w \<or> reconnect_step render (net s) w \<or> disconnect_step render (net s) w \<Longrightarrow>
     owned_step parse render s (s\<lparr>net := w\<rparr>)"
| runs: "task_step parse render (net s) w \<Longrightarrow> owned_step parse render s (s\<lparr>net := w\<rparr>)"
| wakes: "monitor s = Watching \<Longrightarrow> 0 < handles s \<Longrightarrow>
     owned_step parse render s
       (s\<lparr>monitor := if shutting_down (cl (net s)) then Gone else Holding\<rparr>)"
| upgrade_fails: "monitor s = Watching \<Longrightarrow> handles s = 0 \<Longrightarrow>
     owned_step parse render s (s\<lparr>monitor := Gone\<rparr>)"
| attempts: "monitor s = Holding \<Longrightarrow> reconnect_step render (net s) w \<Longrightarrow>
     owned_step parse render s (s\<lparr>net := w\<rparr>)"
| rests: "monitor s = Holding \<Longrightarrow> m \<in> {Watching, Gone} \<Longrightarrow> handles s = 0 \<longrightarrow> lock (net s) = Free \<Longrightarrow>
     owned_step parse render s (release (s\<lparr>monitor := m\<rparr>))"
| reader_cancels: "parent_cancelled s \<Longrightarrow> reader_up (net s) \<Longrightarrow>
     owned_step parse render s (s\<lparr>net := (net s)\<lparr>cl := reader_cancelled (cl (net s)), reader_up := False\<rparr>\<rparr>)"
| writer_cancels: "parent_cancelled s \<Longrightarrow> writer_up (net s) \<Longrightarrow>
     owned_step parse render s (s\<lparr>net := (net s)\<lparr>cl := close_writer (cl (net s)), writer_up := False\<rparr>\<rparr>)"
| heartbeat_cancels: "parent_cancelled s \<Longrightarrow> beat_up (net s) \<Longrightarrow>
     owned_step parse render s (s\<lparr>net := (net s)\<lparr>beat_up := False\<rparr>\<rparr>)"

inductive_cases owned_stepE: "owned_step parse render s s'"

section \<open>The count of handles\<close>

definition owned_inv :: "owned \<Rightarrow> bool" where
  "owned_inv s \<longleftrightarrow>
     (parent_cancelled s \<longleftrightarrow> strong s = 0) \<and>
     (handles s = 0 \<longrightarrow> bye (net s) = NoDisconnect) \<and> (strong s = 0 \<longrightarrow> lock (net s) = Free)"

lemma drop_inner_simps [simp]:
  "handles (drop_inner s) = handles s" "monitor (drop_inner s) = monitor s" "parent_cancelled (drop_inner s)"
  "lock (net (drop_inner s)) = lock (net s)" "bye (net (drop_inner s)) = bye (net s)"
  "reader_up (net (drop_inner s)) = reader_up (net s)" "writer_up (net (drop_inner s)) = writer_up (net s)"
  "beat_up (net (drop_inner s)) = beat_up (net s)" "strong (drop_inner s) = strong s"
  "request_tracker (cl (net (drop_inner s))) = request_tracker (cl (net s))"
  by (simp_all add: drop_inner_def strong_def Let_def)

lemma release_simps [simp]:
  "handles (release s) = handles s" "monitor (release s) = monitor s" "strong (release s) = strong s"
  "lock (net (release s)) = lock (net s)" "bye (net (release s)) = bye (net s)"
  "parent_cancelled (release s) \<longleftrightarrow> parent_cancelled s \<or> strong s = 0"
  by (simp_all add: release_def)

lemma strong_update [simp]: "strong (s\<lparr>net := w\<rparr>) = strong s"
  by (simp add: strong_def)

lemma task_lock: "task_step parse render w w' \<Longrightarrow> lock w' = lock w \<and> bye w' = bye w"
  by (elim task_stepE) simp_all

lemma reconnect_bye: "reconnect_step render w w' \<Longrightarrow> bye w' = bye w"
  by (elim reconnect_stepE) simp_all

lemma owned_inv_step:
  assumes "owned_step parse render s s'" and "owned_inv s"
  shows "owned_inv s'"
  using assms(1)
proof cases
  case (drops n)
  then show ?thesis using assms(2) by (auto simp: owned_inv_def idle_def strong_def)
next
  case (runs w)
  then show ?thesis using assms(2) task_lock [OF runs(2)] by (simp add: owned_inv_def)
next
  case (attempts w)
  then show ?thesis using assms(2) reconnect_bye [OF attempts(3)] by (simp add: owned_inv_def strong_def)
qed (use assms(2) in \<open>auto simp: owned_inv_def strong_def\<close>)

lemma owned_inv_reachable:
  "(owned_step parse render)\<^sup>*\<^sup>* s s' \<Longrightarrow> owned_inv s \<Longrightarrow> owned_inv s'"
  by (induction rule: rtranclp_induct) (auto intro: owned_inv_step)

lemma owned_inv_start: "owned_inv (one_handle auto c)"
  by (simp add: owned_inv_def one_handle_def strong_def connected_world_def)

section \<open>After the last handle\<close>

text \<open>What still runs.\<close>

definition running :: "owned \<Rightarrow> nat" where
  "running s = of_bool (reader_up (net s)) + of_bool (writer_up (net s)) + of_bool (beat_up (net s)) +
     of_bool (monitor s = Watching)"

text \<open>Without a handle, only the tasks and the waking monitor take steps, and none of them is started.\<close>

lemma task_up:
  assumes "task_step parse render w w'"
  shows "(reader_up w' \<longrightarrow> reader_up w) \<and> (writer_up w' \<longrightarrow> writer_up w) \<and> (beat_up w' \<longrightarrow> beat_up w)"
  using assms by (elim task_stepE) simp_all

lemma orphan_step:
  assumes "owned_step parse render s s'" and "strong s = 0"
  shows "strong s' = 0 \<and> (reader_up (net s') \<longrightarrow> reader_up (net s)) \<and>
     (writer_up (net s') \<longrightarrow> writer_up (net s)) \<and> (beat_up (net s') \<longrightarrow> beat_up (net s)) \<and>
     (monitor s' = Watching \<longrightarrow> monitor s = Watching)"
  using assms(1)
proof cases
  case (runs w)
  then show ?thesis using assms(2) task_up [OF runs(2)] by simp
qed (use assms(2) in \<open>auto simp: strong_def split: if_splits\<close>)

lemma orphan_run:
  assumes "(owned_step parse render)\<^sup>*\<^sup>* s s'" and "strong s = 0"
  shows "strong s' = 0 \<and> (reader_up (net s') \<longrightarrow> reader_up (net s)) \<and>
     (writer_up (net s') \<longrightarrow> writer_up (net s)) \<and> (beat_up (net s') \<longrightarrow> beat_up (net s)) \<and>
     (monitor s' = Watching \<longrightarrow> monitor s = Watching)"
  using assms by (induction rule: rtranclp_induct) (auto dest: orphan_step)

text \<open>Whatever still runs can end, and then nothing is left to happen.\<close>

lemma orphan_progress:
  assumes "owned_inv s" and "strong s = 0" and "running s \<noteq> 0"
  shows "\<exists>s'. owned_step parse render s s' \<and> running s' < running s"
proof -
  have c: "parent_cancelled s" "handles s = 0" using assms(1,2) by (auto simp: owned_inv_def strong_def)
  consider "reader_up (net s)" | "writer_up (net s)" | "beat_up (net s)" | "monitor s = Watching"
    using assms(3) by (auto simp: running_def)
  then show ?thesis
  proof cases
    case 1
    then show ?thesis by (intro exI conjI, rule reader_cancels [OF c(1)]) (simp_all add: running_def)
  next
    case 2
    then show ?thesis by (intro exI conjI, rule writer_cancels [OF c(1)]) (simp_all add: running_def)
  next
    case 3
    then show ?thesis by (intro exI conjI, rule heartbeat_cancels [OF c(1)]) (simp_all add: running_def)
  next
    case 4
    then show ?thesis by (intro exI conjI, rule upgrade_fails [OF _ c(2)]) (simp_all add: running_def)
  qed
qed

lemma orphan_final:
  assumes "strong s = 0" and "running s = 0"
  shows "\<not> owned_step parse render s s'"
  using assms by (auto simp: running_def strong_def split: if_splits elim!: owned_stepE task_stepE)

lemma orphan_ends:
  assumes "owned_inv s" and "strong s = 0"
  shows "\<exists>z. (owned_step parse render)\<^sup>*\<^sup>* s z \<and> strong z = 0 \<and> running z = 0"
  using assms
proof (induction s rule: measure_induct_rule [of running])
  case (less s)
  show ?case
  proof (cases "running s = 0")
    case False
    then obtain s1 where s1: "owned_step parse render s s1" "running s1 < running s"
      using orphan_progress less.prems by blast
    have "owned_inv s1" "strong s1 = 0"
      using owned_inv_step [OF s1(1) less.prems(1)] orphan_step [OF s1(1) less.prems(2)] by simp_all
    from less.IH [OF s1(2) this] show ?thesis by (meson converse_rtranclp_into_rtranclp s1(1))
  qed (use less.prems in blast)
qed

text \<open>C17. Dropping the last handle ends the client. From the moment no \<open>CastClient\<close> is left and the
  automatic reconnect holds none, whatever happens, no handle comes back and no task is started; and
  from every state reached after it the tasks and the monitor can all end, after which no step at all
  is possible: nothing keeps the client alive.\<close>

theorem last_handle_ends_client:
  assumes "(owned_step parse render)\<^sup>*\<^sup>* (one_handle auto c) s" and "handles s = 0" and "monitor s \<noteq> Holding"
    and "(owned_step parse render)\<^sup>*\<^sup>* s s'"
  shows "handles s' = 0 \<and> monitor s' \<noteq> Holding \<and> parent_cancelled s' \<and>
     (reader_up (net s') \<longrightarrow> reader_up (net s)) \<and> (writer_up (net s') \<longrightarrow> writer_up (net s)) \<and>
     (beat_up (net s') \<longrightarrow> beat_up (net s)) \<and>
     (\<exists>z. (owned_step parse render)\<^sup>*\<^sup>* s' z \<and> running z = 0 \<and> (\<forall>z'. \<not> owned_step parse render z z'))"
proof -
  have orphan: "strong s = 0" using assms(2,3) by (simp add: strong_def)
  have run: "strong s' = 0" "(reader_up (net s') \<longrightarrow> reader_up (net s)) \<and>
     (writer_up (net s') \<longrightarrow> writer_up (net s)) \<and> (beat_up (net s') \<longrightarrow> beat_up (net s))"
    using orphan_run [OF assms(4) orphan] by simp_all
  have inv: "owned_inv s'"
    using owned_inv_reachable [OF rtranclp_trans [OF assms(1,4)] owned_inv_start] .
  then obtain z where "(owned_step parse render)\<^sup>*\<^sup>* s' z" "strong z = 0" "running z = 0"
    using orphan_ends run(1) by blast
  moreover have "handles s' = 0" "monitor s' \<noteq> Holding" using run(1) by (auto simp: strong_def split: if_splits)
  moreover have "parent_cancelled s'" using inv run(1) by (simp add: owned_inv_def)
  ultimately show ?thesis using run(2) orphan_final by blast
qed

lemma drop_only: "owned_step parse render (one_handle auto c) (release ((one_handle auto c)\<lparr>handles := 0\<rparr>))"
  by (rule drops) (simp_all add: one_handle_def idle_def connected_world_def)

theorem last_handle_ends_client_witness:
  "\<exists>z. (owned_step (\<lambda>_. None) (\<lambda>_. []))\<^sup>*\<^sup>* (one_handle True sample_client) z \<and> running z = 0"
proof -
  let ?s = "release ((one_handle True sample_client)\<lparr>handles := 0\<rparr>)"
  let ?step = "owned_step (\<lambda>_. None) (\<lambda>_. [])"
  have run: "?step\<^sup>*\<^sup>* (one_handle True sample_client) ?s" using drop_only by (rule r_into_rtranclp)
  have "handles ?s = 0" "monitor ?s \<noteq> Holding" by (simp_all add: one_handle_def)
  from last_handle_ends_client [OF run this rtranclp.rtrancl_refl] run show ?thesis
    by (meson rtranclp_trans)
qed

section \<open>Dropped during a reconnect\<close>

lemma attempts_run:
  assumes "(reconnect_step render)\<^sup>*\<^sup>* w w'" and "monitor s = Holding"
  shows "(owned_step parse render)\<^sup>*\<^sup>* (s\<lparr>net := w\<rparr>) (s\<lparr>net := w'\<rparr>)"
  using assms(1)
proof (induction rule: rtranclp_induct)
  case (step y z)
  have "owned_step parse render (s\<lparr>net := y\<rparr>) (s\<lparr>net := z\<rparr>)"
    using attempts [of "s\<lparr>net := y\<rparr>" render z parse] assms(2) step(2) by simp
  with step.IH show ?case by (rule rtranclp.rtrancl_into_rtrancl)
qed simp

text \<open>C18. A dropped client can come back for a while. The automatic reconnect holds a handle of its own
  while it sleeps and dials. If the device hangs up and the user drops the last \<open>CastClient\<close> after the
  monitor has woken, the monitor still reconnects: with no \<open>CastClient\<close> left, the client is connected
  to the device again with its three tasks running, until the monitor lets go of its handle.\<close>

theorem dropped_client_reconnects:
  assumes "\<not> shutting_down c"
  shows "\<exists>s s'. (owned_step parse render)\<^sup>*\<^sup>* (one_handle True c) s \<and> handles s = 0 \<and> \<not> alive (cl (net s)) \<and>
     (owned_step parse render)\<^sup>*\<^sup>* s s' \<and> handles s' = 0 \<and> is_connected (cl (net s')) \<and>
     connection (holder (cl (net s'))) = ConnConnected \<and>
     reader_up (net s') \<and> writer_up (net s') \<and> beat_up (net s')"
proof -
  let ?h = "\<lparr>net = hung_up c, handles = 1, monitor = Watching, parent_cancelled = False\<rparr>"
  let ?k = "?h\<lparr>monitor := Holding\<rparr>"
  let ?s = "?k\<lparr>handles := 0\<rparr>"
  let ?w = "(hung_up c)\<lparr>cl := snd (reconnect_with_attempt render 1 (Inr ()) (\<lambda>_. id) 0 (cl (hung_up c))),
      lock := Free, reader_up := True, writer_up := True, beat_up := True\<rparr>"
  have "task_step parse render (connected_world c) (hung_up c)"
    using read_failed [of "connected_world c" parse render ErrDisconnected]
    by (simp add: hung_up_def connected_world_def)
  then have "owned_step parse render (one_handle True c) ?h"
    using runs [of parse render "one_handle True c" "hung_up c"] by (simp add: one_handle_def)
  moreover have "owned_step parse render ?h ?k" using wakes [of ?h] assms by simp
  moreover have "owned_step parse render ?k ?s"
    using drops [of ?k 0] by (simp add: idle_def release_def strong_def hung_up_def connected_world_def)
  ultimately have "(owned_step parse render)\<^sup>*\<^sup>* (one_handle True c) ?s"
    by (meson rtranclp.rtrancl_into_rtrancl rtranclp.rtrancl_refl)
  moreover have "(owned_step parse render)\<^sup>*\<^sup>* ?s (?s\<lparr>net := ?w\<rparr>)"
    using attempts_run [OF reconnect_run [of "hung_up c" render 1 0], of ?s] assms by simp
  moreover have "cl ?w = greet render (respawned 1 0 (cl (hung_up c)))"
    using assms by (simp add: reconnect_phases)
  then have "is_connected (cl ?w)" "connection (holder (cl ?w)) = ConnConnected"
    by (simp_all add: is_connected_def)
  ultimately show ?thesis
    by (intro exI [of _ ?s] exI [of _ "?s\<lparr>net := ?w\<rparr>"]) simp
qed

theorem dropped_client_reconnects_witness:
  "\<exists>s. (owned_step (\<lambda>_. None) (\<lambda>_. []))\<^sup>*\<^sup>* (one_handle True sample_client) s \<and> handles s = 0 \<and>
     is_connected (cl (net s)) \<and> beat_up (net s)"
proof -
  have "\<not> shutting_down sample_client" by (simp add: sample_client_def)
  from dropped_client_reconnects [OF this, of "\<lambda>_. None" "\<lambda>_. []"] show ?thesis
    by (meson rtranclp_trans)
qed

end
