(* ===== verification/Test_Kit.thy ===== *)
theory Test_Kit
  imports Router
begin

text \<open>
  What the tests of the source are made of, for the theories that run them on the model: access to JSON
  values, and a printer and reader of JSON that work for a given list of values.
\<close>

section \<open>JSON values\<close>

abbreviation num :: "u64 \<Rightarrow> json" where "num n \<equiv> Number (PosInt n)"
abbreviation flt :: "f64 \<Rightarrow> json" where "flt d \<equiv> Number (Float d)"

text \<open>\<open>value[k]\<close> and \<open>value[i]\<close>, which give null where there is nothing.\<close>

definition at_key :: "json \<Rightarrow> string \<Rightarrow> json" where "at_key v k = unwrap_or Null (jget k v)"

definition at_index :: "json \<Rightarrow> nat \<Rightarrow> json" where
  "at_index v i = (case as_array v of Some vs \<Rightarrow> if i < length vs then vs ! i else Null | None \<Rightarrow> Null)"

text \<open>\<open>value == "..."\<close> and \<open>value == n\<close>.\<close>

definition is_str :: "json \<Rightarrow> string \<Rightarrow> bool" where "is_str v s \<longleftrightarrow> as_str v = Some s"
definition is_int :: "json \<Rightarrow> i64 \<Rightarrow> bool" where "is_int v n \<longleftrightarrow> as_i64 v = Some n"
definition is_f64 :: "json \<Rightarrow> f64 \<Rightarrow> bool" where "is_f64 v d \<longleftrightarrow> as_f64 v = Some d"
definition is_bool :: "json \<Rightarrow> bool \<Rightarrow> bool" where "is_bool v b \<longleftrightarrow> as_bool v = Some b"
definition is_u32 :: "json \<Rightarrow> u32 \<Rightarrow> bool" where "is_u32 v n \<longleftrightarrow> as_u64 v = Some (ucast n)"

lemma as_f64_flt [simp]: "as_f64 (flt d) = Some d"
  by (simp add: as_f64_def)

lemma as_array_jobj: "as_array (jobj kvs) = None"
  using is_obj_jobj [of kvs] by (simp add: is_obj_def as_array_def split: json.splits)

lemma jget_Null [simp]: "jget k Null = None"
  by (simp add: jget_def)

lemma as_array_Null [simp]: "as_array Null = None"
  by (simp add: as_array_def)

lemma jget_Array [simp]: "jget k (Array vs) = None"
  by (simp add: jget_def)

section \<open>A printer and reader for given values\<close>

text \<open>The values a test prints are read back.\<close>

definition reads_all :: "parser \<Rightarrow> render \<Rightarrow> json list \<Rightarrow> bool" where
  "reads_all parse render vs \<longleftrightarrow> list_all (\<lambda>v. parse (render v) = Some v) vs"

lemma reads_all_D: "reads_all parse render vs \<Longrightarrow> v \<in> set vs \<Longrightarrow> parse (render v) = Some v"
  by (auto simp: reads_all_def list_all_iff)

text \<open>Each value of the list is printed as its number in unary.\<close>

fun index_of :: "json \<Rightarrow> json list \<Rightarrow> nat" where
  "index_of v [] = 0"
| "index_of v (w # ws) = (if v = w then 0 else Suc (index_of v ws))"

definition number :: "json list \<Rightarrow> render" where
  "number vs v = replicate (index_of v vs) CHR ''x''"

definition lookup_number :: "json list \<Rightarrow> parser" where
  "lookup_number vs s =
     (if list_all (\<lambda>c. c = CHR ''x'') s \<and> length s < length vs then Some (vs ! length s) else None)"

lemma index_of_nth: "v \<in> set vs \<Longrightarrow> index_of v vs < length vs \<and> vs ! index_of v vs = v"
  by (induction vs) auto

lemma reads_numbers: "reads_all (lookup_number vs) (number vs) vs"
  by (auto simp: reads_all_def list_all_iff lookup_number_def number_def index_of_nth)

end
