(* ===== verification/Router_Tests.thy ===== *)
theory Router_Tests
  imports Test_Kit
begin

text \<open>
  The tests of \<open>client/router.rs\<close>, run on the model: each \<open>#[test]\<close> is a predicate that holds when all
  its assertions do. The text of a JSON literal is what \<open>render\<close> prints, and \<open>parse\<close> reads; the literals
  written as text are named here with the value they denote.
\<close>

section \<open>Fixtures\<close>

text \<open>\<open>try_recv\<close>, and \<open>rx.await.unwrap()\<close> on a oneshot channel.\<close>

definition try_recv :: "'a chan \<Rightarrow> 'a option \<times> 'a chan" where
  "try_recv ch = (case chan_recv ch of (Item x, ch') \<Rightarrow> (Some x, ch') | (_, ch') \<Rightarrow> (None, ch'))"

definition awaited :: "tracker \<Rightarrow> nat \<Rightarrow> json option" where
  "awaited t rx = (case senders t rx of Some (Sent v) \<Rightarrow> Some v | _ \<Rightarrow> None)"

definition test_setup :: shared where
  "test_setup =
     \<lparr>request_tracker = tracker_new 5000000000, event_ch = channel 64, write_ch = channel 64,
      holder = new_state, alive = True, last_activity = 0\<rparr>"

text \<open>The message of a test, routed.\<close>

definition routed :: "parser \<Rightarrow> render \<Rightarrow> string \<Rightarrow> string \<Rightarrow> string \<Rightarrow> shared \<Rightarrow> shared" where
  "routed parse render ns source payload s =
     route parse render (build_message ns source ''sender-0'' payload) s"

definition first_event :: "shared \<Rightarrow> cast_event option" where
  "first_event s = fst (try_recv (event_ch s))"

definition second_event :: "shared \<Rightarrow> cast_event option" where
  "second_event s = fst (try_recv (snd (try_recv (event_ch s))))"

definition first_written :: "shared \<Rightarrow> cast_message option" where
  "first_written s = fst (try_recv (write_ch s))"

text \<open>A request is registered, then the message with that identifier is routed; \<open>Some\<close> what the
  request gets.\<close>

definition answer_to_request ::
    "parser \<Rightarrow> render \<Rightarrow> string \<Rightarrow> string \<Rightarrow> (u32 \<Rightarrow> json) \<Rightarrow> u32 \<times> json option \<times> shared" where
  "answer_to_request parse render ns source payload =
     (case register (request_tracker test_setup) of
        ((i, rx), t) \<Rightarrow>
          (let s = routed parse render ns source (render (payload i)) (test_setup\<lparr>request_tracker := t\<rparr>)
           in (i, awaited (request_tracker s) rx, s)))"

section \<open>Payloads\<close>

definition ping_text :: string where "ping_text = type_text ''PING''"
definition pong_text :: string where "pong_text = type_text ''PONG''"
definition close_text :: string where "close_text = type_text ''CLOSE''"
definition broadcast_text :: string where
  "broadcast_text = ''{'' @ quoted ''data'' @ '':'' @ quoted ''broadcast'' @ ''}''"

definition receiver_payload :: "u32 \<Rightarrow> f64 \<Rightarrow> bool \<Rightarrow> json" where
  "receiver_payload i level muted = jobj
     [(''type'', String ''RECEIVER_STATUS''), (''requestId'', of_u32 i),
      (''status'', jobj
         [(''volume'', jobj [(''level'', flt level), (''muted'', Bool muted)]),
          (''applications'', Array [])])]"

definition full_volume :: json where
  "full_volume = jobj [(''level'', flt F64_ONE), (''muted'', Bool False)]"

definition playing_payload :: "u32 \<Rightarrow> u64 \<Rightarrow> f64 \<Rightarrow> json" where
  "playing_payload i session time = jobj
     [(''type'', String ''MEDIA_STATUS''), (''requestId'', of_u32 i),
      (''status'', Array [jobj
         [(''mediaSessionId'', num session), (''playerState'', String ''PLAYING''),
          (''currentTime'', flt time), (''volume'', full_volume)]])]"

definition finished_payload :: "u64 \<Rightarrow> f64 \<Rightarrow> json" where
  "finished_payload session time = jobj
     [(''type'', String ''MEDIA_STATUS''), (''requestId'', num 0),
      (''status'', Array [jobj
         [(''mediaSessionId'', num session), (''playerState'', String ''IDLE''),
          (''idleReason'', String ''FINISHED''), (''currentTime'', flt time), (''volume'', full_volume)]])]"

definition load_failed_payload :: "u32 \<Rightarrow> json" where
  "load_failed_payload i = jobj
     [(''type'', String ''LOAD_FAILED''), (''requestId'', of_u32 i), (''itemId'', num 1)]"

definition load_cancelled_payload :: "u32 \<Rightarrow> json" where
  "load_cancelled_payload i = jobj [(''type'', String ''LOAD_CANCELLED''), (''requestId'', of_u32 i)]"

definition invalid_request_payload :: "u32 \<Rightarrow> json" where
  "invalid_request_payload i = jobj
     [(''type'', String ''INVALID_REQUEST''), (''requestId'', of_u32 i), (''reason'', String ''bad stuff'')]"

definition unknown_payload :: json where
  "unknown_payload = jobj [(''type'', String ''SOME_UNKNOWN_THING''), (''requestId'', num 0)]"

definition hello_payload :: "u32 \<Rightarrow> json" where
  "hello_payload i = jobj [(''requestId'', of_u32 i), (''data'', String ''hello'')]"

abbreviation CUSTOM_NS :: string where "CUSTOM_NS \<equiv> ''urn:x-cast:com.example.custom''"

section \<open>Heartbeat and connection messages\<close>

definition test_ping_auto_reply :: "parser \<Rightarrow> render \<Rightarrow> bool" where
  "test_ping_auto_reply parse render \<longleftrightarrow>
     (case first_written (routed parse render NS_HEARTBEAT ''receiver-0'' ping_text test_setup) of
        None \<Rightarrow> False
      | Some reply \<Rightarrow> namespace reply = NS_HEARTBEAT \<and>
          (case Option.bind (payload_utf8 reply) parse of
             None \<Rightarrow> False | Some payload \<Rightarrow> is_str (at_key payload ''type'') ''PONG''))"

definition test_pong_does_not_reply :: "parser \<Rightarrow> render \<Rightarrow> bool" where
  "test_pong_does_not_reply parse render \<longleftrightarrow>
     first_written (routed parse render NS_HEARTBEAT ''receiver-0'' pong_text test_setup) = None"

definition test_close_emits_raw_message :: "parser \<Rightarrow> render \<Rightarrow> bool" where
  "test_close_emits_raw_message parse render \<longleftrightarrow>
     (case first_event (routed parse render NS_CONNECTION ''web-123'' close_text test_setup) of
        Some (EvRawMessage ns source _ _) \<Rightarrow> ns = NS_CONNECTION \<and> source = ''web-123''
      | _ \<Rightarrow> False)"

definition test_close_does_not_emit_disconnected :: "parser \<Rightarrow> render \<Rightarrow> bool" where
  "test_close_does_not_emit_disconnected parse render \<longleftrightarrow>
     (case first_event (routed parse render NS_CONNECTION ''web-123'' close_text test_setup) of
        Some e \<Rightarrow> \<not> is_disconnected e | None \<Rightarrow> False)"

section \<open>Receiver statuses\<close>

definition test_receiver_status_resolves_request :: "parser \<Rightarrow> render \<Rightarrow> bool" where
  "test_receiver_status_resolves_request parse render \<longleftrightarrow>
     (case answer_to_request parse render NS_RECEIVER ''receiver-0''
             (\<lambda>i. receiver_payload i 0x3FE0000000000000 False) of \<comment> \<open>\<open>0.5\<close>\<close>
        (i, Some v, _) \<Rightarrow> is_u32 (at_key v ''requestId'') i | _ \<Rightarrow> False)"

definition test_receiver_status_emits_event :: "parser \<Rightarrow> render \<Rightarrow> bool" where
  "test_receiver_status_emits_event parse render \<longleftrightarrow>
     (case first_event (routed parse render NS_RECEIVER ''receiver-0''
             (render (receiver_payload 0 0x3FE999999999999A True)) test_setup) of \<comment> \<open>\<open>0.8\<close>\<close>
        Some (EvReceiverStatusChanged st) \<Rightarrow>
          vol_level (rs_volume st) = 0x3F4CCCCD \<and> vol_muted (rs_volume st)
      | _ \<Rightarrow> False)"

definition test_receiver_status_request_id_zero_not_resolved :: "parser \<Rightarrow> render \<Rightarrow> bool" where
  "test_receiver_status_request_id_zero_not_resolved parse render \<longleftrightarrow>
     (case answer_to_request parse render NS_RECEIVER ''receiver-0''
             (\<lambda>_. receiver_payload 0 F64_ONE False) of
        (_, _, s) \<Rightarrow> fst (resolve 1 jempty (request_tracker s)))"

section \<open>Media statuses\<close>

definition test_media_status_resolves_request :: "parser \<Rightarrow> render \<Rightarrow> bool" where
  "test_media_status_resolves_request parse render \<longleftrightarrow>
     (case answer_to_request parse render NS_MEDIA ''web-5''
             (\<lambda>i. playing_payload i 42 0x4025000000000000) of \<comment> \<open>\<open>10.5\<close>\<close>
        (_, Some v, _) \<Rightarrow> is_int (at_key (at_index (at_key v ''status'') 0) ''mediaSessionId'') 42
      | _ \<Rightarrow> False)"

definition test_media_status_updates_session_id :: "parser \<Rightarrow> render \<Rightarrow> bool" where
  "test_media_status_updates_session_id parse render \<longleftrightarrow>
     media_session (holder (routed parse render NS_MEDIA ''web-5''
       (render (playing_payload 0 77 F64_ZERO)) test_setup)) = 77"

definition test_media_session_ended_event :: "parser \<Rightarrow> render \<Rightarrow> bool" where
  "test_media_session_ended_event parse render \<longleftrightarrow>
     (let s = routed parse render NS_MEDIA ''web-5''
                (render (finished_payload 5 0x405E000000000000)) test_setup \<comment> \<open>\<open>120.0\<close>\<close>
      in (case first_event s of
            Some (EvMediaSessionEnded session reason) \<Rightarrow> session = 5 \<and> reason = Finished | _ \<Rightarrow> False) \<and>
         (case second_event s of Some e \<Rightarrow> is_media_status e | None \<Rightarrow> False))"

definition test_idle_session_zero_no_session_ended :: "parser \<Rightarrow> render \<Rightarrow> bool" where
  "test_idle_session_zero_no_session_ended parse render \<longleftrightarrow>
     (let s = routed parse render NS_MEDIA ''web-5'' (render (finished_payload 0 F64_ZERO)) test_setup
      in (case first_event s of Some e \<Rightarrow> is_media_status e | None \<Rightarrow> False) \<and> second_event s = None)"

text \<open>The three refusals, each with its type.\<close>

definition refusal_resolves :: "parser \<Rightarrow> render \<Rightarrow> (u32 \<Rightarrow> json) \<Rightarrow> string \<Rightarrow> bool" where
  "refusal_resolves parse render payload t \<longleftrightarrow>
     (case answer_to_request parse render NS_MEDIA ''web-5'' payload of
        (_, Some v, _) \<Rightarrow> is_str (at_key v ''type'') t | _ \<Rightarrow> False)"

definition test_load_failed_resolves_request :: "parser \<Rightarrow> render \<Rightarrow> bool" where
  "test_load_failed_resolves_request parse render \<longleftrightarrow>
     refusal_resolves parse render load_failed_payload ''LOAD_FAILED''"

definition test_load_cancelled_resolves_request :: "parser \<Rightarrow> render \<Rightarrow> bool" where
  "test_load_cancelled_resolves_request parse render \<longleftrightarrow>
     refusal_resolves parse render load_cancelled_payload ''LOAD_CANCELLED''"

definition test_invalid_request_resolves_request :: "parser \<Rightarrow> render \<Rightarrow> bool" where
  "test_invalid_request_resolves_request parse render \<longleftrightarrow>
     refusal_resolves parse render invalid_request_payload ''INVALID_REQUEST''"

definition test_unknown_media_message_ignored :: "parser \<Rightarrow> render \<Rightarrow> bool" where
  "test_unknown_media_message_ignored parse render \<longleftrightarrow>
     first_event (routed parse render NS_MEDIA ''web-5'' (render unknown_payload) test_setup) = None"

section \<open>Other namespaces and bad input\<close>

definition test_custom_namespace_with_request_id_resolves :: "parser \<Rightarrow> render \<Rightarrow> bool" where
  "test_custom_namespace_with_request_id_resolves parse render \<longleftrightarrow>
     (case answer_to_request parse render CUSTOM_NS ''web-5'' hello_payload of
        (_, Some v, s) \<Rightarrow> is_str (at_key v ''data'') ''hello'' \<and> first_event s = None
      | _ \<Rightarrow> False)"

definition test_custom_namespace_no_request_id_emits_raw :: "parser \<Rightarrow> render \<Rightarrow> bool" where
  "test_custom_namespace_no_request_id_emits_raw parse render \<longleftrightarrow>
     (case first_event (routed parse render CUSTOM_NS ''web-5'' broadcast_text test_setup) of
        Some (EvRawMessage ns source _ p) \<Rightarrow>
          ns = CUSTOM_NS \<and> source = ''web-5'' \<and> str_contains ''broadcast'' p
      | _ \<Rightarrow> False)"

definition test_invalid_json_payload_ignored :: "parser \<Rightarrow> render \<Rightarrow> bool" where
  "test_invalid_json_payload_ignored parse render \<longleftrightarrow>
     (let s = routed parse render NS_RECEIVER ''receiver-0'' ''not valid json'' test_setup
      in first_event s = None \<and> first_written s = None)"

section \<open>Parsing\<close>

definition test_parse_receiver_status_missing_status :: bool where
  "test_parse_receiver_status_missing_status \<longleftrightarrow>
     parse_receiver_status (jobj [(''type'', String ''RECEIVER_STATUS'')]) = None"

definition test_parse_receiver_status_missing_volume :: bool where
  "test_parse_receiver_status_missing_volume \<longleftrightarrow>
     parse_receiver_status (jobj [(''status'', jobj [(''applications'', Array [])])]) = None"

definition test_parse_media_status_empty_array :: bool where
  "test_parse_media_status_empty_array \<longleftrightarrow> parse_media_status (jobj [(''status'', Array [])]) = None"

definition test_parse_media_status_missing_player_state :: bool where
  "test_parse_media_status_missing_player_state \<longleftrightarrow>
     parse_media_status (jobj [(''status'', Array [jobj
       [(''mediaSessionId'', num 1), (''currentTime'', flt F64_ZERO)]])]) = None"

definition test_classify_media_message_all_types :: bool where
  "test_classify_media_message_all_types \<longleftrightarrow>
     classify_media_message ''MEDIA_STATUS'' = MStatus \<and>
     classify_media_message ''LOAD_FAILED'' = MLoadFailed \<and>
     classify_media_message ''LOAD_CANCELLED'' = MLoadCancelled \<and>
     classify_media_message ''INVALID_REQUEST'' = MInvalidRequest \<and>
     classify_media_message ''WHATEVER'' = MUnknown"

section \<open>All of them pass\<close>

text \<open>What the tests need of \<open>serde_json\<close>: the values they print are read back, and so are the
  literals.\<close>

definition test_payloads :: "json list" where
  "test_payloads =
     [pong_payload, receiver_payload 1 0x3FE0000000000000 False, receiver_payload 0 0x3FE999999999999A True,
      receiver_payload 0 F64_ONE False, playing_payload 1 42 0x4025000000000000,
      playing_payload 0 77 F64_ZERO, finished_payload 5 0x405E000000000000, finished_payload 0 F64_ZERO,
      load_failed_payload 1, load_cancelled_payload 1, invalid_request_payload 1, unknown_payload,
      hello_payload 1]"

definition reads_tests :: "parser \<Rightarrow> render \<Rightarrow> bool" where
  "reads_tests parse render \<longleftrightarrow>
     reads_all parse render test_payloads \<and>
     parse close_text = Some (jobj [(''type'', String ''CLOSE'')]) \<and>
     parse broadcast_text = Some (jobj [(''data'', String ''broadcast'')]) \<and>
     parse ''not valid json'' = None"

lemma reads_each: "reads_tests parse render \<Longrightarrow> v \<in> set test_payloads \<Longrightarrow> parse (render v) = Some v"
  unfolding reads_tests_def using reads_all_D by blast

lemma register_first: "register (tracker_new t) =
    ((1, 0), \<lparr>counter = 1, pending = [1 \<mapsto> 0], timeout = t, next_chan = 1, senders = [0 \<mapsto> Held]\<rparr>)"
  by (simp add: register_def fetch_add_def tracker_new_def oneshot_channel_def drop_sender_def Let_def)

lemmas fixture_defs = routed_def first_event_def second_event_def first_written_def try_recv_def
  chan_recv_def test_setup_def route_def route_heartbeat_def route_connection_def route_receiver_def
  route_media_def route_other_def shared_ops chan_send_def chan_try_send_def channel_def
  build_message_def at_key_def at_index_def is_str_def is_int_def is_u32_def answer_to_request_def
  awaited_def Let_def resolve_correlated_def positive_request_id_def resolve_def parse_receiver_status_def
  parse_media_status_def handle_media_status_def session_ended_def classify_media_message_def
  raw_message_def parse_player_state_def parse_idle_reason_def register_first media_type_defs
  MSG_RECEIVER_STATUS_def new_state_def of_u32_def as_u64_def as_i64_def as_f64_def

lemmas payload_defs = receiver_payload_def playing_payload_def finished_payload_def full_volume_def
  load_failed_payload_def load_cancelled_payload_def invalid_request_payload_def unknown_payload_def
  hello_payload_def pong_payload_def

lemma custom_ns: "CUSTOM_NS \<noteq> NS_MEDIA" "CUSTOM_NS \<noteq> NS_RECEIVER" "CUSTOM_NS \<noteq> NS_CONNECTION"
  "CUSTOM_NS \<noteq> NS_HEARTBEAT"
  by (simp_all add: NS_MEDIA_def NS_RECEIVER_def NS_CONNECTION_def NS_HEARTBEAT_def)

lemma eight_tenths: "f64_to_f32 0x3FE999999999999A = 0x3F4CCCCD"
  by (simp add: f64_to_f32_def f64_mag_def f64_neg_def f64_is_nan_def mag_64_to_32_def rne_def
      f32_make_def Let_def)

lemma heartbeat_tests:
  assumes "reads_tests parse render"
  shows "test_ping_auto_reply parse render" "test_pong_does_not_reply parse render"
  using reads_each [OF assms, of pong_payload]
  by (simp_all add: test_payloads_def test_ping_auto_reply_def test_pong_does_not_reply_def fixture_defs
      is_ping_def payload_contains_def ping_text_def pong_text_def type_text_def pong_def
      pong_payload_def MSG_PONG_def)

lemma connection_tests:
  assumes "reads_tests parse render"
  shows "test_close_emits_raw_message parse render" "test_close_does_not_emit_disconnected parse render"
  using assms
  by (simp_all add: test_close_emits_raw_message_def test_close_does_not_emit_disconnected_def
      reads_tests_def fixture_defs is_disconnected_def)

lemma receiver_tests:
  assumes "reads_tests parse render"
  shows "test_receiver_status_resolves_request parse render"
    "test_receiver_status_emits_event parse render"
    "test_receiver_status_request_id_zero_not_resolved parse render"
  using reads_each [OF assms, of "receiver_payload 1 0x3FE0000000000000 False"]
    reads_each [OF assms, of "receiver_payload 0 0x3FE999999999999A True"]
    reads_each [OF assms, of "receiver_payload 0 F64_ONE False"]
  by (simp_all add: test_payloads_def test_receiver_status_resolves_request_def eight_tenths
      test_receiver_status_emits_event_def test_receiver_status_request_id_zero_not_resolved_def
      fixture_defs receiver_payload_def)

lemma media_request_tests:
  assumes "reads_tests parse render"
  shows "test_media_status_resolves_request parse render" "test_media_status_updates_session_id parse render"
  using reads_each [OF assms, of "playing_payload 1 42 0x4025000000000000"]
    reads_each [OF assms, of "playing_payload 0 77 F64_ZERO"]
  by (simp_all add: test_payloads_def test_media_status_resolves_request_def
      test_media_status_updates_session_id_def fixture_defs payload_defs)

lemma media_idle_tests:
  assumes "reads_tests parse render"
  shows "test_media_session_ended_event parse render"
    "test_idle_session_zero_no_session_ended parse render"
  using reads_each [OF assms, of "finished_payload 5 0x405E000000000000"]
    reads_each [OF assms, of "finished_payload 0 F64_ZERO"]
  by (simp_all add: test_payloads_def test_media_session_ended_event_def is_media_status_def
      test_idle_session_zero_no_session_ended_def fixture_defs payload_defs)

lemma refusal_tests:
  assumes "reads_tests parse render"
  shows "test_load_failed_resolves_request parse render" "test_load_cancelled_resolves_request parse render"
    "test_invalid_request_resolves_request parse render" "test_unknown_media_message_ignored parse render"
  using reads_each [OF assms, of "load_failed_payload 1"] reads_each [OF assms, of "load_cancelled_payload 1"]
    reads_each [OF assms, of "invalid_request_payload 1"] reads_each [OF assms, of unknown_payload]
  by (simp_all add: test_payloads_def test_load_failed_resolves_request_def refusal_resolves_def
      test_load_cancelled_resolves_request_def test_invalid_request_resolves_request_def
      test_unknown_media_message_ignored_def fixture_defs payload_defs)

lemma other_tests:
  assumes "reads_tests parse render"
  shows "test_custom_namespace_with_request_id_resolves parse render"
    "test_custom_namespace_no_request_id_emits_raw parse render"
    "test_invalid_json_payload_ignored parse render"
  using reads_each [OF assms, of "hello_payload 1"] assms
  by (simp_all add: test_payloads_def test_custom_namespace_with_request_id_resolves_def
      test_custom_namespace_no_request_id_emits_raw_def test_invalid_json_payload_ignored_def
      reads_tests_def fixture_defs payload_defs custom_ns broadcast_text_def)

lemma parsing_tests:
  "test_parse_receiver_status_missing_status" "test_parse_receiver_status_missing_volume"
  "test_parse_media_status_empty_array" "test_parse_media_status_missing_player_state"
  "test_classify_media_message_all_types"
  by (simp_all add: test_parse_receiver_status_missing_status_def
      test_parse_receiver_status_missing_volume_def test_parse_media_status_empty_array_def
      test_parse_media_status_missing_player_state_def test_classify_media_message_all_types_def
      parse_receiver_status_def parse_media_status_def classify_media_message_def media_type_defs)

definition router_tests :: "(parser \<Rightarrow> render \<Rightarrow> bool) list" where
  "router_tests =
     [test_ping_auto_reply, test_pong_does_not_reply, test_close_emits_raw_message,
      test_close_does_not_emit_disconnected, test_receiver_status_resolves_request,
      test_receiver_status_emits_event, test_receiver_status_request_id_zero_not_resolved,
      test_media_status_resolves_request, test_media_status_updates_session_id,
      test_media_session_ended_event, test_idle_session_zero_no_session_ended,
      test_load_failed_resolves_request, test_load_cancelled_resolves_request,
      test_invalid_request_resolves_request, test_unknown_media_message_ignored,
      test_custom_namespace_with_request_id_resolves, test_custom_namespace_no_request_id_emits_raw,
      test_invalid_json_payload_ignored,
      \<lambda>_ _. test_parse_receiver_status_missing_status, \<lambda>_ _. test_parse_receiver_status_missing_volume,
      \<lambda>_ _. test_parse_media_status_empty_array, \<lambda>_ _. test_parse_media_status_missing_player_state,
      \<lambda>_ _. test_classify_media_message_all_types]"

text \<open>With any printer and reader of JSON that read the tests' messages as they were written, each of the 23
  tests of \<open>client/router.rs\<close> passes.\<close>

lemma router_tests_pass:
  assumes "reads_tests parse render"
  shows "list_all (\<lambda>test. test parse render) router_tests"
  unfolding router_tests_def
  by (simp add: heartbeat_tests [OF assms] connection_tests [OF assms] receiver_tests [OF assms]
      media_request_tests [OF assms] media_idle_tests [OF assms] refusal_tests [OF assms]
      other_tests [OF assms] parsing_tests)

end
