(* ===== verification/Channel_Tests.thy ===== *)
theory Channel_Tests
  imports Test_Kit
begin

text \<open>
  The tests of \<open>channel/media.rs\<close> and \<open>channel/receiver.rs\<close>, run on the model: what the messages of
  the builders say once their text is read back.
\<close>

section \<open>Fixtures\<close>

definition parse_payload :: "parser \<Rightarrow> cast_message \<Rightarrow> json option" where
  "parse_payload parse msg = Option.bind (payload_utf8 msg) parse"

text \<open>A test of a message: its assertions on the payload read back.\<close>

definition payload_says :: "parser \<Rightarrow> cast_message \<Rightarrow> (json \<Rightarrow> bool) \<Rightarrow> bool" where
  "payload_says parse msg says = (case parse_payload parse msg of Some p \<Rightarrow> says p | None \<Rightarrow> False)"

definition plain :: media_info where "plain = media_info_new ''url'' ''video/mp4''"

definition with_poster :: media_info where
  "with_poster = media_info_metadata plain
     (Movie (Some ''Test Movie'') None (Some ''Studio X'')
       [\<lparr>img_url = ''http://img.jpg'', img_width = Some 800, img_height = None\<rparr>])"

definition custom_values :: json where
  "custom_values = jobj
     [(''positionOffset'', flt 0x4072C00000000000), (''realDuration'', flt 0x40BC200000000000), (''isLive'', Bool False)]"

definition movie_queue :: "queue_item list" where
  "movie_queue =
     [\<lparr>qi_media = media_info_metadata
         (media_info_duration (media_info_new ''url1'' ''video/mp4'') 0x4072C00000000000)
         (Movie (Some ''Movie 1'') None None []),
       qi_autoplay = True, qi_start_time = F64_ZERO\<rparr>]"

definition plain_queue :: "queue_item list" where
  "plain_queue = [\<lparr>qi_media = plain, qi_autoplay = True, qi_start_time = F64_ZERO\<rparr>]"

section \<open>\<open>media.rs\<close>: loading\<close>

definition test_load_with_metadata :: "parser \<Rightarrow> render \<Rightarrow> bool" where
  "test_load_with_metadata parse render \<longleftrightarrow>
     payload_says parse (load_msg render 1 ''t'' ''s'' with_poster True F64_ZERO None) (\<lambda>p.
       (let meta = at_key (at_key p ''media'') ''metadata'';
            img = at_index (at_key meta ''images'') 0
        in is_int (at_key meta ''metadataType'') 1 \<and> is_str (at_key meta ''title'') ''Test Movie'' \<and>
           is_str (at_key meta ''studio'') ''Studio X'' \<and> is_str (at_key img ''url'') ''http://img.jpg'' \<and>
           is_int (at_key img ''width'') 800))"

definition test_load_with_duration :: "parser \<Rightarrow> render \<Rightarrow> bool" where
  "test_load_with_duration parse render \<longleftrightarrow>
     payload_says parse (load_msg render 1 ''t'' ''s'' (media_info_duration plain 0x405E200000000000) False 0x4024000000000000 None)
       (\<lambda>p. is_f64 (at_key (at_key p ''media'') ''duration'') 0x405E200000000000 \<and>
            is_bool (at_key p ''autoplay'') False \<and> is_f64 (at_key p ''currentTime'') 0x4024000000000000)"

definition test_load_live_stream_type :: "parser \<Rightarrow> render \<Rightarrow> bool" where
  "test_load_live_stream_type parse render \<longleftrightarrow>
     payload_says parse (load_msg render 1 ''t'' ''s'' (media_info_live ''url'' ''application/x-mpegURL'')
         True F64_ZERO None)
       (\<lambda>p. is_str (at_key (at_key p ''media'') ''streamType'') ''LIVE'')"

definition test_load_with_custom_data :: "parser \<Rightarrow> render \<Rightarrow> bool" where
  "test_load_with_custom_data parse render \<longleftrightarrow>
     payload_says parse (load_msg render 1 ''t'' ''s'' plain True F64_ZERO (Some custom_values)) (\<lambda>p.
       (let d = at_key p ''customData''
        in is_f64 (at_key d ''positionOffset'') 0x4072C00000000000 \<and> is_f64 (at_key d ''realDuration'') 0x40BC200000000000 \<and>
           is_bool (at_key d ''isLive'') False))"

definition test_load_without_custom_data :: "parser \<Rightarrow> render \<Rightarrow> bool" where
  "test_load_without_custom_data parse render \<longleftrightarrow>
     payload_says parse (load_msg render 1 ''t'' ''s'' plain True F64_ZERO None)
       (\<lambda>p. at_key p ''customData'' = jempty)"

section \<open>\<open>media.rs\<close>: queues\<close>

definition test_queue_load_includes_metadata_and_duration :: "parser \<Rightarrow> render \<Rightarrow> bool" where
  "test_queue_load_includes_metadata_and_duration parse render \<longleftrightarrow>
     payload_says parse (queue_load_msg render 1 ''t'' ''s'' movie_queue 0 RepeatOff) (\<lambda>p.
       is_str (at_key p ''type'') ''QUEUE_LOAD'' \<and> is_str (at_key p ''repeatMode'') ''REPEAT_OFF'' \<and>
       is_int (at_key p ''startIndex'') 0 \<and>
       (let m = at_key (at_index (at_key p ''items'') 0) ''media''
        in is_f64 (at_key m ''duration'') 0x4072C00000000000 \<and>
           is_int (at_key (at_key m ''metadata'') ''metadataType'') 1 \<and>
           is_str (at_key (at_key m ''metadata'') ''title'') ''Movie 1''))"

definition test_queue_load_repeat_modes :: "parser \<Rightarrow> render \<Rightarrow> bool" where
  "test_queue_load_repeat_modes parse render \<longleftrightarrow>
     list_all (\<lambda>(mode, expected).
         payload_says parse (queue_load_msg render 1 ''t'' ''s'' [] 0 mode)
           (\<lambda>p. is_str (at_key p ''repeatMode'') expected))
       [(RepeatOff, ''REPEAT_OFF''), (RepeatAll, ''REPEAT_ALL''), (RepeatSingle, ''REPEAT_SINGLE''),
        (RepeatAllAndShuffle, ''REPEAT_ALL_AND_SHUFFLE'')]"

definition test_queue_insert_with_insert_before :: "parser \<Rightarrow> render \<Rightarrow> bool" where
  "test_queue_insert_with_insert_before parse render \<longleftrightarrow>
     payload_says parse (queue_insert_msg render 1 ''t'' 42 plain_queue (Some 3)) (\<lambda>p.
       is_str (at_key p ''type'') ''QUEUE_INSERT'' \<and> is_int (at_key p ''mediaSessionId'') 42 \<and>
       is_int (at_key p ''insertBefore'') 3)"

definition test_queue_insert_without_insert_before :: "parser \<Rightarrow> render \<Rightarrow> bool" where
  "test_queue_insert_without_insert_before parse render \<longleftrightarrow>
     payload_says parse (queue_insert_msg render 1 ''t'' 42 [] None)
       (\<lambda>p. jget ''insertBefore'' p = None)"

section \<open>\<open>media.rs\<close>: metadata and images\<close>

definition test_serialize_metadata_all_types :: bool where
  "test_serialize_metadata_all_types \<longleftrightarrow>
     (let v = serialize_metadata (Generic (Some ''Title'') None [])
      in is_int (at_key v ''metadataType'') 0) \<and>
     (let v = serialize_metadata (TvShow (Some ''Series'') (Some ''Ep'') (Some 2) (Some 5) [])
      in is_int (at_key v ''metadataType'') 2 \<and> is_str (at_key v ''seriesTitle'') ''Series'' \<and>
         is_int (at_key v ''season'') 2) \<and>
     (let v = serialize_metadata
                (MusicTrack (Some ''Song'') (Some ''Artist'') (Some ''Album'') None (Some 7) (Some 1) [])
      in is_int (at_key v ''metadataType'') 3 \<and> is_int (at_key v ''trackNumber'') 7) \<and>
     (let v = serialize_metadata
                (Photo None None (Some ''NYC'') (Some 0x404459999999999A) (Some 0xC052800000000000) (Some 1920) (Some 1080) [])
      in is_int (at_key v ''metadataType'') 4 \<and> is_f64 (at_key v ''latitude'') 0x404459999999999A) \<and>
     (let v = serialize_metadata (AudiobookChapter (Some ''Book'') (Some ''Ch 1'') (Some 1) None [])
      in is_int (at_key v ''metadataType'') 5 \<and> is_str (at_key v ''bookTitle'') ''Book'')"

definition test_serialize_metadata_omits_none_fields :: bool where
  "test_serialize_metadata_omits_none_fields \<longleftrightarrow>
     (let v = serialize_metadata (Movie (Some ''Movie'') None None [])
      in is_obj v \<and> is_str (at_key v ''title'') ''Movie'' \<and> jget ''subtitle'' v = None \<and>
         jget ''studio'' v = None \<and> jget ''metadataType'' v \<noteq> None \<and> jget ''images'' v \<noteq> None)"

definition test_serialize_images_with_dimensions :: bool where
  "test_serialize_images_with_dimensions \<longleftrightarrow>
     (case as_array (serialize_images
             [\<lparr>img_url = ''http://a.jpg'', img_width = Some 100, img_height = Some 200\<rparr>,
              \<lparr>img_url = ''http://b.jpg'', img_width = None, img_height = None\<rparr>]) of
        Some [a, b] \<Rightarrow> is_int (at_key a ''width'') 100 \<and> is_int (at_key a ''height'') 200 \<and>
          jget ''width'' b = None
      | _ \<Rightarrow> False)"

definition test_serialize_images_empty :: bool where
  "test_serialize_images_empty \<longleftrightarrow> as_array (serialize_images []) = Some []"

section \<open>\<open>receiver.rs\<close>\<close>

definition test_set_volume_level_only :: "parser \<Rightarrow> render \<Rightarrow> bool" where
  "test_set_volume_level_only parse render \<longleftrightarrow>
     payload_says parse (set_volume_msg render 1 (Some 0x3F000000) None) (\<lambda>p.
       is_str (at_key p ''type'') ''SET_VOLUME'' \<and> is_f64 (at_key (at_key p ''volume'') ''level'') 0x3FE0000000000000 \<and>
       jget ''muted'' (at_key p ''volume'') = None)"

definition test_set_volume_muted_only :: "parser \<Rightarrow> render \<Rightarrow> bool" where
  "test_set_volume_muted_only parse render \<longleftrightarrow>
     payload_says parse (set_volume_msg render 1 None (Some True)) (\<lambda>p.
       jget ''level'' (at_key p ''volume'') = None \<and> is_bool (at_key (at_key p ''volume'') ''muted'') True)"

definition test_set_volume_both :: "parser \<Rightarrow> render \<Rightarrow> bool" where
  "test_set_volume_both parse render \<longleftrightarrow>
     payload_says parse (set_volume_msg render 1 (Some 0x3E99999A) (Some False)) (\<lambda>p.
       is_f64 (at_key (at_key p ''volume'') ''level'') 0x3FD3333340000000 \<and>
       is_bool (at_key (at_key p ''volume'') ''muted'') False)"

section \<open>All of them pass\<close>

definition channel_payloads :: "json list" where
  "channel_payloads =
     [load_payload 1 ''s'' with_poster True F64_ZERO None,
      load_payload 1 ''s'' (media_info_duration plain 0x405E200000000000) False 0x4024000000000000 None,
      load_payload 1 ''s'' (media_info_live ''url'' ''application/x-mpegURL'') True F64_ZERO None,
      load_payload 1 ''s'' plain True F64_ZERO (Some custom_values),
      load_payload 1 ''s'' plain True F64_ZERO None,
      queue_load_payload 1 ''s'' movie_queue 0 RepeatOff,
      queue_load_payload 1 ''s'' [] 0 RepeatOff, queue_load_payload 1 ''s'' [] 0 RepeatAll,
      queue_load_payload 1 ''s'' [] 0 RepeatSingle, queue_load_payload 1 ''s'' [] 0 RepeatAllAndShuffle,
      queue_insert_payload 1 42 plain_queue (Some 3), queue_insert_payload 1 42 [] None,
      set_volume_payload 1 (Some 0x3F000000) None, set_volume_payload 1 None (Some True),
      set_volume_payload 1 (Some 0x3E99999A) (Some False)]"

text \<open>The floats of the tests are finite, and the two levels widen to what the test expects.\<close>

lemma test_floats:
  "f64_is_finite 0x405E200000000000" "f64_is_finite 0x4024000000000000" "f64_is_finite 0x4072C00000000000" "f64_is_finite 0x404459999999999A"
  "f64_is_finite F64_ZERO" "f32_is_finite 0x3F000000" "f32_is_finite 0x3E99999A"
  "f32_to_f64 0x3F000000 = 0x3FE0000000000000" "f32_to_f64 0x3E99999A = 0x3FD3333340000000"
  by (simp_all add: f64_is_finite_def f64_mag_def f32_is_finite_def f32_mag_def F64_ZERO_def
      f32_to_f64_def f32_neg_def f32_is_nan_def mag_32_to_64_def f64_make_def Let_def)

lemma payload_says_read:
  assumes "reads_all parse render vs" and "v \<in> set vs" and "says v"
  shows "payload_says parse (build_message ns source destination (render v)) says"
  using reads_all_D [OF assms(1,2)] assms(3)
  by (simp add: payload_says_def parse_payload_def build_message_def)

lemmas value_tests = at_key_def at_index_def is_int_def is_str_def is_f64_def is_bool_def Let_def
  test_floats MSG_QUEUE_LOAD_def MSG_QUEUE_INSERT_def MSG_SET_VOLUME_def of_i32_def as_i64_def as_str_def as_bool_def as_array_def of_u32_def metadata_type_def
  serialize_images_def serialize_image_def

lemmas test_media = with_poster_def plain_def movie_queue_def plain_queue_def custom_values_def
  media_info_new_def media_info_metadata_def media_info_duration_def media_info_live_def
  media_object_def serialize_queue_item_def

lemma load_tests:
  assumes "reads_all parse render channel_payloads"
  shows "test_load_with_metadata parse render \<and>
    test_load_with_duration parse render \<and>
    test_load_live_stream_type parse render \<and>
    test_load_with_custom_data parse render \<and>
    test_load_without_custom_data parse render"
  unfolding test_load_with_metadata_def test_load_with_duration_def test_load_live_stream_type_def
    test_load_with_custom_data_def test_load_without_custom_data_def load_msg_def
  by (intro conjI; (rule payload_says_read [OF assms], simp add: channel_payloads_def,
        simp add: load_payload_def value_tests test_media))

lemma queue_tests:
  assumes "reads_all parse render channel_payloads"
  shows "test_queue_load_includes_metadata_and_duration parse render \<and>
    test_queue_insert_with_insert_before parse render \<and>
    test_queue_insert_without_insert_before parse render"
  unfolding test_queue_load_includes_metadata_and_duration_def test_queue_insert_with_insert_before_def
    test_queue_insert_without_insert_before_def queue_load_msg_def queue_insert_msg_def
  by (intro conjI; (rule payload_says_read [OF assms], simp add: channel_payloads_def,
        simp add: queue_load_payload_def queue_insert_payload_def value_tests test_media))

lemma repeat_tests:
  assumes "reads_all parse render channel_payloads"
  shows "test_queue_load_repeat_modes parse render"
  unfolding test_queue_load_repeat_modes_def queue_load_msg_def list.pred_inject(2) prod.case
  by (intro conjI list.pred_inject(1); (rule payload_says_read [OF assms], simp add: channel_payloads_def,
        simp add: queue_load_payload_def value_tests))

lemma volume_tests:
  assumes "reads_all parse render channel_payloads"
  shows "test_set_volume_level_only parse render \<and>
    test_set_volume_muted_only parse render \<and>
    test_set_volume_both parse render"
  unfolding test_set_volume_level_only_def test_set_volume_muted_only_def test_set_volume_both_def
    set_volume_msg_def
  by (intro conjI; (rule payload_says_read [OF assms], simp add: channel_payloads_def,
        simp add: set_volume_payload_def value_tests))

lemma metadata_tests:
  "test_serialize_metadata_all_types" "test_serialize_metadata_omits_none_fields"
  "test_serialize_images_with_dimensions" "test_serialize_images_empty"
  by (simp_all add: test_serialize_metadata_all_types_def test_serialize_metadata_omits_none_fields_def
      test_serialize_images_with_dimensions_def test_serialize_images_empty_def value_tests)

definition channel_tests :: "(parser \<Rightarrow> render \<Rightarrow> bool) list" where
  "channel_tests =
     [test_load_with_metadata, test_load_with_duration, test_load_live_stream_type,
      test_load_with_custom_data, test_load_without_custom_data,
      test_queue_load_includes_metadata_and_duration, test_queue_load_repeat_modes,
      test_queue_insert_with_insert_before, test_queue_insert_without_insert_before,
      \<lambda>_ _. test_serialize_metadata_all_types, \<lambda>_ _. test_serialize_metadata_omits_none_fields,
      \<lambda>_ _. test_serialize_images_with_dimensions, \<lambda>_ _. test_serialize_images_empty,
      test_set_volume_level_only, test_set_volume_muted_only, test_set_volume_both]"

lemma channel_tests_pass:
  assumes "reads_all parse render channel_payloads"
  shows "list_all (\<lambda>test. test parse render) channel_tests"
  unfolding channel_tests_def
  by (simp add: load_tests [OF assms] queue_tests [OF assms] repeat_tests [OF assms]
      volume_tests [OF assms] metadata_tests)

end
