(* ===== verification/Unit_Tests.thy ===== *)
theory Unit_Tests
  imports Router_Tests Channel_Tests Serve
begin

text \<open>
  The tests of \<open>client/framing.rs\<close>, \<open>client/request_tracker.rs\<close>, \<open>client/heartbeat.rs\<close>, \<open>state.rs\<close> and
  \<open>serve.rs\<close>, run on the model. Framing uses the reference protobuf codec. The stress test of the
  tracker, whose twenty tasks interleave freely, is in \<open>Stress_Test\<close>.
\<close>

section \<open>Framing\<close>

text \<open>A cursor on some bytes, and writing to a vector, which cannot fail.\<close>

definition cursor :: "u8 list \<Rightarrow> reader" where
  "cursor bs = \<lparr>rd_bytes = bs, rd_end = IoError UnexpectedEof ''failed to fill whole buffer''\<rparr>"

definition read_from :: "u8 list \<Rightarrow> error + (cast_message \<times> reader)" where
  "read_from bs = read_message cast_message_decode (cursor bs)"

definition written :: "cast_message \<Rightarrow> u8 list \<Rightarrow> (error + unit) \<times> u8 list" where
  "written msg bytes = write_message cast_message_encode WriteOk msg bytes"

definition framing_error :: "string \<Rightarrow> error + 'a \<Rightarrow> bool" where
  "framing_error s r = (case r of Inl (ErrFraming t) \<Rightarrow> str_contains s t | _ \<Rightarrow> False)"

definition test_roundtrip :: bool where
  "test_roundtrip \<longleftrightarrow>
     (let msg = build_message ''urn:x-cast:com.google.cast.tp.heartbeat'' ''sender-0'' ''receiver-0'' ping_text
      in case written msg [] of
           (Inl _, _) \<Rightarrow> False
         | (Inr _, bytes) \<Rightarrow>
             (case read_from bytes of
                Inl _ \<Rightarrow> False
              | Inr (decoded, _) \<Rightarrow>
                  namespace decoded = namespace msg \<and> payload_utf8 decoded = payload_utf8 msg \<and>
                  source_id decoded = source_id msg \<and> destination_id decoded = destination_id msg))"

definition test_disconnected_on_eof :: bool where
  "test_disconnected_on_eof \<longleftrightarrow> read_from [] = Inl ErrDisconnected"

definition test_zero_length_message_rejected :: bool where
  "test_zero_length_message_rejected \<longleftrightarrow> framing_error ''zero-length'' (read_from (u32_to_be_bytes 0))"

definition test_oversized_read_rejected :: bool where
  "test_oversized_read_rejected \<longleftrightarrow> framing_error ''too large'' (read_from (u32_to_be_bytes 65537))"

definition test_oversized_write_rejected :: bool where
  "test_oversized_write_rejected \<longleftrightarrow>
     framing_error ''too large''
       (fst (written (build_message ''ns'' ''src'' ''dst'' (replicate 70000 CHR ''x'')) []))"

definition test_exact_64kb_message_accepted :: bool where
  "test_exact_64kb_message_accepted \<longleftrightarrow>
     (case written (build_message ''ns'' ''s'' ''d'' ''ok'') [] of
        (Inr _, bytes) \<Rightarrow> length bytes < 65536 | _ \<Rightarrow> False)"

definition test_partial_header_eof :: bool where
  "test_partial_header_eof \<longleftrightarrow> read_from [0, 10] = Inl ErrDisconnected"

definition test_partial_payload_eof :: bool where
  "test_partial_payload_eof \<longleftrightarrow> read_from (u32_to_be_bytes 100 @ replicate 5 0) = Inl ErrDisconnected"

definition test_corrupt_protobuf_payload :: bool where
  "test_corrupt_protobuf_payload \<longleftrightarrow>
     (case read_from (u32_to_be_bytes 10 @ replicate 10 0xFF) of Inl (ErrProtobuf _) \<Rightarrow> True | _ \<Rightarrow> False)"

definition test_multiple_messages_roundtrip :: bool where
  "test_multiple_messages_roundtrip \<longleftrightarrow>
     (let msg1 = build_message ''ns1'' ''s'' ''d'' (''{'' @ quoted ''a'' @ '':1}'');
          msg2 = build_message ''ns2'' ''s'' ''d'' (''{'' @ quoted ''b'' @ '':2}'')
      in case written msg1 [] of
           (Inl _, _) \<Rightarrow> False
         | (Inr _, bytes1) \<Rightarrow>
             (case written msg2 bytes1 of
                (Inl _, _) \<Rightarrow> False
              | (Inr _, bytes) \<Rightarrow>
                  (case read_from bytes of
                     Inl _ \<Rightarrow> False
                   | Inr (d1, r1) \<Rightarrow>
                       (case read_message cast_message_decode r1 of
                          Inl _ \<Rightarrow> False
                        | Inr (d2, _) \<Rightarrow> namespace d1 = ''ns1'' \<and> namespace d2 = ''ns2''))))"

section \<open>Request tracker\<close>

definition five_seconds :: tracker where "five_seconds = tracker_new 5000000000"

definition test_register_and_resolve :: bool where
  "test_register_and_resolve \<longleftrightarrow>
     (case register five_seconds of
        ((i, rx), t) \<Rightarrow> i = 1 \<and>
          (case resolve 1 (jobj [(''type'', String ''RECEIVER_STATUS'')]) t of
             (resolved, t1) \<Rightarrow> resolved \<and>
               (case awaited t1 rx of
                  Some v \<Rightarrow> is_str (at_key v ''type'') ''RECEIVER_STATUS'' | None \<Rightarrow> False)))"

definition test_unmatched_resolve :: bool where
  "test_unmatched_resolve \<longleftrightarrow> \<not> fst (resolve 999 jempty five_seconds)"

text \<open>Nothing resolves the request, so its wait times out.\<close>

definition test_timeout :: bool where
  "test_timeout \<longleftrightarrow>
     (case register (tracker_new 50000000) of
        ((i, rx), t) \<Rightarrow>
          (case wait_for i TimedOut t of
             (r, t1) \<Rightarrow> (case r of Inl (ErrTimeout _) \<Rightarrow> True | _ \<Rightarrow> False) \<and> \<not> fst (resolve i jempty t1)))"

definition test_sequential_ids :: bool where
  "test_sequential_ids \<longleftrightarrow>
     (case register five_seconds of
        ((i1, _), t1) \<Rightarrow>
          (case register t1 of
             ((i2, _), t2) \<Rightarrow>
               (case register t2 of ((i3, _), _) \<Rightarrow> i1 = 1 \<and> i2 = 2 \<and> i3 = 3)))"

definition test_id_wrapping_skips_zero :: bool where
  "test_id_wrapping_skips_zero \<longleftrightarrow>
     (case register (five_seconds\<lparr>counter := 0xFFFFFFFE\<rparr>) of
        ((i1, _), t1) \<Rightarrow> i1 = 0xFFFFFFFF \<and>
          (case register t1 of ((i2, _), _) \<Rightarrow> i2 \<noteq> 0 \<and> 0 < i2))"

definition test_double_resolve_returns_false :: bool where
  "test_double_resolve_returns_false \<longleftrightarrow>
     (case register five_seconds of
        ((i, _), t) \<Rightarrow>
          (case resolve i (jobj [(''first'', Bool True)]) t of
             (resolved, t1) \<Rightarrow> resolved \<and> \<not> fst (resolve i (jobj [(''second'', Bool True)]) t1)))"

definition test_clear_drops_all_pending :: bool where
  "test_clear_drops_all_pending \<longleftrightarrow>
     (case register five_seconds of
        ((i1, _), t1) \<Rightarrow>
          (case register t1 of
             ((i2, _), t2) \<Rightarrow>
               (case resolve i1 jempty (tracker_clear t2) of
                  (resolved, t3) \<Rightarrow> \<not> resolved \<and> \<not> fst (resolve i2 jempty t3))))"

text \<open>The wait after \<open>clear\<close> finds the sender gone.\<close>

definition test_wait_for_receiver_dropped :: bool where
  "test_wait_for_receiver_dropped \<longleftrightarrow>
     (case register five_seconds of
        ((i, rx), t) \<Rightarrow>
          (let t1 = tracker_clear t
           in senders t1 rx = Some Dropped \<and> fst (wait_for i SenderGone t1) = Inl ErrDisconnected))"

section \<open>Heartbeat\<close>

definition make_heartbeat_msg :: "string \<Rightarrow> cast_message" where
  "make_heartbeat_msg payload =
     \<lparr>protocol_version = 0, source_id = ''receiver-0'', destination_id = ''sender-0'',
      namespace = NS_HEARTBEAT, payload_type = 0, payload_utf8 = Some payload, payload_binary = None,
      continued = None, remaining_length = None\<rparr>"

definition test_is_ping_valid :: bool where
  "test_is_ping_valid \<longleftrightarrow> is_ping (make_heartbeat_msg ping_text)"

definition test_is_ping_pong_returns_false :: bool where
  "test_is_ping_pong_returns_false \<longleftrightarrow> \<not> is_ping (make_heartbeat_msg pong_text)"

definition test_is_ping_wrong_namespace :: bool where
  "test_is_ping_wrong_namespace \<longleftrightarrow>
     \<not> is_ping ((make_heartbeat_msg ping_text)\<lparr>namespace := ''urn:x-cast:com.google.cast.receiver''\<rparr>)"

definition test_is_ping_no_payload :: bool where
  "test_is_ping_no_payload \<longleftrightarrow> \<not> is_ping ((make_heartbeat_msg ping_text)\<lparr>payload_utf8 := None\<rparr>)"

definition test_is_ping_invalid_json :: bool where
  "test_is_ping_invalid_json \<longleftrightarrow> \<not> is_ping (make_heartbeat_msg ''not json at all'')"

definition test_is_pong_valid :: bool where
  "test_is_pong_valid \<longleftrightarrow> is_pong (make_heartbeat_msg pong_text)"

definition test_is_pong_ping_returns_false :: bool where
  "test_is_pong_ping_returns_false \<longleftrightarrow> \<not> is_pong (make_heartbeat_msg ping_text)"

text \<open>The shared state of the heartbeat's tests. The clock reads 200 seconds when one begins; what the
  task does first comes 50 milliseconds later.\<close>

definition T0 :: nat where "T0 = 200 * 1000000000"

abbreviation millis :: "nat \<Rightarrow> nat" where "millis n \<equiv> n * 1000000"

definition beating :: shared where
  "beating = test_setup\<lparr>event_ch := channel 16, write_ch := channel 16, last_activity := T0\<rparr>"

definition test_touch_updates_last_activity :: bool where
  "test_touch_updates_last_activity \<longleftrightarrow>
     (let later = T0 + millis 10
      in millis 10 \<le> elapsed later beating \<and> elapsed later (touch later beating) < millis 5)"

definition test_heartbeat_sends_ping :: "render \<Rightarrow> bool" where
  "test_heartbeat_sends_ping render \<longleftrightarrow>
     (case heartbeat_loop render (millis 60000) Running [(touch T0, Tick (T0 + millis 50))] beating of
        (_, s) \<Rightarrow> (case first_written s of Some msg \<Rightarrow> is_ping msg | None \<Rightarrow> False))"

definition test_heartbeat_timeout_detection :: "render \<Rightarrow> bool" where
  "test_heartbeat_timeout_detection render \<longleftrightarrow>
     (case heartbeat_loop render (millis 10) Running [(id, Tick (T0 + millis 50))]
             (beating\<lparr>last_activity := T0 - millis 100000\<rparr>) of
        (_, s) \<Rightarrow> first_event s = Some EvHeartbeatTimeout \<and> \<not> alive s)"

definition test_heartbeat_cancellation :: "render \<Rightarrow> bool" where
  "test_heartbeat_cancellation render \<longleftrightarrow>
     (case heartbeat_loop render (millis 60000) Running [(id, HbCancelled)] beating of
        (status, s) \<Rightarrow> status = Stopped \<and> alive s)"

section \<open>State\<close>

definition test_new_state_defaults :: bool where
  "test_new_state_defaults \<longleftrightarrow> media_session new_state = 0 \<and> media new_state = None \<and>
     receiver new_state = None \<and> connection new_state = ConnConnected"

definition test_media_watch_channel_updates :: bool where
  "test_media_watch_channel_updates \<longleftrightarrow>
     (let status = \<lparr>media_session_id = 42, player_state = Playing, idle_reason = None,
            current_time = 0x4024000000000000, ms_duration = Some 0x405E000000000000,
            ms_volume = \<lparr>vol_level = F32_ONE, vol_muted = False\<rparr>, ms_media = None\<rparr>
      in case media (holder (watch_media (Some status) test_setup)) of
           Some current \<Rightarrow> media_session_id current = 42 | None \<Rightarrow> False)"

definition test_connection_state_transitions :: bool where
  "test_connection_state_transitions \<longleftrightarrow>
     (let s1 = watch_connection ConnDisconnected test_setup;
          s2 = watch_connection (ConnReconnecting 3) s1;
          s3 = watch_connection ConnConnected s2
      in connection (holder s1) = ConnDisconnected \<and> connection (holder s2) = ConnReconnecting 3 \<and>
         connection (holder s3) = ConnConnected)"

definition test_set_media_session_id :: bool where
  "test_set_media_session_id \<longleftrightarrow> media_session (set_media_session_id 99 new_state) = 99"

definition test_connection_state_eq :: bool where
  "test_connection_state_eq \<longleftrightarrow> ConnConnected = ConnConnected \<and> ConnConnected \<noteq> ConnDisconnected \<and>
     ConnReconnecting 1 = ConnReconnecting 1 \<and> ConnReconnecting 1 \<noteq> ConnReconnecting 2"

section \<open>Ranges\<close>

definition test_parse_range_basic :: bool where
  "test_parse_range_basic \<longleftrightarrow> parse_range ''bytes=0-10'' 100 = Some (0, 10)"

definition test_parse_range_open_end :: bool where
  "test_parse_range_open_end \<longleftrightarrow> parse_range ''bytes=50-'' 100 = Some (50, 99)"

definition test_parse_range_suffix :: bool where
  "test_parse_range_suffix \<longleftrightarrow> parse_range ''bytes=-20'' 100 = Some (80, 99)"

definition test_parse_range_full_file :: bool where
  "test_parse_range_full_file \<longleftrightarrow> parse_range ''bytes=0-99'' 100 = Some (0, 99)"

definition test_parse_range_single_byte :: bool where
  "test_parse_range_single_byte \<longleftrightarrow> parse_range ''bytes=0-0'' 100 = Some (0, 0)"

definition test_parse_range_end_beyond_file :: bool where
  "test_parse_range_end_beyond_file \<longleftrightarrow> parse_range ''bytes=0-200'' 100 = None"

definition test_parse_range_start_beyond_end :: bool where
  "test_parse_range_start_beyond_end \<longleftrightarrow> parse_range ''bytes=50-10'' 100 = None"

definition test_parse_range_start_beyond_file :: bool where
  "test_parse_range_start_beyond_file \<longleftrightarrow> parse_range ''bytes=100-'' 100 = None"

definition test_parse_range_non_numeric :: bool where
  "test_parse_range_non_numeric \<longleftrightarrow> parse_range ''bytes=abc-def'' 100 = None"

definition test_parse_range_zero_length_file :: bool where
  "test_parse_range_zero_length_file \<longleftrightarrow>
     parse_range ''bytes=0-0'' 0 = None \<and> parse_range ''bytes=-10'' 0 = None"

definition test_parse_range_no_bytes_prefix :: bool where
  "test_parse_range_no_bytes_prefix \<longleftrightarrow> parse_range ''0-10'' 100 = None"

definition test_parse_range_suffix_larger_than_file :: bool where
  "test_parse_range_suffix_larger_than_file \<longleftrightarrow> parse_range ''bytes=-200'' 100 = Some (0, 99)"

section \<open>All of them pass\<close>

lemma range_tests:
  "test_parse_range_basic" "test_parse_range_open_end" "test_parse_range_suffix"
  "test_parse_range_full_file" "test_parse_range_single_byte" "test_parse_range_end_beyond_file"
  "test_parse_range_start_beyond_end" "test_parse_range_start_beyond_file"
  "test_parse_range_non_numeric" "test_parse_range_zero_length_file"
  "test_parse_range_no_bytes_prefix" "test_parse_range_suffix_larger_than_file"
  unfolding test_parse_range_basic_def test_parse_range_open_end_def test_parse_range_suffix_def
    test_parse_range_full_file_def test_parse_range_single_byte_def test_parse_range_end_beyond_file_def
    test_parse_range_start_beyond_end_def test_parse_range_start_beyond_file_def
    test_parse_range_non_numeric_def test_parse_range_zero_length_file_def
    test_parse_range_no_bytes_prefix_def test_parse_range_suffix_larger_than_file_def
  by (simp_all add: parse_range_def strip_prefix_def splitn2_def parse_u64_def is_digit_def
      radix_val_def undigit_def saturating_sub_def Let_def)

lemma state_tests:
  "test_new_state_defaults" "test_media_watch_channel_updates" "test_connection_state_transitions"
  "test_set_media_session_id" "test_connection_state_eq"
  by (simp_all add: test_connection_state_eq_def test_new_state_defaults_def test_media_watch_channel_updates_def
      test_connection_state_transitions_def test_set_media_session_id_def new_state_def
      test_setup_def shared_ops Let_def)

lemma message_tests:
  "test_is_ping_valid" "test_is_ping_pong_returns_false" "test_is_ping_wrong_namespace"
  "test_is_ping_no_payload" "test_is_ping_invalid_json" "test_is_pong_valid"
  "test_is_pong_ping_returns_false"
  by (simp_all add: test_is_ping_valid_def test_is_ping_pong_returns_false_def
      test_is_ping_wrong_namespace_def test_is_ping_no_payload_def test_is_ping_invalid_json_def
      test_is_pong_valid_def test_is_pong_ping_returns_false_def make_heartbeat_msg_def is_ping_def
      is_pong_def payload_contains_def ping_text_def pong_text_def type_text_def NS_HEARTBEAT_def)

lemma clock_tests:
  "test_touch_updates_last_activity" "test_heartbeat_timeout_detection render"
  "test_heartbeat_cancellation render"
  by (simp_all add: test_touch_updates_last_activity_def test_heartbeat_timeout_detection_def
      test_heartbeat_cancellation_def beating_def T0_def touch_def elapsed_def check_liveness_def
      declare_dead_def first_event_def try_recv_def chan_recv_def test_setup_def shared_ops
      chan_send_def chan_full_def chan_try_send_def channel_def Let_def)

lemma ping_test: "render ping_payload = ping_text \<Longrightarrow> test_heartbeat_sends_ping render"
  by (simp add: test_heartbeat_sends_ping_def beating_def T0_def touch_def elapsed_def
      check_liveness_def declare_dead_def first_written_def try_recv_def chan_recv_def test_setup_def
      shared_ops chan_send_def chan_full_def channel_def ping_def is_ping_def payload_contains_def ping_text_def
      type_text_def)

lemma tracker_tests:
  "test_register_and_resolve" "test_unmatched_resolve" "test_timeout" "test_sequential_ids"
  "test_id_wrapping_skips_zero" "test_double_resolve_returns_false" "test_clear_drops_all_pending"
  "test_wait_for_receiver_dropped"
  by (simp_all add: test_register_and_resolve_def test_unmatched_resolve_def test_timeout_def
      test_sequential_ids_def test_id_wrapping_skips_zero_def test_double_resolve_returns_false_def
      test_clear_drops_all_pending_def test_wait_for_receiver_dropped_def five_seconds_def
      tracker_new_def register_def fetch_add_def oneshot_channel_def drop_sender_def resolve_def
      wait_for_def remove_pending_def tracker_clear_def awaited_def at_key_def is_str_def Let_def)

text \<open>What is written is read back by the codec's law; the rest of the framing's tests evaluate.\<close>

lemma encoded_payload_length:
  assumes "payload_utf8 m = Some p"
  shows "length p < length (cast_message_encode m)"
proof -
  let ?f = "put_field (6, Bytes (string_bytes p))"
  have "(6, Bytes (string_bytes p)) \<in> set (cast_message_fields m)"
    using assms by (simp add: cast_message_fields_def)
  then have "length ?f \<le> length (cast_message_encode m)"
    unfolding cast_message_encode_def length_concat
    by (intro member_le_sum_list) (force simp: image_iff, simp)
  moreover have "length p < length ?f"
    using varint_not_Nil [of "6 * 8 + 2"] unfolding put_field.simps length_append string_bytes_def length_map
    by (simp only: length_greater_0_conv [symmetric])
  ultimately show ?thesis by simp
qed

lemma written_small:
  assumes "length (cast_message_encode m) \<le> MAX_MESSAGE"
  shows "written m w = (Inr (), w @ frame (cast_message_encode m))"
  using assms by (simp add: written_def write_message_def frame_def Let_def)

lemma length_frame [simp]: "length (frame bs) = 4 + length bs"
  by (simp add: frame_def)

lemmas encoding = cast_message_encode_def cast_message_fields_def build_message_def varint.simps
  string_bytes_def MAX_MESSAGE_def ping_text_def type_text_def

lemma small_messages:
  "length (cast_message_encode (build_message ''urn:x-cast:com.google.cast.tp.heartbeat'' ''sender-0''
     ''receiver-0'' ping_text)) < 65000"
  "length (cast_message_encode (build_message ''ns1'' ''s'' ''d'' (''{'' @ quoted ''a'' @ '':1}''))) < 65000"
  "length (cast_message_encode (build_message ''ns2'' ''s'' ''d'' (''{'' @ quoted ''b'' @ '':2}''))) < 65000"
  "length (cast_message_encode (build_message ''ns'' ''s'' ''d'' ''ok'')) < 65000"
  by (simp_all add: encoding)

lemma small_message: "length (cast_message_encode m) < 65000 \<Longrightarrow> length (cast_message_encode m) \<le> MAX_MESSAGE"
  by (simp add: MAX_MESSAGE_def)

lemmas small = small_messages [THEN small_message]

lemma read_from_frame:
  assumes "length (cast_message_encode m) \<le> MAX_MESSAGE"
  shows "read_from (frame (cast_message_encode m) @ bs) = Inr (m, cursor bs)"
    and "read_message cast_message_decode (cursor (frame (cast_message_encode m) @ bs)) = Inr (m, cursor bs)"
  unfolding read_from_def cursor_def by (rule protobuf.read_frame [OF assms])+

lemma roundtrip_test: "test_roundtrip"
  using small(1) read_from_frame(1) [OF small(1), of "[]"]
  by (simp add: test_roundtrip_def written_small del: append_Nil2) simp

lemma exact_test: "test_exact_64kb_message_accepted"
  using small(4) small_messages(4) by (simp add: test_exact_64kb_message_accepted_def written_small)

lemma multiple_test: "test_multiple_messages_roundtrip"
  using read_from_frame(2) [OF small(3), of "[]"]
  unfolding test_multiple_messages_roundtrip_def Let_def written_small [OF small(2)]
    written_small [OF small(3)] append_Nil append_Nil2 prod.case sum.case
    read_from_frame(1) [OF small(2)]
  by (simp only: prod.case sum.case build_message_simps)

lemma refused_tests:
  "test_disconnected_on_eof" "test_zero_length_message_rejected" "test_oversized_read_rejected"
  "test_partial_header_eof" "test_partial_payload_eof"
  by (simp_all add: test_disconnected_on_eof_def test_zero_length_message_rejected_def
      test_oversized_read_rejected_def test_partial_header_eof_def test_partial_payload_eof_def
      read_from_def cursor_def read_message_def read_exact_def read_failure_def framing_error_def
      MAX_MESSAGE_def Let_def)

lemma oversized_test: "test_oversized_write_rejected"
proof -
  let ?m = "build_message ''ns'' ''src'' ''dst'' (replicate 70000 CHR ''x'')"
  let ?n = "decimal (length (cast_message_encode ?m))"
  have "length (replicate 70000 CHR ''x'') < length (cast_message_encode ?m)"
    by (rule encoded_payload_length) (rule build_message_simps)
  then have "MAX_MESSAGE < length (cast_message_encode ?m)"
    by (simp only: length_replicate MAX_MESSAGE_def)
  moreover have "str_contains ''too large'' (''outbound message too large: '' @ ?n @ '' bytes (max 65536)'')"
    unfolding str_contains_sublist sublist_def
    by (intro exI [of _ "''outbound message ''"] exI [of _ "'': '' @ ?n @ '' bytes (max 65536)''"])
      (simp only: append_Cons append_Nil append_assoc)
  ultimately show ?thesis
    unfolding test_oversized_write_rejected_def written_def write_message_def framing_error_def Let_def
    by (simp only: if_True fst_conv sum.case error.case)
qed

lemma read_varint_ones: "read_varint (replicate n 0xFF) = None"
  by (induction n) simp_all

lemma corrupt_test: "test_corrupt_protobuf_payload"
proof -
  define bs :: "u8 list" where "bs = replicate 10 0xFF"
  have len: "length bs = 10" and ne: "bs \<noteq> []" by (simp_all add: bs_def)
  have "cast_message_decode bs = Inl ''invalid message''"
    unfolding cast_message_decode_def read_fields.simps [of bs] read_field_def
    using ne read_varint_ones [of 10] by (simp add: bs_def [symmetric])
  then have "read_from (u32_to_be_bytes 10 @ bs) = Inl (ErrProtobuf ''invalid message'')"
    by (simp add: read_from_def cursor_def read_message_def read_exact_def MAX_MESSAGE_def len Let_def)
  then show ?thesis by (simp only: test_corrupt_protobuf_payload_def bs_def [symmetric] sum.case error.case)
qed

text \<open>The tests of these modules and those of \<open>channel/*.rs\<close>.\<close>

definition unit_tests :: "(parser \<Rightarrow> render \<Rightarrow> bool) list" where
  "unit_tests =
     map (\<lambda>test _ _. test)
       [test_roundtrip, test_disconnected_on_eof, test_zero_length_message_rejected,
        test_oversized_read_rejected, test_oversized_write_rejected, test_exact_64kb_message_accepted,
        test_partial_header_eof, test_partial_payload_eof, test_corrupt_protobuf_payload,
        test_multiple_messages_roundtrip, test_register_and_resolve, test_unmatched_resolve, test_timeout,
        test_sequential_ids, test_id_wrapping_skips_zero, test_double_resolve_returns_false,
        test_clear_drops_all_pending, test_wait_for_receiver_dropped, test_is_ping_valid,
        test_is_ping_pong_returns_false, test_is_ping_wrong_namespace, test_is_ping_no_payload,
        test_is_ping_invalid_json, test_is_pong_valid, test_is_pong_ping_returns_false,
        test_touch_updates_last_activity, test_new_state_defaults, test_media_watch_channel_updates,
        test_connection_state_transitions, test_set_media_session_id, test_connection_state_eq,
        test_parse_range_basic,
        test_parse_range_open_end, test_parse_range_suffix, test_parse_range_full_file,
        test_parse_range_single_byte, test_parse_range_end_beyond_file, test_parse_range_start_beyond_end,
        test_parse_range_start_beyond_file, test_parse_range_non_numeric, test_parse_range_zero_length_file,
        test_parse_range_no_bytes_prefix, test_parse_range_suffix_larger_than_file]
     @ map (\<lambda>test _. test)
         [test_heartbeat_sends_ping, test_heartbeat_timeout_detection, test_heartbeat_cancellation]
     @ channel_tests"

text \<open>A printer and a reader for the tests: the JSON text of a PING is the one the tests compare with, every
  other payload is its number, and the literals of the router's tests are read as they are.\<close>

definition all_payloads :: "json list" where "all_payloads = test_payloads @ channel_payloads"

definition print_test :: render where
  "print_test v = (if v = ping_payload then ping_text else number all_payloads v)"

definition read_test :: parser where
  "read_test s =
     (if s = close_text then Some (jobj [(''type'', String ''CLOSE'')])
      else if s = broadcast_text then Some (jobj [(''data'', String ''broadcast'')])
      else lookup_number all_payloads s)"

lemma not_ping: "v \<in> set all_payloads \<Longrightarrow> v \<noteq> ping_payload"
proof -
  have "jget ''requestId'' v \<noteq> None \<or> jget ''type'' v = Some (String MSG_PONG)" if "v \<in> set all_payloads"
    using that
    by (auto simp: all_payloads_def test_payloads_def channel_payloads_def load_payload_def payload_defs
        queue_load_payload_def queue_insert_payload_def set_volume_payload_def)
  moreover have "jget ''requestId'' ping_payload = None" "jget ''type'' ping_payload \<noteq> Some (String MSG_PONG)"
    by (simp_all add: ping_payload_def MSG_PONG_def MSG_PING_def)
  ultimately show "v \<in> set all_payloads \<Longrightarrow> v \<noteq> ping_payload" by auto
qed

lemma print_test_reads:
  assumes "set vs \<subseteq> set all_payloads"
  shows "reads_all read_test print_test vs"
proof -
  have "number all_payloads v \<noteq> c # t" if "c \<noteq> CHR ''x''" for v c t
    using that by (cases "index_of v all_payloads") (simp_all add: number_def)
  then have "read_test (number all_payloads v) = lookup_number all_payloads (number all_payloads v)" for v
    by (simp add: read_test_def close_text_def broadcast_text_def type_text_def)
  then have "read_test (print_test v) = Some v" if "v \<in> set all_payloads" for v
    using that not_ping reads_all_D [OF reads_numbers that] by (simp add: print_test_def)
  then show ?thesis using assms by (auto simp: reads_all_def list_all_iff)
qed

text \<open>All of them together, with any printer and reader of JSON that print a PING the way the tests write it
  and read the payloads the tests build, and their literals, as they were. The stress test of the tracker
  has a theory of its own; that a watcher's \<open>changed()\<close> returns is not modelled.\<close>

lemma unit_tests_pass:
  assumes "render ping_payload = ping_text" and "reads_all parse render channel_payloads"
    and "reads_tests parse render"
  shows "list_all (\<lambda>test. test parse render) (router_tests @ unit_tests)"
  using router_tests_pass [OF assms(3)] unfolding unit_tests_def
  by (simp add: roundtrip_test exact_test multiple_test refused_tests oversized_test corrupt_test
      tracker_tests message_tests clock_tests state_tests range_tests ping_test [of render, OF assms(1)]
      channel_tests_pass [OF assms(2)])

text \<open>Such a printer and reader exist.\<close>

lemma unit_tests_instance:
  "list_all (\<lambda>test. test read_test print_test) (router_tests @ unit_tests)"
proof (rule unit_tests_pass)
  show "reads_all read_test print_test channel_payloads"
    by (rule print_test_reads) (simp add: all_payloads_def)
  have "reads_all read_test print_test test_payloads"
    by (rule print_test_reads) (simp add: all_payloads_def)
  then show "reads_tests read_test print_test"
    by (simp add: reads_tests_def read_test_def lookup_number_def close_text_def broadcast_text_def type_text_def)
qed (simp add: print_test_def)

end
