(* ===== verification/Stress_Test.thy ===== *)
theory Stress_Test
  imports Test_Kit
begin

text \<open>
  The stress test of \<open>client/request_tracker.rs\<close>: twenty tasks register a request each, spawn a task that
  resolves it with a payload naming its identifier, and await it. A schedule is any list of their turns;
  \<open>register\<close> is cut where it waits for the lock of the pending map.
\<close>

section \<open>Register in two turns\<close>

definition draw_id :: "tracker \<Rightarrow> u32 \<times> tracker" where
  "draw_id t =
     (let (prev, t1) = fetch_add t; i = prev + 1
      in if i = 0 then (let (prev', t2) = fetch_add t1 in (prev' + 1, t2)) else (i, t1))"

definition insert_pending :: "u32 \<Rightarrow> tracker \<Rightarrow> nat \<times> tracker" where
  "insert_pending i t =
     (let (tx, t1) = oneshot_channel t; t2 = drop_sender (pending t1 i) t1
      in (tx, t2\<lparr>pending := (pending t2)(i \<mapsto> tx)\<rparr>))"

lemma register_turns:
  "register t = (let (i, t1) = draw_id t; (tx, t2) = insert_pending i t1 in ((i, tx), t2))"
  by (simp add: register_def draw_id_def insert_pending_def Let_def split: prod.splits)

section \<open>The tasks\<close>

text \<open>What the test has seen of its twenty tasks: the identifiers they drew, the channels they await,
  the resolving tasks that have run, and whether the assertion of a task held.\<close>

record stress =
  requests :: tracker
  drawn :: "nat \<rightharpoonup> u32"
  awaits :: "nat \<rightharpoonup> nat"
  resolved :: "nat set"
  verdict :: "nat \<rightharpoonup> bool"

definition stress_start :: stress where
  "stress_start =
     \<lparr>requests = tracker_new 5000000000, drawn = Map.empty, awaits = Map.empty, resolved = {},
      verdict = Map.empty\<rparr>"

datatype turn = Draw nat | Insert nat | Resolve nat | Await nat

definition own_payload :: "u32 \<Rightarrow> json" where "own_payload i = jobj [(''id'', of_u32 i)]"

text \<open>A turn of a task that is not at that point, or still waits, changes nothing. \<open>unwrap\<close> fails the
  task when its sender is gone.\<close>

fun take_turn :: "turn \<Rightarrow> stress \<Rightarrow> stress" where
  "take_turn (Draw k) s =
     (if k < 20 \<and> drawn s k = None
      then (let (i, t) = draw_id (requests s) in s\<lparr>requests := t, drawn := (drawn s)(k \<mapsto> i)\<rparr>)
      else s)"
| "take_turn (Insert k) s =
     (case drawn s k of
        Some i \<Rightarrow>
          if awaits s k = None
          then (let (rx, t) = insert_pending i (requests s)
                in s\<lparr>requests := t, awaits := (awaits s)(k \<mapsto> rx)\<rparr>)
          else s
      | None \<Rightarrow> s)"
| "take_turn (Resolve k) s =
     (case (drawn s k, awaits s k) of
        (Some i, Some _) \<Rightarrow>
          if k \<notin> resolved s
          then s\<lparr>requests := snd (resolve i (own_payload i) (requests s)), resolved := insert k (resolved s)\<rparr>
          else s
      | _ \<Rightarrow> s)"
| "take_turn (Await k) s =
     (case (drawn s k, awaits s k) of
        (Some i, Some rx) \<Rightarrow>
          if verdict s k \<noteq> None then s
          else (case senders (requests s) rx of
                  Some (Sent v) \<Rightarrow>
                    (case wait_for i (Received v) (requests s) of
                       (Inr val, t) \<Rightarrow> s\<lparr>requests := t, verdict := (verdict s)(k \<mapsto> is_u32 (at_key val ''id'') i)\<rparr>
                     | (Inl _, t) \<Rightarrow> s\<lparr>requests := t, verdict := (verdict s)(k \<mapsto> False)\<rparr>)
                | Some Held \<Rightarrow> s
                | _ \<Rightarrow> s\<lparr>verdict := (verdict s)(k \<mapsto> False)\<rparr>)
      | _ \<Rightarrow> s)"

definition test_concurrent_register_resolve :: "turn list \<Rightarrow> bool" where
  "test_concurrent_register_resolve schedule \<longleftrightarrow>
     (\<forall>k. verdict (fold take_turn schedule stress_start) k \<noteq> Some False)"

section \<open>It passes under every schedule\<close>

text \<open>Few identifiers are drawn, all distinct and below the counter.\<close>

definition ids_inv :: "stress \<Rightarrow> bool" where
  "ids_inv s \<longleftrightarrow> dom (drawn s) \<subseteq> {..<20} \<and> unat (counter (requests s)) = card (dom (drawn s)) \<and>
     (\<forall>k i. drawn s k = Some i \<longrightarrow> unat i \<le> card (dom (drawn s))) \<and>
     (\<forall>j k i. drawn s j = Some i \<longrightarrow> drawn s k = Some i \<longrightarrow> j = k)"

text \<open>The tasks that wait do so on channels of their own.\<close>

definition chans_inv :: "stress \<Rightarrow> bool" where
  "chans_inv s \<longleftrightarrow> (\<forall>k rx. awaits s k = Some rx \<longrightarrow> drawn s k \<noteq> None \<and> rx < next_chan (requests s)) \<and>
     (\<forall>j k rx. awaits s j = Some rx \<longrightarrow> awaits s k = Some rx \<longrightarrow> j = k)"

text \<open>Every entry is that of a task; a task that waits has its entry until it is resolved, and its own
  payload from then on.\<close>

definition entries_inv :: "stress \<Rightarrow> bool" where
  "entries_inv s \<longleftrightarrow>
     (\<forall>i c. pending (requests s) i = Some c \<longrightarrow> (\<exists>k. drawn s k = Some i \<and> awaits s k = Some c)) \<and>
     (\<forall>k i rx. drawn s k = Some i \<longrightarrow> awaits s k = Some rx \<longrightarrow> k \<notin> resolved s \<longrightarrow>
        senders (requests s) rx = Some Held \<and> pending (requests s) i = Some rx) \<and>
     (\<forall>k i rx. drawn s k = Some i \<longrightarrow> awaits s k = Some rx \<longrightarrow> k \<in> resolved s \<longrightarrow>
        senders (requests s) rx = Some (Sent (own_payload i))) \<and>
     resolved s \<subseteq> dom (awaits s)"

lemma entries_invI:
  assumes "\<And>i c. pending (requests s) i = Some c \<Longrightarrow> \<exists>k. drawn s k = Some i \<and> awaits s k = Some c"
    and "\<And>k i rx. drawn s k = Some i \<Longrightarrow> awaits s k = Some rx \<Longrightarrow> k \<notin> resolved s \<Longrightarrow>
        senders (requests s) rx = Some Held \<and> pending (requests s) i = Some rx"
    and "\<And>k i rx. drawn s k = Some i \<Longrightarrow> awaits s k = Some rx \<Longrightarrow> k \<in> resolved s \<Longrightarrow>
        senders (requests s) rx = Some (Sent (own_payload i))"
    and "resolved s \<subseteq> dom (awaits s)"
  shows "entries_inv s"
  using assms unfolding entries_inv_def by blast

lemma entries_invD:
  assumes "entries_inv s"
  shows "pending (requests s) i = Some c \<Longrightarrow> \<exists>k. drawn s k = Some i \<and> awaits s k = Some c"
    and "drawn s k = Some i \<Longrightarrow> awaits s k = Some rx \<Longrightarrow> k \<notin> resolved s \<Longrightarrow>
        senders (requests s) rx = Some Held \<and> pending (requests s) i = Some rx"
    and "drawn s k = Some i \<Longrightarrow> awaits s k = Some rx \<Longrightarrow> k \<in> resolved s \<Longrightarrow>
        senders (requests s) rx = Some (Sent (own_payload i))"
    and "resolved s \<subseteq> dom (awaits s)"
  using assms unfolding entries_inv_def by blast+

definition stress_inv :: "stress \<Rightarrow> bool" where
  "stress_inv s \<longleftrightarrow> ids_inv s \<and> chans_inv s \<and> entries_inv s \<and> (\<forall>k. verdict s k \<noteq> Some False)"

lemma stress_inv_start: "stress_inv stress_start"
  by (simp add: stress_inv_def ids_inv_def chans_inv_def entries_inv_def stress_start_def tracker_new_def)

lemma own_payload_id: "is_u32 (at_key (own_payload i) ''id'') i"
  by (simp add: own_payload_def at_key_def is_u32_def of_u32_def as_u64_def)

lemma drawn_few:
  assumes "ids_inv s" and "k < 20" and "drawn s k = None"
  shows "unat (counter (requests s)) < 20" and "finite (dom (drawn s))"
proof -
  have "dom (drawn s) \<subseteq> {..<20}" "k \<notin> dom (drawn s)" using assms by (auto simp: ids_inv_def)
  then have "dom (drawn s) \<subset> {..<20}" using assms(2) by blast
  then show "unat (counter (requests s)) < 20"
    using psubset_card_mono [of "{..<20}" "dom (drawn s)"] assms(1) by (simp add: ids_inv_def)
  show "finite (dom (drawn s))" using assms(1) by (auto simp: ids_inv_def intro: finite_subset)
qed

lemma draw_small:
  assumes "unat (counter t) < 20"
  shows "draw_id t = (counter t + 1, t\<lparr>counter := counter t + 1\<rparr>)"
    and "unat (counter t + 1) = Suc (unat (counter t))"
proof -
  have nz: "counter t + 1 \<noteq> 0"
  proof
    assume "counter t + 1 = 0"
    then have "counter t = 4294967295" by (simp add: add_eq_0_iff2)
    with assms show False by simp
  qed
  then show "unat (counter t + 1) = Suc (unat (counter t))" by (rule unat_u32_Suc)
  show "draw_id t = (counter t + 1, t\<lparr>counter := counter t + 1\<rparr>)"
    using nz by (simp add: draw_id_def fetch_add_def)
qed

lemma stress_inv_draw:
  assumes "stress_inv s"
  shows "stress_inv (take_turn (Draw k) s)"
proof (cases "k < 20 \<and> drawn s k = None")
  case True
  let ?c = "counter (requests s)"
  let ?s = "s\<lparr>requests := (requests s)\<lparr>counter := ?c + 1\<rparr>, drawn := (drawn s)(k \<mapsto> ?c + 1)\<rparr>"
  have inv: "ids_inv s" "chans_inv s" "entries_inv s" using assms by (simp_all add: stress_inv_def)
  have few: "unat ?c < 20" and fin: "finite (dom (drawn s))" using drawn_few [OF inv(1)] True by blast+
  note draw = draw_small [OF few]
  have fresh: "drawn s j \<noteq> Some (?c + 1)" for j
  proof
    assume "drawn s j = Some (?c + 1)"
    then have "unat (?c + 1) \<le> unat ?c" using inv(1) unfolding ids_inv_def by auto
    then show False using draw(2) by simp
  qed
  have none: "awaits s k = None"
    using inv(2) True unfolding chans_inv_def by (cases "awaits s k") blast+
  have "card (insert k (dom (drawn s))) = Suc (card (dom (drawn s)))"
    using fin True by (intro card_insert_disjoint) auto
  then have "ids_inv ?s"
    using inv(1) True fresh draw(2)
    by (auto simp: ids_inv_def le_Suc_eq split: if_splits)
  moreover have "chans_inv ?s" using inv(2) by (auto simp: chans_inv_def)
  moreover have "entries_inv ?s"
    using inv(3) none True unfolding entries_inv_def by (auto; metis option.distinct(1))
  ultimately have "stress_inv ?s" using assms by (simp add: stress_inv_def)
  then show ?thesis using True draw(1) by simp
qed (use assms in auto)

lemma stress_inv_insert:
  assumes "stress_inv s"
  shows "stress_inv (take_turn (Insert k) s)"
proof (cases "drawn s k \<noteq> None \<and> awaits s k = None")
  case True
  then obtain i where i: "drawn s k = Some i" by auto
  let ?n = "next_chan (requests s)"
  let ?t = "(requests s)\<lparr>next_chan := Suc ?n, senders := (senders (requests s))(?n \<mapsto> Held),
      pending := (pending (requests s))(i \<mapsto> ?n)\<rparr>"
  let ?s = "s\<lparr>requests := ?t, awaits := (awaits s)(k \<mapsto> ?n)\<rparr>"
  have inv: "ids_inv s" "chans_inv s" "entries_inv s" using assms by (simp_all add: stress_inv_def)
  have mine: "drawn s j = Some i \<Longrightarrow> j = k" for j using inv(1) i unfolding ids_inv_def by blast
  have free: "pending (requests s) i = None"
    using inv(3) mine True unfolding entries_inv_def by (metis not_Some_eq)
  have t: "insert_pending i (requests s) = (?n, ?t)"
    using free by (simp add: insert_pending_def oneshot_channel_def drop_sender_def Let_def)
  have old: "awaits s j \<noteq> Some ?n" for j using inv(2) unfolding chans_inv_def by blast
  have new: "k \<notin> resolved s" using inv(3) True unfolding entries_inv_def by blast
  have "ids_inv ?s" using inv(1) by (simp add: ids_inv_def)
  moreover have "chans_inv ?s" using inv(2) i old unfolding chans_inv_def by (auto simp: less_Suc_eq)
  moreover have "entries_inv ?s"
  proof (rule entries_invI)
    fix j c assume c: "pending (requests ?s) j = Some c"
    show "\<exists>m. drawn ?s m = Some j \<and> awaits ?s m = Some c"
    proof (cases "j = i")
      case True
      then show ?thesis using c i by (intro exI [of _ k]) simp
    next
      case False
      then obtain m where "drawn s m = Some j" "awaits s m = Some c"
        using entries_invD(1) [OF inv(3), of j c] c by auto
      then show ?thesis using True by (intro exI [of _ m]) auto
    qed
  next
    fix m j rx assume "drawn ?s m = Some j" "awaits ?s m = Some rx" "m \<notin> resolved ?s"
    note m = this
    show "senders (requests ?s) rx = Some Held \<and> pending (requests ?s) j = Some rx"
    proof (cases "m = k")
      case False
      then have "drawn s m = Some j" "awaits s m = Some rx" "m \<notin> resolved s" using m by simp_all
      moreover have "rx \<noteq> ?n" "j \<noteq> i" using calculation old [of m] mine [of m] False by auto
      ultimately show ?thesis using entries_invD(2) [OF inv(3)] by simp
    qed (use i m in simp)
  next
    fix m j rx assume m: "drawn ?s m = Some j" "awaits ?s m = Some rx" "m \<in> resolved ?s"
    have "m \<noteq> k" using m(3) new by auto
    then have "drawn s m = Some j" "awaits s m = Some rx" "m \<in> resolved s" using m by simp_all
    moreover have "rx \<noteq> ?n" using calculation old [of m] by auto
    ultimately show "senders (requests ?s) rx = Some (Sent (own_payload j))"
      using entries_invD(3) [OF inv(3)] by simp
  qed (use entries_invD(4) [OF inv(3)] in auto)
  ultimately have "stress_inv ?s" using assms by (simp add: stress_inv_def)
  then show ?thesis using True i t by simp
qed (use assms in \<open>auto split: option.split\<close>)

lemma stress_inv_resolve:
  assumes "stress_inv s"
  shows "stress_inv (take_turn (Resolve k) s)"
proof (cases "\<exists>i rx. drawn s k = Some i \<and> awaits s k = Some rx \<and> k \<notin> resolved s")
  case True
  then obtain i rx where k: "drawn s k = Some i" "awaits s k = Some rx" "k \<notin> resolved s" by blast
  let ?t = "(requests s)\<lparr>pending := (pending (requests s))(i := None),
      senders := (senders (requests s))(rx \<mapsto> Sent (own_payload i))\<rparr>"
  let ?s = "s\<lparr>requests := ?t, resolved := insert k (resolved s)\<rparr>"
  have inv: "ids_inv s" "chans_inv s" "entries_inv s" using assms by (simp_all add: stress_inv_def)
  have "pending (requests s) i = Some rx" using inv(3) k unfolding entries_inv_def by blast
  then have t: "snd (resolve i (own_payload i) (requests s)) = ?t" by (simp add: resolve_def)
  have mine: "drawn s j = Some i \<Longrightarrow> j = k" "awaits s j = Some rx \<Longrightarrow> j = k" for j
    using inv(1,2) k unfolding ids_inv_def chans_inv_def by blast+
  have "ids_inv ?s" "chans_inv ?s" using inv(1,2) by (simp_all add: ids_inv_def chans_inv_def)
  moreover have "entries_inv ?s"
  proof (rule entries_invI)
    fix j c assume "pending (requests ?s) j = Some c"
    then show "\<exists>k. drawn ?s k = Some j \<and> awaits ?s k = Some c"
      using entries_invD(1) [OF inv(3), of j c] by (simp split: if_splits)
  next
    fix m j rx' assume m: "drawn ?s m = Some j" "awaits ?s m = Some rx'" "m \<notin> resolved ?s"
    then have "m \<noteq> k" "j \<noteq> i" "rx' \<noteq> rx" using mine [of m] by auto
    then show "senders (requests ?s) rx' = Some Held \<and> pending (requests ?s) j = Some rx'"
      using entries_invD(2) [OF inv(3), of m j rx'] m by simp
  next
    fix m j rx' assume m: "drawn ?s m = Some j" "awaits ?s m = Some rx'" "m \<in> resolved ?s"
    show "senders (requests ?s) rx' = Some (Sent (own_payload j))"
    proof (cases "m = k")
      case False
      then have "rx' \<noteq> rx" using mine [of m] m by auto
      then show ?thesis using entries_invD(3) [OF inv(3), of m j rx'] m False by simp
    qed (use k m in auto)
  qed (use entries_invD(4) [OF inv(3)] k in auto)
  ultimately have "stress_inv ?s" using assms by (simp add: stress_inv_def)
  then show ?thesis using k t by simp
qed (use assms in \<open>auto split: option.split\<close>)

text \<open>What awaiting finds, for a task whose request has been resolved.\<close>

lemma await_resolved:
  assumes "stress_inv s" and "drawn s k = Some i" and "awaits s k = Some rx"
  shows "senders (requests s) rx = Some (if k \<in> resolved s then Sent (own_payload i) else Held)"
  using assms unfolding stress_inv_def entries_inv_def by auto

lemma await_turn:
  assumes "stress_inv s"
  shows "take_turn (Await k) s =
     (if k \<in> resolved s \<and> verdict s k = None then s\<lparr>verdict := (verdict s)(k \<mapsto> True)\<rparr> else s)"
proof (cases "\<exists>i rx. drawn s k = Some i \<and> awaits s k = Some rx")
  case True
  then obtain i rx where "drawn s k = Some i" "awaits s k = Some rx" by blast
  with await_resolved [OF assms this] show ?thesis by (simp add: wait_for_def own_payload_id)
next
  case False
  have "k \<notin> resolved s"
    using assms False unfolding stress_inv_def entries_inv_def chans_inv_def by (metis domD not_Some_eq subsetD)
  then show ?thesis using False by (auto split: option.split)
qed

lemma stress_inv_turn: "stress_inv s \<Longrightarrow> stress_inv (take_turn t s)"
proof (cases t)
  case (Await k)
  assume inv: "stress_inv s"
  then show ?thesis
    unfolding Await await_turn [OF inv] by (simp add: stress_inv_def ids_inv_def chans_inv_def entries_inv_def)
qed (simp_all only: stress_inv_draw stress_inv_insert stress_inv_resolve)

lemma stress_inv_run: "stress_inv s \<Longrightarrow> stress_inv (fold take_turn ts s)"
  by (induction ts arbitrary: s) (simp_all add: stress_inv_turn)

text \<open>C40. The stress test passes under every schedule. However the turns of the twenty tasks and of the
  tasks that resolve for them are interleaved, no assertion fails; and a task whose request has been
  resolved, if it has not finished, finishes at its next turn with its own identifier in the answer.\<close>

theorem stress_test_passes:
  "test_concurrent_register_resolve ts \<and>
   (let s = fold take_turn ts stress_start
    in k \<in> resolved s \<longrightarrow> verdict (take_turn (Await k) s) k = Some True)"
proof -
  let ?s = "fold take_turn ts stress_start"
  have inv: "stress_inv ?s" by (rule stress_inv_run [OF stress_inv_start])
  then have "\<forall>k. verdict ?s k \<noteq> Some False" by (simp add: stress_inv_def)
  then show ?thesis
    unfolding test_concurrent_register_resolve_def Let_def await_turn [OF inv]
    by (cases "verdict ?s k"; cases "the (verdict ?s k)") auto
qed

theorem stress_test_passes_witness:
  "verdict (fold take_turn [Draw 3, Draw 5, Insert 5, Insert 3, Resolve 5, Await 3, Await 5] stress_start) 5 =
     Some True"
proof -
  let ?ts = "[Draw 3, Draw 5, Insert 5, Insert 3, Resolve 5, Await 3]"
  have "5 \<in> resolved (fold take_turn ?ts stress_start)"
    by (simp add: stress_start_def tracker_new_def draw_id_def fetch_add_def insert_pending_def
        oneshot_channel_def drop_sender_def resolve_def Let_def)
  with stress_test_passes [of ?ts 5] show ?thesis by (simp add: Let_def del: take_turn.simps)
qed

end
