(* ===== verification/Integration_Tests.thy ===== *)
theory Integration_Tests
  imports Test_Kit Serve
begin

text \<open>
  The integration tests of the crate (\<open>tests/mock_device.rs\<close>), which use its public interface only, run on
  the model: the helpers that write and read a message by hand, the parsers of \<open>client/router.rs\<close>
  behind their public wrappers, the constructors and texts of \<open>types.rs\<close>, \<open>error.rs\<close> and \<open>event.rs\<close>, and
  the file server. One test has no assertion (\<open>test_error_variant_matching\<close>) and is left out.
\<close>

section \<open>The helpers\<close>

definition encode_cast_message :: "string \<Rightarrow> string \<Rightarrow> string \<Rightarrow> string \<Rightarrow> u8 list" where
  "encode_cast_message ns source dest payload =
     (let buf = put_field (1, Varint 0) @ put_field (2, Bytes (string_bytes source)) @
            put_field (3, Bytes (string_bytes dest)) @ put_field (4, Bytes (string_bytes ns)) @
            put_field (5, Varint 0) @ put_field (6, Bytes (string_bytes payload))
      in u32_to_be_bytes (of_nat (length buf)) @ buf)"

text \<open>\<open>String::from_utf8_lossy\<close>: each longest start of a sequence that cannot be continued becomes U+FFFD.
  \<open>utf8_step\<close> says how many bytes come next and whether they are a character.\<close>

definition cont :: "u8 \<Rightarrow> bool" where "cont b \<longleftrightarrow> 0x80 \<le> b \<and> b \<le> 0xBF"

definition second_byte :: "u8 \<Rightarrow> u8 \<Rightarrow> bool" where
  "second_byte b c \<longleftrightarrow> cont c \<and>
     (b = 0xE0 \<longrightarrow> 0xA0 \<le> c) \<and> (b = 0xED \<longrightarrow> c \<le> 0x9F) \<and> (b = 0xF0 \<longrightarrow> 0x90 \<le> c) \<and> (b = 0xF4 \<longrightarrow> c \<le> 0x8F)"

definition sequence_length :: "u8 \<Rightarrow> nat" where
  "sequence_length b =
     (if b < 0x80 then 1 else if 0xC2 \<le> b \<and> b \<le> 0xDF then 2 else if 0xE0 \<le> b \<and> b \<le> 0xEF then 3
      else if 0xF0 \<le> b \<and> b \<le> 0xF4 then 4 else 0)"

definition utf8_step :: "u8 \<Rightarrow> u8 list \<Rightarrow> nat \<times> bool" where
  "utf8_step b bs =
     (let n = sequence_length b;
          k = (case bs of
                 c # cs \<Rightarrow> if second_byte b c then Suc (length (takeWhile cont (take (n - 2) cs))) else 0
               | [] \<Rightarrow> 0)
      in if n = 1 then (1, True) else if n = 0 then (1, False)
         else (Suc (min k (n - 1)), Suc k = n))"

function from_utf8_lossy :: "u8 list \<Rightarrow> string" where
  "from_utf8_lossy [] = []"
| "from_utf8_lossy (b # bs) =
     (case utf8_step b bs of
        (n, ok) \<Rightarrow> (if ok then bytes_string (take n (b # bs)) else bytes_string [0xEF, 0xBF, 0xBD]) @
          from_utf8_lossy (drop (n - 1) bs))"
  by pat_completeness auto
termination by (relation "measure length") auto

text \<open>\<open>find\<close>, \<open>rfind\<close>, and the slice between them, which panics when they are in the wrong order.\<close>

fun position :: "char \<Rightarrow> string \<Rightarrow> nat option" where
  "position c [] = None"
| "position c (x # xs) = (if x = c then Some 0 else map_option Suc (position c xs))"

definition last_position :: "char \<Rightarrow> string \<Rightarrow> nat option" where
  "last_position c s = map_option (\<lambda>i. length s - 1 - i) (position c (rev s))"

text \<open>\<open>None\<close> is the panic; the reader of JSON is \<open>serde_json\<close>'s.\<close>

definition read_json_message :: "parser \<Rightarrow> u8 list \<Rightarrow> json option option" where
  "read_json_message parse bytes =
     (if length bytes < 4 then Some None
      else (let len = unat (u32_from_be_bytes (take 4 bytes)); rest = drop 4 bytes
            in if length rest < len then Some None
               else (let raw = from_utf8_lossy (take len rest)
                     in case (position (CHR ''{'') raw, last_position (CHR ''}'') raw) of
                          (Some i, Some j) \<Rightarrow>
                            if j + 1 < i then None else Some (parse (take (j + 1 - i) (drop i raw)))
                        | _ \<Rightarrow> Some None)))"

section \<open>Framing\<close>

definition test_framing_roundtrip :: "parser \<Rightarrow> bool" where
  "test_framing_roundtrip parse \<longleftrightarrow>
     (case read_json_message parse (encode_cast_message ''urn:x-cast:com.google.cast.tp.heartbeat''
             ''sender-0'' ''receiver-0'' (type_text ''PING'')) of
        Some (Some parsed) \<Rightarrow> is_str (at_key parsed ''type'') ''PING'' | _ \<Rightarrow> False)"

definition test_framing_length_prefix_correct :: bool where
  "test_framing_length_prefix_correct \<longleftrightarrow>
     (let msg = encode_cast_message ''urn:x-cast:com.google.cast.tp.heartbeat'' ''sender-0'' ''receiver-0''
                  (type_text ''PONG'')
      in 4 < length msg \<and> unat (u32_from_be_bytes (take 4 msg)) = length msg - 4)"

definition test_framing_oversized_message_rejected :: "parser \<Rightarrow> bool" where
  "test_framing_oversized_message_rejected parse \<longleftrightarrow>
     read_json_message parse (u32_to_be_bytes 70000 @ replicate 100 0) = Some None"

definition test_framing_empty_stream :: "parser \<Rightarrow> bool" where
  "test_framing_empty_stream parse \<longleftrightarrow> read_json_message parse [] = Some None"

text \<open>The bytes that the tests write by hand are those of the codec the framing is proved for.\<close>

lemma encode_by_hand:
  "encode_cast_message ns source dest payload = frame (cast_message_encode (build_message ns source dest payload))"
  by (simp add: encode_cast_message_def frame_def cast_message_encode_def cast_message_fields_def
      build_message_def Let_def)

section \<open>Statuses of the receiver\<close>

definition parse_receiver_status_from_json :: "json \<Rightarrow> receiver_status option" where
  "parse_receiver_status_from_json = parse_receiver_status"

definition parse_media_status_from_json :: "json \<Rightarrow> media_status option" where
  "parse_media_status_from_json = parse_media_status"

definition volume_json :: "f64 \<Rightarrow> bool \<Rightarrow> json" where
  "volume_json level muted = jobj [(''level'', flt level), (''muted'', Bool muted)]"

definition receiver_message :: "(string \<times> json) list \<Rightarrow> json" where
  "receiver_message status = jobj
     [(''requestId'', num 1), (''type'', String ''RECEIVER_STATUS''), (''status'', jobj status)]"

definition test_receiver_status_parsing :: bool where
  "test_receiver_status_parsing \<longleftrightarrow>
     (case parse_receiver_status_from_json (receiver_message
           [(''volume'', volume_json 0x3FE0000000000000 False),
            (''applications'', Array [jobj
               [(''appId'', String ''CC1AD845''), (''displayName'', String ''Default Media Receiver''),
                (''sessionId'', String ''test-session''), (''transportId'', String ''test-transport''),
                (''namespaces'', Array [jobj [(''name'', String ''urn:x-cast:com.google.cast.media'')]]),
                (''statusText'', String ''Ready'')]]),
            (''isActiveInput'', Bool True), (''isStandBy'', Bool False)]) of
        None \<Rightarrow> False
      | Some st \<Rightarrow>
          vol_level (rs_volume st) = 0x3F000000 \<and> \<not> vol_muted (rs_volume st) \<and>
          length (rs_applications st) = 1 \<and>
          (let app = rs_applications st ! 0
           in app_id app = ''CC1AD845'' \<and> app_transport_id app = ''test-transport'' \<and>
              app_session_id app = ''test-session'' \<and> length (app_namespaces app) = 1) \<and>
          is_active_input st \<and> \<not> is_stand_by st)"

definition test_receiver_status_no_apps :: bool where
  "test_receiver_status_no_apps \<longleftrightarrow>
     (case parse_receiver_status_from_json (receiver_message
           [(''volume'', volume_json F64_ONE True), (''isActiveInput'', Bool False), (''isStandBy'', Bool True)]) of
        None \<Rightarrow> False
      | Some st \<Rightarrow>
          vol_level (rs_volume st) = F32_ONE \<and> vol_muted (rs_volume st) \<and> rs_applications st = [] \<and>
          \<not> is_active_input st \<and> is_stand_by st)"

definition test_receiver_status_muted_volume :: bool where
  "test_receiver_status_muted_volume \<longleftrightarrow>
     (case parse_receiver_status_from_json (receiver_message
           [(''volume'', volume_json F64_ZERO True), (''isActiveInput'', Bool False), (''isStandBy'', Bool False)]) of
        None \<Rightarrow> False
      | Some st \<Rightarrow> vol_level (rs_volume st) = F32_ZERO \<and> vol_muted (rs_volume st))"

definition some_app :: "string \<Rightarrow> string \<Rightarrow> string \<Rightarrow> string \<Rightarrow> json" where
  "some_app i name session transport = jobj
     [(''appId'', String i), (''displayName'', String name), (''sessionId'', String session),
      (''transportId'', String transport), (''namespaces'', Array []), (''statusText'', String [])]"

definition test_receiver_status_multiple_apps :: bool where
  "test_receiver_status_multiple_apps \<longleftrightarrow>
     (case parse_receiver_status_from_json (receiver_message
           [(''volume'', volume_json 0x3FE0000000000000 False),
            (''applications'', Array
               [some_app ''APP1'' ''App One'' ''s1'' ''t1'', some_app ''APP2'' ''App Two'' ''s2'' ''t2'']),
            (''isActiveInput'', Bool True), (''isStandBy'', Bool False)]) of
        None \<Rightarrow> False
      | Some st \<Rightarrow>
          length (rs_applications st) = 2 \<and> app_id (rs_applications st ! 0) = ''APP1'' \<and>
          app_id (rs_applications st ! 1) = ''APP2'')"

section \<open>Statuses of the media\<close>

definition media_message :: "u64 \<Rightarrow> (string \<times> json) list \<Rightarrow> json" where
  "media_message i entry = jobj
     [(''type'', String ''MEDIA_STATUS''), (''status'', Array [jobj entry]), (''requestId'', num i)]"

text \<open>The test of a message that parses.\<close>

definition media_case :: "u64 \<Rightarrow> (string \<times> json) list \<Rightarrow> (media_status \<Rightarrow> bool) \<Rightarrow> bool" where
  "media_case i entry check \<longleftrightarrow>
     (case parse_media_status_from_json (media_message i entry) of None \<Rightarrow> False | Some st \<Rightarrow> check st)"

definition media_json :: "string \<Rightarrow> string \<Rightarrow> (string \<times> json) list \<Rightarrow> json" where
  "media_json ct st extra = jobj
     ([(''contentId'', String ''x''), (''contentType'', String ct), (''streamType'', String st)] @ extra)"

text \<open>\<open>(x - y).abs() < 0.001\<close> of finite numbers, which are multiples of \<open>2 ^ -1075\<close>.\<close>

definition f64_units :: "f64 \<Rightarrow> int" where
  "f64_units x =
     (let e = f64_mag x div 2 ^ 52; f = f64_mag x mod 2 ^ 52; m = (if e = 0 then f else 2 ^ 52 + f)
      in (if f64_neg x then - 1 else 1) * (int m * 2 ^ max e 1))"

definition f64_near :: "f64 \<Rightarrow> f64 \<Rightarrow> bool" where
  "f64_near x y \<longleftrightarrow> 1000 * \<bar>f64_units x - f64_units y\<bar> < 2 ^ 1075"

definition test_media_status_playing_with_movie_metadata :: bool where
  "test_media_status_playing_with_movie_metadata \<longleftrightarrow>
     (case parse_media_status_from_json (media_message 5
           [(''mediaSessionId'', num 42), (''playerState'', String ''PLAYING''),
            (''currentTime'', flt 0x405EDD2F1A9FBE77), (''volume'', volume_json 0x3FE999999999999A False),
            (''media'', jobj
               [(''contentId'', String ''https://example.com/video.mp4''), (''contentType'', String ''video/mp4''),
                (''streamType'', String ''BUFFERED''), (''duration'', flt 0x4082C00000000000),
                (''metadata'', jobj
                   [(''metadataType'', num 1), (''title'', String ''Test Movie''), (''subtitle'', String ''A test''),
                    (''studio'', String ''Test Studio''),
                    (''images'', Array [jobj [(''url'', String ''https://example.com/poster.jpg''),
                       (''width'', num 300), (''height'', num 450)]])])])]) of
        None \<Rightarrow> False
      | Some st \<Rightarrow>
          media_session_id st = 42 \<and> player_state st = Playing \<and> f64_near (current_time st) 0x405EDD2F1A9FBE77 \<and>
          ms_duration st = Some 0x4082C00000000000 \<and> vol_level (ms_volume st) = 0x3F4CCCCD \<and>
          (case ms_media st of
             None \<Rightarrow> False
           | Some info \<Rightarrow>
               content_id info = ''https://example.com/video.mp4'' \<and>
               (case mi_metadata info of
                  Some (Movie title subtitle studio images) \<Rightarrow>
                    title = Some ''Test Movie'' \<and> subtitle = Some ''A test'' \<and>
                    studio = Some ''Test Studio'' \<and> length images = 1 \<and> img_width (images ! 0) = Some 300
                | _ \<Rightarrow> False)))"

definition test_media_status_idle_finished :: bool where
  "test_media_status_idle_finished \<longleftrightarrow> media_case 0
       [(''mediaSessionId'', num 5), (''playerState'', String ''IDLE''), (''currentTime'', num 0),
        (''volume'', volume_json F64_ONE False), (''idleReason'', String ''FINISHED'')]
       (\<lambda>st. player_state st = Idle \<and> idle_reason st = Some Finished)"

definition test_media_status_idle_error :: bool where
  "test_media_status_idle_error \<longleftrightarrow> media_case 0
       [(''mediaSessionId'', num 3), (''playerState'', String ''IDLE''), (''currentTime'', num 0),
        (''volume'', volume_json F64_ONE False), (''idleReason'', String ''ERROR'')]
       (\<lambda>st. idle_reason st = Some IdleError)"

definition test_media_status_idle_cancelled :: bool where
  "test_media_status_idle_cancelled \<longleftrightarrow> media_case 0
       [(''mediaSessionId'', num 1), (''playerState'', String ''IDLE''), (''currentTime'', num 0),
        (''volume'', volume_json F64_ONE False), (''idleReason'', String ''CANCELLED'')]
       (\<lambda>st. idle_reason st = Some Cancelled)"

definition test_media_status_idle_interrupted :: bool where
  "test_media_status_idle_interrupted \<longleftrightarrow> media_case 0
       [(''mediaSessionId'', num 1), (''playerState'', String ''IDLE''), (''currentTime'', num 0),
        (''volume'', volume_json F64_ONE False), (''idleReason'', String ''INTERRUPTED'')]
       (\<lambda>st. idle_reason st = Some Interrupted)"

definition test_media_status_buffering :: bool where
  "test_media_status_buffering \<longleftrightarrow> media_case 0
       [(''mediaSessionId'', num 1), (''playerState'', String ''BUFFERING''),
        (''currentTime'', flt 0x4025000000000000), (''volume'', volume_json F64_ONE False)]
       (\<lambda>st. player_state st = Buffering \<and> f64_near (current_time st) 0x4025000000000000)"

definition test_media_status_paused :: bool where
  "test_media_status_paused \<longleftrightarrow> media_case 0
       [(''mediaSessionId'', num 1), (''playerState'', String ''PAUSED''),
        (''currentTime'', flt 0x404B800000000000), (''volume'', volume_json 0x3FD3333333333333 True)]
       (\<lambda>st. player_state st = Paused \<and> vol_level (ms_volume st) = 0x3E99999A \<and> vol_muted (ms_volume st))"

definition test_media_status_empty_array :: bool where
  "test_media_status_empty_array \<longleftrightarrow>
     parse_media_status_from_json (jobj
       [(''type'', String ''MEDIA_STATUS''), (''status'', Array []), (''requestId'', num 0)]) = None"

definition test_media_status_unknown_player_state :: bool where
  "test_media_status_unknown_player_state \<longleftrightarrow>
     parse_media_status_from_json (media_message 0
       [(''mediaSessionId'', num 1), (''playerState'', String ''UNKNOWN_STATE''),
        (''currentTime'', num 0), (''volume'', jempty)]) = None"

definition test_media_status_no_duration :: bool where
  "test_media_status_no_duration \<longleftrightarrow> media_case 0
       [(''mediaSessionId'', num 1), (''playerState'', String ''PLAYING''),
        (''currentTime'', num 0), (''volume'', volume_json F64_ONE False),
        (''media'', media_json ''video/mp4'' ''LIVE'' [])]
       (\<lambda>st. ms_duration st = None \<and> map_option stream_type (ms_media st) = Some Live)"

definition test_media_status_zero_duration_treated_as_none :: bool where
  "test_media_status_zero_duration_treated_as_none \<longleftrightarrow> media_case 0
       [(''mediaSessionId'', num 1), (''playerState'', String ''PLAYING''),
        (''currentTime'', num 0), (''volume'', volume_json F64_ONE False),
        (''media'', media_json ''video/mp4'' ''BUFFERED'' [(''duration'', flt F64_ZERO)])]
       (\<lambda>st. ms_duration st = None)"

definition test_media_status_negative_duration_treated_as_none :: bool where
  "test_media_status_negative_duration_treated_as_none \<longleftrightarrow> media_case 0
       [(''mediaSessionId'', num 1), (''playerState'', String ''PLAYING''),
        (''currentTime'', num 0), (''volume'', volume_json F64_ONE False),
        (''media'', media_json ''video/mp4'' ''BUFFERED'' [(''duration'', flt 0xBFF0000000000000)])]
       (\<lambda>st. ms_duration st = None)"

definition test_media_status_no_media_field :: bool where
  "test_media_status_no_media_field \<longleftrightarrow> media_case 0
       [(''mediaSessionId'', num 1), (''playerState'', String ''IDLE''), (''currentTime'', num 0),
        (''volume'', volume_json F64_ONE False), (''idleReason'', String ''CANCELLED'')]
       (\<lambda>st. ms_media st = None \<and> idle_reason st = Some Cancelled)"

definition test_media_status_missing_volume :: bool where
  "test_media_status_missing_volume \<longleftrightarrow> media_case 0
       [(''mediaSessionId'', num 1), (''playerState'', String ''PLAYING''),
        (''currentTime'', flt 0x4049000000000000)]
       (\<lambda>st. vol_level (ms_volume st) = F32_ONE \<and> \<not> vol_muted (ms_volume st))"

section \<open>Metadata\<close>

definition media_with :: "u64 \<Rightarrow> string \<Rightarrow> string \<Rightarrow> (string \<times> json) list \<Rightarrow> (string \<times> json) list \<Rightarrow> json" where
  "media_with i ct st extra meta = media_message i
     [(''mediaSessionId'', num 1), (''playerState'', String ''PLAYING''), (''currentTime'', num 0),
      (''volume'', volume_json F64_ONE False),
      (''media'', media_json ct st (extra @ [(''metadata'', jobj meta)]))]"

definition metadata_of :: "json \<Rightarrow> media_metadata option" where
  "metadata_of j = Option.bind (Option.bind (parse_media_status_from_json j) ms_media) mi_metadata"

definition test_generic_metadata :: bool where
  "test_generic_metadata \<longleftrightarrow>
     (case metadata_of (media_with 0 ''audio/mp3'' ''BUFFERED'' []
           [(''metadataType'', num 0), (''title'', String ''Song''),
            (''subtitle'', String ''Artist'')]) of
        Some (Generic title subtitle _) \<Rightarrow>
          title = Some ''Song'' \<and> subtitle = Some ''Artist''
      | _ \<Rightarrow> False)"

definition test_tv_show_metadata :: bool where
  "test_tv_show_metadata \<longleftrightarrow>
     (case metadata_of (media_with 1 ''video/mp4'' ''BUFFERED'' [(''duration'', flt 0x4096800000000000)]
           [(''metadataType'', num 2), (''seriesTitle'', String ''Breaking Bad''),
            (''episodeTitle'', String ''Pilot''), (''season'', num 1), (''episode'', num 1),
            (''images'', Array [])]) of
        Some (TvShow series_title episode_title season episode _) \<Rightarrow>
          series_title = Some ''Breaking Bad'' \<and> episode_title = Some ''Pilot'' \<and>
          season = Some 1 \<and> episode = Some 1
      | _ \<Rightarrow> False)"

definition test_music_track_metadata :: bool where
  "test_music_track_metadata \<longleftrightarrow>
     (case metadata_of (media_with 0 ''audio/mp3'' ''BUFFERED'' []
           [(''metadataType'', num 3), (''title'', String ''Bohemian Rhapsody''),
            (''artist'', String ''Queen''), (''albumName'', String ''A Night at the Opera''),
            (''trackNumber'', num 11), (''discNumber'', num 1)]) of
        Some (MusicTrack title artist album_name _ track_number disc_number _) \<Rightarrow>
          title = Some ''Bohemian Rhapsody'' \<and> artist = Some ''Queen'' \<and>
          album_name = Some ''A Night at the Opera'' \<and> track_number = Some 11 \<and>
          disc_number = Some 1
      | _ \<Rightarrow> False)"

definition test_photo_metadata :: bool where
  "test_photo_metadata \<longleftrightarrow>
     (case metadata_of (media_with 0 ''image/jpeg'' ''NONE'' []
           [(''metadataType'', num 4), (''title'', String ''Sunset''),
            (''artist'', String ''Photographer''), (''latitude'', flt 0x40486DA5119CE076),
            (''longitude'', flt 0x4002D14E3BCD35A8), (''width'', num 4000), (''height'', num 3000)]) of
        Some (Photo title artist _ (Some latitude) (Some longitude) width height _) \<Rightarrow>
          title = Some ''Sunset'' \<and> artist = Some ''Photographer'' \<and>
          f64_near latitude 0x40486DA5119CE076 \<and> f64_near longitude 0x4002D14E3BCD35A8 \<and>
          width = Some 4000 \<and> height = Some 3000
      | _ \<Rightarrow> False)"

definition test_audiobook_chapter_metadata :: bool where
  "test_audiobook_chapter_metadata \<longleftrightarrow>
     (case metadata_of (media_with 0 ''audio/mp3'' ''BUFFERED'' []
           [(''metadataType'', num 5), (''bookTitle'', String ''Dune''),
            (''chapterTitle'', String ''Chapter 1''), (''chapterNumber'', num 1),
            (''subtitle'', String ''The Beginning'')]) of
        Some (AudiobookChapter book_title chapter_title chapter_number subtitle _) \<Rightarrow>
          book_title = Some ''Dune'' \<and> chapter_title = Some ''Chapter 1'' \<and>
          chapter_number = Some 1 \<and> subtitle = Some ''The Beginning''
      | _ \<Rightarrow> False)"

definition test_unknown_metadata_type_falls_back_to_generic :: bool where
  "test_unknown_metadata_type_falls_back_to_generic \<longleftrightarrow>
     (case metadata_of (media_with 0 ''video/mp4'' ''BUFFERED'' []
           [(''metadataType'', num 99), (''title'', String ''Unknown'')]) of
        Some (Generic title _ _) \<Rightarrow>
          title = Some ''Unknown''
      | _ \<Rightarrow> False)"

definition test_metadata_no_images :: bool where
  "test_metadata_no_images \<longleftrightarrow>
     (case metadata_of (media_with 0 ''video/mp4'' ''BUFFERED'' []
           [(''metadataType'', num 1), (''title'', String ''No Images Movie'')]) of
        Some (Movie title _ _ images) \<Rightarrow>
          title = Some ''No Images Movie'' \<and> images = []
      | _ \<Rightarrow> False)"

definition test_metadata_missing_optional_fields :: bool where
  "test_metadata_missing_optional_fields \<longleftrightarrow>
     (case metadata_of (media_with 0 ''video/mp4'' ''BUFFERED'' []
           [(''metadataType'', num 3)]) of
        Some (MusicTrack title artist album_name _ _ _ _) \<Rightarrow>
          title = None \<and> artist = None \<and> album_name = None
      | _ \<Rightarrow> False)"

section \<open>Constants, constructors and texts\<close>

definition test_namespace_constants :: bool where
  "test_namespace_constants \<longleftrightarrow>
     prefix ''urn:x-cast:'' NS_HEARTBEAT \<and> prefix ''urn:x-cast:'' NS_CONNECTION \<and>
     prefix ''urn:x-cast:'' NS_RECEIVER \<and> prefix ''urn:x-cast:'' NS_MEDIA \<and>
     SENDER_ID = ''sender-0'' \<and> RECEIVER_ID = ''receiver-0'' \<and> APP_DEFAULT_MEDIA_RECEIVER = ''CC1AD845''"

definition test_cast_app_ids :: bool where
  "test_cast_app_ids \<longleftrightarrow>
     cast_app_id DefaultMediaReceiver = ''CC1AD845'' \<and> cast_app_id YouTube = ''233637DE'' \<and>
     cast_app_id Backdrop = ''E8C28D3C'' \<and> cast_app_id (Custom ''MYAPP'') = ''MYAPP''"

definition test_media_info_builder :: bool where
  "test_media_info_builder \<longleftrightarrow>
     (let m = media_info_duration (media_info_stream_type
            (media_info_new ''https://example.com/v.mp4'' ''video/mp4'') Live) 0x405E200000000000
      in content_id m = ''https://example.com/v.mp4'' \<and> content_type m = ''video/mp4'' \<and>
         stream_type m = Live \<and> mi_duration m = Some 0x405E200000000000)" \<comment> \<open>\<open>120.5\<close>\<close>

definition test_media_info_defaults :: bool where
  "test_media_info_defaults \<longleftrightarrow>
     (let m = media_info_new ''url'' ''type''
      in stream_type m = Buffered \<and> mi_duration m = None \<and> mi_metadata m = None)"

definition test_media_info_movie :: bool where
  "test_media_info_movie \<longleftrightarrow>
     (let m = media_info_movie ''url'' ''video/mp4'' ''Inception''
      in content_id m = ''url'' \<and> stream_type m = Buffered \<and>
         (case mi_metadata m of Some (Movie title _ _ _) \<Rightarrow> title = Some ''Inception'' | _ \<Rightarrow> False))"

definition test_media_info_live :: bool where
  "test_media_info_live \<longleftrightarrow>
     (let m = media_info_live ''url'' ''application/x-mpegURL''
      in stream_type m = Live \<and> mi_duration m = None \<and> mi_metadata m = None)"

definition test_media_info_full_chain :: bool where
  "test_media_info_full_chain \<longleftrightarrow>
     (let m = media_info_metadata (media_info_duration (media_info_stream_type
            (media_info_new ''url'' ''video/mp4'') Live) 0x40AC200000000000)
            (Generic (Some ''Live Event'') None [])
      in stream_type m = Live \<and> mi_duration m = Some 0x40AC200000000000 \<and> mi_metadata m \<noteq> None)"

definition test_player_state_display :: bool where
  "test_player_state_display \<longleftrightarrow>
     map player_state_display [Playing, Paused, Buffering, Idle] =
       [''playing'', ''paused'', ''buffering'', ''idle'']"

definition test_idle_reason_display :: bool where
  "test_idle_reason_display \<longleftrightarrow>
     map idle_reason_display [Finished, IdleError, Cancelled, Interrupted] =
       [''finished'', ''error'', ''cancelled'', ''interrupted'']"

definition test_stream_type_display :: bool where
  "test_stream_type_display \<longleftrightarrow>
     map stream_type_display [Live, Buffered, StreamNone] = [''live'', ''buffered'', ''none'']"

definition test_cast_app_display :: bool where
  "test_cast_app_display \<longleftrightarrow>
     map cast_app_display [DefaultMediaReceiver, YouTube, Custom ''X''] =
       [''Default Media Receiver'', ''YouTube'', ''Custom(X)'']"

definition test_volume_new :: bool where
  "test_volume_new \<longleftrightarrow>
     (let v = volume_new 0x3F400000 in vol_level v = 0x3F400000 \<and> \<not> vol_muted v)" \<comment> \<open>\<open>0.75\<close>\<close>

definition test_volume_muted :: bool where
  "test_volume_muted \<longleftrightarrow> vol_level volume_muted = F32_ZERO \<and> vol_muted volume_muted"

definition test_error_display :: bool where
  "test_error_display \<longleftrightarrow>
     error_display ErrDisconnected = ''connection closed by device'' \<and>
     error_display ErrNoMediaSession = ''no active media session'' \<and>
     error_display ErrNoApplication = ''no running application'' \<and>
     error_display ErrInvalidPayload = ''payload must be a JSON object'' \<and>
     error_display (ErrFileNotFound ''/tmp/nope.mp4'') = ''file not found: /tmp/nope.mp4'' \<and>
     error_display (ErrDiscovery ''mDNS failed'') = ''discovery failed: mDNS failed'' \<and>
     str_contains ''5s'' (error_display (ErrTimeout 5000000000)) \<and>
     str_contains ''bad codec'' (error_display (ErrLoadFailed ''bad codec'' (Some ''error code 150''))) \<and>
     (let e = ErrInvalidRequest 42 ''INVALID_MEDIA_SESSION_ID''
      in str_contains ''42'' (error_display e) \<and> str_contains ''INVALID_MEDIA_SESSION_ID'' (error_display e))"

section \<open>Events\<close>

definition test_event_as_media_status :: bool where
  "test_event_as_media_status \<longleftrightarrow>
     (let e = EvMediaStatusChanged
            \<lparr>media_session_id = 1, player_state = Playing, idle_reason = None,
             current_time = 0x4024000000000000, ms_duration = Some 0x4082C00000000000,
             ms_volume = volume_new F32_ONE, ms_media = None\<rparr>
      in is_media_status e \<and> \<not> is_disconnected e \<and>
         map_option current_time (as_media_status e) = Some 0x4024000000000000)"

definition test_event_is_disconnected :: bool where
  "test_event_is_disconnected \<longleftrightarrow>
     (let e = EvDisconnected (Some ''test'')
      in is_disconnected e \<and> \<not> is_media_status e \<and> as_media_status e = None)"

definition test_event_as_receiver_status :: bool where
  "test_event_as_receiver_status \<longleftrightarrow>
     (let e = EvReceiverStatusChanged
            \<lparr>rs_volume = volume_new 0x3F000000, rs_applications = [], is_active_input = True,
             is_stand_by = False\<rparr>
      in map_option (\<lambda>st. vol_level (rs_volume st)) (as_receiver_status e) = Some 0x3F000000)"

definition test_event_connected_is_not_disconnected :: bool where
  "test_event_connected_is_not_disconnected \<longleftrightarrow>
     (let e = EvConnected
      in \<not> is_disconnected e \<and> \<not> is_media_status e \<and> as_media_status e = None \<and>
         as_receiver_status e = None)"

definition test_event_reconnecting :: bool where
  "test_event_reconnecting \<longleftrightarrow>
     (let e = EvReconnecting 3 in \<not> is_disconnected e \<and> \<not> is_media_status e)"

section \<open>The file server\<close>

text \<open>The machine the tests run on: the outcome of each call of the network, the files there are, and
  the process's counter of file identifiers.\<close>

record machine =
  tcp_bind :: "string + unit"
  tcp_addr :: "string + (ip_addr \<times> u16)"
  udp_bind :: "string + unit"
  udp_connect :: "string + unit"
  udp_addr :: "string + ip_addr"
  path_exists :: "string \<Rightarrow> bool"
  next_file_id :: u64

definition test_server :: "machine \<Rightarrow> error + file_server" where
  "test_server m =
     server_start (tcp_bind m) (tcp_addr m) (detect_lan_ip (udp_bind m) (udp_connect m) (udp_addr m))"

text \<open>\<open>serve_file\<close> on a server of this machine; the server and the machine afterwards.\<close>

definition register_file ::
    "string \<Rightarrow> string \<Rightarrow> machine \<Rightarrow> file_server \<Rightarrow> (error + string) \<times> machine \<times> file_server" where
  "register_file path ct m s =
     (case serve_file (path_exists m path) path ct (next_file_id m) s of
        (r, n, s') \<Rightarrow> (r, m\<lparr>next_file_id := n\<rparr>, s'))"

definition test_file_server_nonexistent_file :: "machine \<Rightarrow> bool" where
  "test_file_server_nonexistent_file m \<longleftrightarrow>
     (case test_server m of
        Inl _ \<Rightarrow> False
      | Inr s \<Rightarrow> (case register_file ''/nonexistent/path.mp4'' ''video/mp4'' m s of
                   (Inl _, _) \<Rightarrow> True | (Inr _, _) \<Rightarrow> False))"

definition test_file_server_creates_url :: "machine \<Rightarrow> bool" where
  "test_file_server_creates_url m \<longleftrightarrow>
     (case test_server m of
        Inl _ \<Rightarrow> False
      | Inr s \<Rightarrow> (case register_file ''Cargo.toml'' ''text/plain'' m s of
                   (Inl _, _) \<Rightarrow> False
                 | (Inr url, _) \<Rightarrow> prefix ''http://'' url \<and> str_contains ''/file/'' url))"

definition test_file_server_unique_ids :: "machine \<Rightarrow> bool" where
  "test_file_server_unique_ids m \<longleftrightarrow>
     (case test_server m of
        Inl _ \<Rightarrow> False
      | Inr s \<Rightarrow>
          (case register_file ''Cargo.toml'' ''text/plain'' m s of
             (Inl _, _) \<Rightarrow> False
           | (Inr url1, m', s') \<Rightarrow>
               (case register_file ''Cargo.toml'' ''text/plain'' m' s' of
                  (Inl _, _) \<Rightarrow> False | (Inr url2, _) \<Rightarrow> url1 \<noteq> url2)))"

definition test_file_server_addr_and_ip :: "machine \<Rightarrow> bool" where
  "test_file_server_addr_and_ip m \<longleftrightarrow>
     (case test_server m of Inl _ \<Rightarrow> False | Inr s \<Rightarrow> fs_addr_port s \<noteq> 0 \<and> fs_lan_ip s \<noteq> [])"

section \<open>All of them pass\<close>

text \<open>What the tests need of the machine: its network answers, a port bound as 0 is a real one, a UDP
  socket bound to \<open>0.0.0.0\<close> has an IPv4 address, and of the two files one is there.\<close>

definition networked :: "machine \<Rightarrow> bool" where
  "networked m \<longleftrightarrow>
     tcp_bind m = Inr () \<and> udp_bind m = Inr () \<and> udp_connect m = Inr () \<and>
     (case tcp_addr m of Inr (_, port) \<Rightarrow> port \<noteq> 0 | _ \<Rightarrow> False) \<and>
     (case udp_addr m of Inr (V4 _) \<Rightarrow> True | _ \<Rightarrow> False) \<and>
     path_exists m ''Cargo.toml'' \<and> \<not> path_exists m ''/nonexistent/path.mp4''"

lemma networked_server:
  assumes "networked m"
  obtains s where "test_server m = Inr s" "fs_addr_port s \<noteq> 0" "fs_lan_ip s \<noteq> []" "\<not> poisoned (files s)"
  using assms
  by (auto simp: networked_def test_server_def server_start_def detect_lan_ip_def internal_def
      registry_new_def ip_text_def ipv4_text_def decimal_def split: sum.splits prod.splits ip_addr.splits)

lemma register_file_ok:
  assumes "path_exists m path" and "\<not> poisoned (files s)"
  shows "register_file path ct m s =
     (Inr (file_url s (hex (unat (next_file_id m)))), m\<lparr>next_file_id := next_file_id m + 1\<rparr>,
      s\<lparr>files := (files s)\<lparr>entries := (entries (files s))(hex (unat (next_file_id m)) \<mapsto>
         \<lparr>fe_path = path, fe_content_type = ct\<rparr>)\<rparr>\<rparr>)"
  using assms by (simp add: register_file_def serve_file_def Let_def)

lemma server_tests:
  assumes "networked m"
  shows "test_file_server_nonexistent_file m" "test_file_server_creates_url m"
    "test_file_server_unique_ids m" "test_file_server_addr_and_ip m"
proof -
  obtain s where s: "test_server m = Inr s" "fs_addr_port s \<noteq> 0" "fs_lan_ip s \<noteq> []" "\<not> poisoned (files s)"
    using networked_server [OF assms] .
  have p: "path_exists m ''Cargo.toml''" "\<not> path_exists m ''/nonexistent/path.mp4''"
    using assms by (simp_all add: networked_def)
  have url: "str_contains ''/file/'' (file_url s i)" for i
    unfolding str_contains_sublist file_url_def sublist_def by (metis append_assoc)
  have next_id: "unat (next_file_id m) \<noteq> unat (next_file_id m + 1)" by (simp add: word_unat_eq_iff [symmetric])
  show "test_file_server_nonexistent_file m" "test_file_server_addr_and_ip m"
    using s p by (simp_all add: test_file_server_nonexistent_file_def test_file_server_addr_and_ip_def
        register_file_def serve_file_def)
  show "test_file_server_creates_url m"
    using s p url by (simp add: test_file_server_creates_url_def register_file_ok file_url_def)
  show "test_file_server_unique_ids m"
    using s p next_id by (simp add: test_file_server_unique_ids_def register_file_ok file_url_def)
qed

text \<open>The parsers on JSON literals.\<close>

lemmas literal_defs = parse_receiver_status_from_json_def parse_media_status_from_json_def volume_json_def
  receiver_message_def some_app_def media_message_def media_case_def media_json_def media_with_def
  metadata_of_def parse_receiver_status_def parse_application_def parse_namespaces_def parse_media_status_def
  parse_player_state_def parse_idle_reason_def parse_stream_type_def parse_media_info_def parse_metadata_def
  parse_images_def parse_image_def as_i64_def as_u64_def as_f64_def Let_def f64_near_def
  METADATA_GENERIC_def METADATA_MOVIE_def METADATA_TV_SHOW_def METADATA_MUSIC_TRACK_def METADATA_PHOTO_def
  METADATA_AUDIOBOOK_CHAPTER_def

lemma literal_levels: "f64_to_f32 0x3FE0000000000000 = 0x3F000000" "f64_to_f32 0x3FE999999999999A = 0x3F4CCCCD"
  "f64_to_f32 0x3FD3333333333333 = 0x3E99999A" "f64_to_f32 F64_ONE = F32_ONE" "f64_to_f32 F64_ZERO = F32_ZERO"
  by (simp_all add: f64_to_f32_def f64_mag_def f64_neg_def f64_is_nan_def mag_64_to_32_def rne_def
      f32_make_def Let_def F64_ONE_def F64_ZERO_def F32_ONE_def F32_ZERO_def)

lemma literal_durations: "f64_gt_zero 0x4082C00000000000" "\<not> f64_gt_zero F64_ZERO"
  "\<not> f64_gt_zero 0xBFF0000000000000"
  by (simp_all add: f64_gt_zero_def f64_neg_def f64_mag_def F64_ZERO_def)

lemma integration_receiver_tests:
  "test_receiver_status_parsing" "test_receiver_status_no_apps" "test_receiver_status_muted_volume"
  "test_receiver_status_multiple_apps"
  by (simp_all add: test_receiver_status_parsing_def test_receiver_status_no_apps_def
      test_receiver_status_muted_volume_def test_receiver_status_multiple_apps_def literal_defs literal_levels)

lemma integration_idle_tests:
  "test_media_status_idle_finished" "test_media_status_idle_error" "test_media_status_idle_cancelled"
  "test_media_status_idle_interrupted" "test_media_status_no_media_field"
  by (simp_all add: test_media_status_idle_finished_def test_media_status_idle_error_def
      test_media_status_idle_cancelled_def test_media_status_idle_interrupted_def
      test_media_status_no_media_field_def literal_defs literal_levels)

lemma integration_media_tests:
  "test_media_status_playing_with_movie_metadata" "test_media_status_buffering" "test_media_status_paused"
  "test_media_status_empty_array" "test_media_status_unknown_player_state" "test_media_status_no_duration"
  "test_media_status_zero_duration_treated_as_none" "test_media_status_negative_duration_treated_as_none"
  "test_media_status_missing_volume"
  by (simp_all add: test_media_status_playing_with_movie_metadata_def test_media_status_buffering_def
      test_media_status_paused_def test_media_status_empty_array_def
      test_media_status_unknown_player_state_def test_media_status_no_duration_def
      test_media_status_zero_duration_treated_as_none_def
      test_media_status_negative_duration_treated_as_none_def test_media_status_missing_volume_def
      literal_defs literal_levels literal_durations)

lemma integration_metadata_tests:
  "test_generic_metadata" "test_tv_show_metadata" "test_music_track_metadata" "test_photo_metadata"
  "test_audiobook_chapter_metadata" "test_unknown_metadata_type_falls_back_to_generic"
  "test_metadata_no_images" "test_metadata_missing_optional_fields"
  by (simp_all add: test_generic_metadata_def test_tv_show_metadata_def test_music_track_metadata_def
      test_photo_metadata_def test_audiobook_chapter_metadata_def
      test_unknown_metadata_type_falls_back_to_generic_def test_metadata_no_images_def
      test_metadata_missing_optional_fields_def literal_defs literal_levels)

lemma constant_tests:
  "test_namespace_constants" "test_cast_app_ids" "test_media_info_builder" "test_media_info_defaults"
  "test_media_info_movie" "test_media_info_live" "test_media_info_full_chain" "test_player_state_display"
  "test_idle_reason_display" "test_stream_type_display" "test_cast_app_display"
  by (simp_all add: test_namespace_constants_def test_cast_app_ids_def test_media_info_builder_def
      test_media_info_defaults_def test_media_info_movie_def test_media_info_live_def
      test_media_info_full_chain_def test_player_state_display_def test_idle_reason_display_def
      test_stream_type_display_def test_cast_app_display_def namespace_defs SENDER_ID_def RECEIVER_ID_def
      APP_DEFAULT_MEDIA_RECEIVER_def APP_YOUTUBE_def APP_BACKDROP_def cast_app_id_def media_info_new_def
      media_info_stream_type_def media_info_duration_def media_info_metadata_def media_info_movie_def
      media_info_live_def)

lemma volume_constructor_tests: "test_volume_new" "test_volume_muted"
  by (simp_all add: test_volume_new_def test_volume_muted_def volume_new_def volume_muted_def f32_clamp_def
      f32_lt_def f32_key_def f32_mag_def f32_neg_def f32_is_nan_def F32_ZERO_def F32_ONE_def)

lemma event_helper_tests:
  "test_event_as_media_status" "test_event_is_disconnected" "test_event_as_receiver_status"
  "test_event_connected_is_not_disconnected" "test_event_reconnecting"
  by (simp_all add: test_event_as_media_status_def test_event_is_disconnected_def
      test_event_as_receiver_status_def test_event_connected_is_not_disconnected_def
      test_event_reconnecting_def event_tests volume_new_def f32_clamp_def f32_lt_def f32_key_def f32_mag_def
      f32_neg_def f32_is_nan_def F32_ZERO_def F32_ONE_def)

text \<open>The number of a timeout and of a request.\<close>

lemma printed: "decimal 5 = ''5''" "decimal 42 = ''42''" "duration_debug 5000000000 = ''5s''"
proof -
  show 5: "decimal 5 = ''5''" and "decimal 42 = ''42''"
    unfolding decimal_def radix.simps [of 10 5] radix.simps [of 10 42] radix.simps [of 10 "42 div 10"]
    by code_simp+
  then show "duration_debug 5000000000 = ''5s''" by (simp add: duration_debug_def fmt_decimal_def)
qed

lemma error_text_test: "test_error_display"
  by (simp add: test_error_display_def printed)

text \<open>Bytes below 128 are read as they are.\<close>

lemma lossy_ascii: "list_all (\<lambda>b. b < 0x80) bs \<Longrightarrow> from_utf8_lossy bs = bytes_string bs"
  by (induction bs) (simp_all add: utf8_step_def sequence_length_def bytes_string_def Let_def)

lemma read_by_hand:
  assumes "length bs < 2 ^ 32" and "list_all (\<lambda>b. b < 0x80) bs"
    and "position (CHR ''{'') (bytes_string bs) = Some i" and "last_position (CHR ''}'') (bytes_string bs) = Some j"
    and "i \<le> j + 1"
  shows "read_json_message parse (frame bs) = Some (parse (take (j + 1 - i) (drop i (bytes_string bs))))"
proof -
  have "unat (of_nat (length bs) :: u32) = length bs"
    using assms(1) by (simp add: unsigned_of_nat take_bit_nat_eq_self)
  then show ?thesis
    using assms(3-) lossy_ascii [OF assms(2)] by (simp add: read_json_message_def frame_def Let_def)
qed

definition ping_bytes :: "u8 list" where
  "ping_bytes = cast_message_encode
     (build_message ''urn:x-cast:com.google.cast.tp.heartbeat'' ''sender-0'' ''receiver-0'' (type_text ''PING''))"

lemma ping_bytes_eq: "ping_bytes =
    [8, 0, 18, 8] @ string_bytes ''sender-0'' @ [26, 10] @ string_bytes ''receiver-0'' @ [34, 39] @
    string_bytes ''urn:x-cast:com.google.cast.tp.heartbeat'' @ [40, 0, 50, 15] @ string_bytes (type_text ''PING'')"
  by (simp add: ping_bytes_def cast_message_encode_def cast_message_fields_def varint.simps string_bytes_def
      type_text_def build_message_def)

lemma bytes_string_append: "bytes_string (bs @ cs) = bytes_string bs @ bytes_string cs"
  by (simp add: bytes_string_def)

lemma position_append: "c \<notin> set s \<Longrightarrow> position c (s @ t) =
    (case position c t of None \<Rightarrow> None | Some i \<Rightarrow> Some (length s + i))"
  by (induction s) (auto split: option.split)

lemma ping_bytes_facts:
  "length ping_bytes = 84" "list_all (\<lambda>b. b < 0x80) ping_bytes"
  by (simp_all add: ping_bytes_eq string_bytes_def type_text_def)

definition ping_head :: string where
  "ping_head = bytes_string [8, 0, 18, 8] @ ''sender-0'' @ bytes_string [26, 10] @ ''receiver-0'' @
     bytes_string [34, 39] @ ''urn:x-cast:com.google.cast.tp.heartbeat'' @ bytes_string [40, 0, 50, 15]"

lemma ping_head_facts: "length ping_head = 69" "CHR ''{'' \<notin> set ping_head"
  by code_simp+

lemma ping_text_read:
  "bytes_string ping_bytes = ping_head @ type_text ''PING''"
  unfolding ping_bytes_eq ping_head_def bytes_string_append bytes_string_bytes append_assoc by (rule refl)

lemma ping_positions:
  "position (CHR ''{'') (bytes_string ping_bytes) = Some 69"
  "last_position (CHR ''}'') (bytes_string ping_bytes) = Some 83"
  by (simp_all add: ping_text_read position_append ping_head_facts last_position_def type_text_def)

lemma framing_read_test:
  assumes "parse (type_text ''PING'') = Some (jobj [(''type'', String ''PING'')])"
  shows "test_framing_roundtrip parse"
proof -
  have "read_json_message parse (frame ping_bytes) = Some (parse (type_text ''PING''))"
    using read_by_hand [OF _ ping_bytes_facts(2) ping_positions, of parse]
    by (simp add: ping_bytes_facts(1) ping_text_read ping_head_facts(1) type_text_def)
  then show ?thesis
    using assms
    by (simp add: test_framing_roundtrip_def encode_by_hand ping_bytes_def [symmetric] at_key_def is_str_def)
qed

lemma framing_length_tests:
  "test_framing_length_prefix_correct" "test_framing_oversized_message_rejected parse"
  "test_framing_empty_stream parse"
proof -
  let ?m = "build_message ''urn:x-cast:com.google.cast.tp.heartbeat'' ''sender-0'' ''receiver-0'' (type_text ''PONG'')"
  have "length (cast_message_encode ?m) = 84"
    by (simp add: cast_message_encode_def cast_message_fields_def varint.simps string_bytes_def
      type_text_def build_message_def)
  then show "test_framing_length_prefix_correct"
    by (simp add: test_framing_length_prefix_correct_def encode_by_hand frame_def Let_def)
qed (simp_all add: test_framing_oversized_message_rejected_def test_framing_empty_stream_def
      read_json_message_def Let_def)

definition integration_tests :: "(parser \<Rightarrow> machine \<Rightarrow> bool) list" where
  "integration_tests =
     map (\<lambda>test parse _. test parse)
       [test_framing_roundtrip, test_framing_oversized_message_rejected, test_framing_empty_stream]
     @ map (\<lambda>test _ m. test m)
         [test_file_server_nonexistent_file, test_file_server_creates_url, test_file_server_unique_ids,
          test_file_server_addr_and_ip]
     @ map (\<lambda>test _ _. test)
         [test_framing_length_prefix_correct, test_receiver_status_parsing, test_receiver_status_no_apps,
          test_receiver_status_muted_volume, test_receiver_status_multiple_apps,
          test_media_status_playing_with_movie_metadata, test_media_status_idle_finished,
          test_media_status_idle_error, test_media_status_idle_cancelled,
          test_media_status_idle_interrupted, test_media_status_buffering, test_media_status_paused,
          test_media_status_empty_array, test_media_status_unknown_player_state,
          test_media_status_no_duration, test_media_status_zero_duration_treated_as_none,
          test_media_status_negative_duration_treated_as_none, test_media_status_no_media_field,
          test_media_status_missing_volume, test_generic_metadata, test_tv_show_metadata,
          test_music_track_metadata, test_photo_metadata, test_audiobook_chapter_metadata,
          test_unknown_metadata_type_falls_back_to_generic, test_metadata_no_images,
          test_metadata_missing_optional_fields, test_namespace_constants, test_cast_app_ids,
          test_media_info_builder, test_media_info_defaults, test_media_info_movie, test_media_info_live,
          test_media_info_full_chain, test_player_state_display, test_idle_reason_display,
          test_stream_type_display, test_cast_app_display, test_volume_new, test_volume_muted,
          test_error_display, test_event_as_media_status, test_event_is_disconnected,
          test_event_as_receiver_status, test_event_connected_is_not_disconnected, test_event_reconnecting]"

text \<open>All of them together, with a reader of JSON that reads the PING the test writes, and on any machine
  whose network answers and that has the file the tests serve.\<close>

lemma integration_tests_pass:
  assumes "parse (type_text ''PING'') = Some (jobj [(''type'', String ''PING'')])" and "networked m"
  shows "list_all (\<lambda>test. test parse m) integration_tests"
  unfolding integration_tests_def
  by (simp add: framing_read_test [of parse, OF assms(1)] framing_length_tests server_tests [OF assms(2)]
      integration_receiver_tests integration_idle_tests integration_media_tests
      integration_metadata_tests constant_tests volume_constructor_tests event_helper_tests error_text_test)

definition test_machine :: machine where
  "test_machine =
     \<lparr>tcp_bind = Inr (), tcp_addr = Inr (V4 0x7F000001, 40123), udp_bind = Inr (), udp_connect = Inr (),
      udp_addr = Inr (V4 0xC0A80105), path_exists = (\<lambda>p. p = ''Cargo.toml''), next_file_id = 0\<rparr>"

lemma integration_tests_instance:
  "list_all (\<lambda>test. test (\<lambda>_. Some (jobj [(''type'', String ''PING'')])) test_machine) integration_tests"
  by (rule integration_tests_pass) (simp_all add: networked_def test_machine_def)

end
