(* ===== verification/Spec2Isabelle.thy ===== *)
theory Spec2Isabelle
  imports AutoReconnect Interleaving Casting Connection Examples Discovery Wire Auth Abandon Ownership Unit_Tests Stress_Test Integration_Tests
begin

text \<open>
  A verification development for oxicast, a Rust client for Google Cast devices (\<open>src/src\<close>). A
  \<open>CastClient\<close> keeps one TLS connection to a device and runs three tasks on it: a writer that frames
  the messages of a channel, a reader that decodes what arrives and routes it, and a heartbeat that
  pings the device and notices silence. The operations of the client register a request, queue its
  message, await the answer on a oneshot channel that the reader fills, and interpret it. A fourth
  task reconnects when the connection is lost.

  \<^bold>\<open>Theories, in the order they build on each other.\<close>

  \<^item> \<open>Prelude\<close>, \<open>Floats\<close>, \<open>Json\<close>: machine integers, results, decimal numbers and strings; the IEEE bit
    patterns of \<open>f32\<close> and \<open>f64\<close> with the conversions the code uses; \<open>serde_json::Value\<close> with its
    accessors.
  \<^item> \<open>Ns\<close>, \<open>Types\<close>, \<open>Errors\<close>: \<open>channel/ns.rs\<close>, \<open>types.rs\<close>, \<open>error.rs\<close> and \<open>event.rs\<close>. Structs are
    records, enums datatypes.
  \<^item> \<open>Proto\<close>, \<open>Auth\<close>, \<open>Framing\<close>: \<open>proto_gen.rs\<close> and \<open>client/framing.rs\<close>. The framing is parametric in the
    protobuf codec (\<open>prost\<close>), whose law is the locale \<open>wire_codec\<close>; a reference codec written from the
    attributes of the generated struct interprets it. The locale \<open>named_enum\<close> is the law of the names
    of every protobuf enumeration.
  \<^item> \<open>Channels\<close>, \<open>Status\<close>: the payloads of \<open>channel/*.rs\<close> and the parsers of \<open>client/router.rs\<close>.
  \<^item> \<open>Tracker\<close>: \<open>client/request_tracker.rs\<close>. The locale \<open>request_registry\<close> states what the router and
    the client rely on, and the tracker interprets it.
  \<^item> \<open>State\<close>, \<open>Heartbeat\<close>, \<open>Router\<close>: \<open>state.rs\<close>, \<open>client/heartbeat.rs\<close>, \<open>route\<close> of \<open>client/router.rs\<close>.
    The record \<open>shared\<close> holds what the tasks hold clones of; \<open>client\<close> extends it. A bounded channel keeps
    the values of senders that wait for room behind its capacity (\<open>chan_send\<close> answers \<open>Accepted\<close>, \<open>Parked\<close>
    or \<open>Refused\<close>).
  \<^item> \<open>Builder\<close>, \<open>Client\<close>, \<open>Requests\<close>: \<open>client/builder.rs\<close> and the operations of \<open>client.rs\<close>. The locale
    \<open>device_request\<close> is the contract they share (guards, one request, \<open>check_device_error\<close>, a last
    step), interpreted on the datatype of all commands and on \<open>launch_app\<close>.
  \<^item> \<open>Tasks\<close>, \<open>Lifecycle\<close>, \<open>AutoReconnect\<close>: \<open>writer_loop\<close>, \<open>reader_loop\<close>, \<open>from_builder\<close>,
    \<open>disconnect\<close>, \<open>reconnect_with_attempt\<close> and \<open>spawn_auto_reconnect\<close> of \<open>client.rs\<close>. A \<open>gap\<close> is a place between
    two operations on shared state where others act; the reader ends by itself, by its token or by an
    abort.
  \<^item> \<open>Interleaving\<close>: the same operations cut at their awaits and between any two of their stores, side by
    side with the tasks and the user, as a step relation (\<open>online_step\<close> without, \<open>world_step\<close> with \<open>disconnect\<close>); its phases compose to
    \<open>reconnect_with_attempt\<close>, and its invariants hold in every reachable state.
  \<^item> \<open>Abandon\<close>, \<open>Ownership\<close>: two extensions of that relation. In the first the future of a \<open>reconnect\<close> may be
    dropped at any await; in the second the handles are counted, with the \<open>Weak\<close> reference of the
    automatic reconnect and \<open>Drop\<close> of \<open>ClientInner\<close>.
  \<^item> \<open>Addr\<close>, \<open>Serve\<close>, \<open>Casting\<close>: the file server of \<open>serve.rs\<close>, with byte ranges, the HTTP handler
    and the serving task from its start to the drop of the server, and \<open>serve_and_cast\<close> of \<open>client.rs\<close>.
  \<^item> \<open>Wire\<close>: a command from its message to the bytes the device answers with, through the reader.
  \<^item> \<open>Discovery\<close>: \<open>discovery.rs\<close>, the search as a list and as a stream.
  \<^item> \<open>Connection\<close>: \<open>client/connection.rs\<close> and what is composed with it, \<open>CastClient::connect\<close>,
    \<open>DeviceInfo::connect\<close>, the \<open>connect\<close> of the builder and \<open>reconnect\<close> over a network. \<open>Addr\<close> has the
    reader of IP addresses it falls back to.
  \<^item> \<open>Examples\<close>: the five programs of \<open>src/examples\<close> as compositions of the client's operations, with
    their exit codes.
  \<^item> \<open>Test_Kit\<close>, \<open>Router_Tests\<close>, \<open>Channel_Tests\<close>, \<open>Unit_Tests\<close>, \<open>Stress_Test\<close>: the \<open>#[cfg(test)]\<close> modules
    of the crate as predicates over the model, a test being true when all its assertions are. They tie
    the definitions to what the authors of the code expect of it. The stress test of the tracker is a
    predicate of the schedule of its tasks.
  \<^item> \<open>Integration_Tests\<close>: the same for \<open>tests/mock_device.rs\<close>, with its helpers that write and read a message
    by hand.

  \<^bold>\<open>How effects are modelled.\<close> The state is passed explicitly. An operation that awaits takes what
  happens meanwhile as an argument (a function on the state, or the messages the reader routes), so a
  theorem that quantifies over it holds for every interleaving at that point. A task loop is a
  function on the list of its wake-ups, each with what other tasks did before it. Fallible code
  returns \<open>error + 'a\<close>, and code that may panic an \<open>option\<close>. The clock is a number of nanoseconds.

  \<^bold>\<open>Parameters.\<close> \<open>render\<close> and \<open>parse\<close> are \<open>serde_json\<close>'s printing and reading of JSON text; where
  a theorem relies on them the property says so. \<open>encode\<close> and \<open>decode\<close> are \<open>prost\<close>'s. The
  network of \<open>Connection\<close> is a record of what TCP, \<open>rustls\<close> and the system's certificate store answer, with
  \<open>handshake_law\<close> for what \<open>rustls\<close> documents of a client handshake; in the life cycle the TLS connection is
  the result it gives, and so are the sockets and files of the server and the rounds of the mDNS
  daemon; \<open>header_law\<close> is what the \<open>http\<close> crate documents of printable header values.

  \<^bold>\<open>What the lemmas show.\<close> The tracker never gives two waiting requests one identifier, and an answer
  reaches exactly the request it names; the router reports exactly the events of a specification, and
  a command's outcome is decided by the first answer; the framing delivers what was written, in
  order; no request is left waiting when a reader ends of its own accord, but an aborted one leaves them;
  silence is detected unless the write channel is full; \<open>disconnect\<close> is final unless a reconnect
  is past its second look at the shutdown flag, though one past its first look can leave the watchers at
  \<open>Reconnecting\<close>; a connected client has its
  tasks running, even when reconnects are abandoned, except while the tracker is cleared, where
  giving up loses the client for good; the last handle to go ends every task, but a recovery under
  way holds a handle of its own; the automatic reconnect is bounded and recovers; metadata
  survives the round trip; a range request gets exactly its bytes, and
  what is cast is what is served; the device stream delivers what the device list would hold; a client connects to any device that speaks unless verification
  is asked for, and one that verifies keeps doing so when it reconnects; the examples have hung
  up when they succeed; the stress test of the tracker holds under every schedule. The other tests of the
  crate hold as lemmas that tie the definitions to what its authors expect.

  \<^bold>\<open>Not modelled.\<close> Logging; the notification that a watcher awaits before it looks; re-exports and
  feature flags; the codec of the device-authentication messages, which the crate does not use; the futures
  of other operations than \<open>reconnect\<close> being dropped half-way (a dropped command leaves its entry in the
  tracker like one whose \<open>send\<close> fails). A turn of a task's loop, with what it does at its end, is one step:
  an abort in the middle of it is left out. A \<open>send\<close> whose receiver goes away while it waits for room fails
  in \<open>request\<close>, in the operations that connect and in the step relation (\<open>starves\<close>); elsewhere it counts
  as sent. There is one \<open>disconnect\<close> at a time. Connections to the file server made before it is dropped
  are left out.
\<close>

end
